(* ===== verification/Prelude.thy ===== *)
theory Prelude
  imports Main "HOL-Library.Word"
begin

text \<open>
  The vocabulary every component shares: the byte and text types of the Qt code, the
  environment a handler reads (clock and random generator), and the list and word facts
  the component proofs rest on.

  \<^item> a \<open>QByteArray\<close> is a list of bytes, a \<open>QString\<close> a list of UTF-16 code units;
  \<^item> \<open>byteLit\<close> and \<open>qs\<close> turn an ASCII literal into a \<open>QByteArray\<close> and a \<open>QString\<close>
    (\<open>QStringLiteral\<close> in the code);
  \<^item> \<open>env\<close> holds the results that successive calls of
    \<open>QDateTime::currentSecsSinceEpoch()\<close> and \<open>QRandomGenerator::generate64()\<close> return.
    Each call consumes one, so two reads of the clock in one handler can differ.
\<close>

named_theorems frame_simps \<open>what an operation leaves unchanged\<close>
named_theorems env_simps \<open>what reading the environment changes\<close>

section \<open>Types\<close>

type_synonym byte = "8 word"
type_synonym bytes = "byte list"
type_synonym qstring = "16 word list"
type_synonym qint64 = "64 word"
type_synonym quint64 = "64 word"
type_synonym quint16 = "16 word"

definition byteLit :: "string \<Rightarrow> bytes" where
  "byteLit s = map of_char s"

definition qs :: "string \<Rightarrow> qstring" where
  "qs s = map of_char s"

section \<open>The environment\<close>

record env =
  clock :: "nat \<Rightarrow> qint64"
  ticks :: nat
  rand :: "nat \<Rightarrow> quint64"
  draws :: nat

definition currentSecs :: "env \<Rightarrow> qint64 \<times> env" where
  "currentSecs e = (clock e (ticks e), e\<lparr>ticks := Suc (ticks e)\<rparr>)"

definition generate64 :: "env \<Rightarrow> quint64 \<times> env" where
  "generate64 e = (rand e (draws e), e\<lparr>draws := Suc (draws e)\<rparr>)"

text \<open>
  Clock readings are seconds since 1970 and never run backwards: the assumption under
  which the freshness and replay results are stated. The bound keeps every difference of
  two readings far from the ends of the 64-bit range.
\<close>

definition sane_clock :: "env \<Rightarrow> bool" where
  "sane_clock e \<longleftrightarrow>
     (\<forall>i j. i \<le> j \<longrightarrow> sint (clock e i) \<le> sint (clock e j)) \<and>
     (\<forall>i. 0 \<le> sint (clock e i) \<and> sint (clock e i) < 2 ^ 61)"

lemma clock_currentSecs [env_simps]: "clock (snd (currentSecs e)) = clock e"
  and rand_currentSecs [env_simps]: "rand (snd (currentSecs e)) = rand e"
  and draws_currentSecs [env_simps]: "draws (snd (currentSecs e)) = draws e"
  and ticks_currentSecs [env_simps]: "ticks (snd (currentSecs e)) = Suc (ticks e)"
  and fst_currentSecs [env_simps]: "fst (currentSecs e) = clock e (ticks e)"
  by (simp_all add: currentSecs_def)

lemma clock_generate64 [env_simps]: "clock (snd (generate64 e)) = clock e"
  and rand_generate64 [env_simps]: "rand (snd (generate64 e)) = rand e"
  and ticks_generate64 [env_simps]: "ticks (snd (generate64 e)) = ticks e"
  and fst_generate64 [env_simps]: "fst (generate64 e) = rand e (draws e)"
  by (simp_all add: generate64_def)

lemma sane_clock_cong: "clock e' = clock e \<Longrightarrow> sane_clock e' = sane_clock e"
  by (simp add: sane_clock_def)

section \<open>Literals\<close>

lemma of_char_nat_less: "of_char c < (256 :: nat)"
proof -
  have "(of_char c :: nat) mod 256 < 256" by simp
  then show ?thesis by (simp only: of_char_mod_256)
qed

lemma unat_of_char_16: "unat (of_char c :: 16 word) = of_char c"
proof -
  have "unat (of_nat (of_char c) :: 16 word) = (of_char c :: nat)"
    unfolding unat_of_nat
    by (rule mod_less, rule less_le_trans [OF of_char_nat_less]) simp
  then show ?thesis by (simp only: of_nat_of_char)
qed

lemma unat_of_char_8: "unat (of_char c :: 8 word) = of_char c"
proof -
  have "unat (of_nat (of_char c) :: 8 word) = (of_char c :: nat)"
    unfolding unat_of_nat
    by (rule mod_less, rule less_le_trans [OF of_char_nat_less]) simp
  then show ?thesis by (simp only: of_nat_of_char)
qed

lemma of_char_16_eq [simp]: "(of_char c :: 16 word) = of_char d \<longleftrightarrow> c = d"
proof
  assume "(of_char c :: 16 word) = of_char d"
  then have "(of_char c :: nat) = of_char d" by (metis unat_of_char_16)
  then show "c = d" by simp
qed simp

lemma of_char_8_eq [simp]: "(of_char c :: 8 word) = of_char d \<longleftrightarrow> c = d"
proof
  assume "(of_char c :: 8 word) = of_char d"
  then have "(of_char c :: nat) = of_char d" by (metis unat_of_char_8)
  then show "c = d" by simp
qed simp

lemma qs_eq_iff [simp]: "qs s = qs t \<longleftrightarrow> s = t"
proof -
  have "inj (of_char :: char \<Rightarrow> 16 word)" by (rule injI) simp
  then show ?thesis by (simp add: qs_def inj_map_eq_map)
qed

lemma byteLit_eq_iff [simp]: "byteLit s = byteLit t \<longleftrightarrow> s = t"
proof -
  have "inj (of_char :: char \<Rightarrow> 8 word)" by (rule injI) simp
  then show ?thesis by (simp add: byteLit_def inj_map_eq_map)
qed

lemma qs_Nil [simp]: "qs s = [] \<longleftrightarrow> s = []" and length_qs [simp]: "length (qs s) = length s"
  by (simp_all add: qs_def)

lemma byteLit_Nil [simp]: "byteLit s = [] \<longleftrightarrow> s = []" and length_byteLit [simp]: "length (byteLit s) = length s"
  by (simp_all add: byteLit_def)

section \<open>Signed 64-bit arithmetic\<close>

lemma sint_of_int_self:
  "- (2 ^ 63) \<le> x \<Longrightarrow> x < 2 ^ 63 \<Longrightarrow> sint (word_of_int x :: 64 word) = x"
  by (simp add: sint_sbintrunc' signed_take_bit_int_eq_self)

lemma sint_bounds: "- (2 ^ 63) \<le> sint (w :: 64 word)" "sint (w :: 64 word) < 2 ^ 63"
  using sint_ge [of w] sint_lt [of w] by simp_all

lemma sint_uminus:
  assumes "sint (w :: 64 word) \<noteq> - (2 ^ 63)"
  shows "sint (- w) = - sint w"
proof -
  have "sint (word_of_int (- sint w) :: 64 word) = - sint w"
    using assms sint_bounds [of w] by (intro sint_of_int_self) auto
  then show ?thesis by simp
qed

lemma sint_minus:
  "- (2 ^ 63) \<le> sint a - sint b \<Longrightarrow> sint a - sint b < 2 ^ 63 \<Longrightarrow>
   sint (a - b :: 64 word) = sint a - sint b"
  using sint_of_int_self [of "sint a - sint b"] by simp

lemma sint_min_eq: "sint (w :: 64 word) = - (2 ^ 63) \<longleftrightarrow> w = 2 ^ 63"
proof
  assume "sint w = - (2 ^ 63)"
  then have "word_of_int (sint w) = (word_of_int (- (2 ^ 63)) :: 64 word)" by (rule arg_cong)
  then show "w = 2 ^ 63" by simp
qed simp

lemma sane_clock_diff:
  assumes "sane_clock e"
  shows "sint (clock e j - clock e i) = sint (clock e j) - sint (clock e i)"
proof (rule sint_minus)
  have "0 \<le> sint (clock e i) \<and> sint (clock e i) < 2 ^ 61"
    and "0 \<le> sint (clock e j) \<and> sint (clock e j) < 2 ^ 61"
    using assms by (simp_all only: sane_clock_def)
  then show "- (2 ^ 63) \<le> sint (clock e j) - sint (clock e i)"
    and "sint (clock e j) - sint (clock e i) < 2 ^ 63"
    by simp_all
qed

end
