(* ===== verification/Contracts.thy ===== *)
theory Contracts
  imports Prelude
begin

text \<open>
  The contracts between components, as locales. Each names the operations a client calls
  and the laws the provider promises; the lemmas inside are what a client may use. The
  provider's theory interprets the locale on its own definitions:
  \<^item> \<open>codec\<close>: a total encoding that its decoder inverts
    (big-endian timestamps in \<open>Replay\<close>, hexadecimal fields in \<open>Envelope\<close>);
  \<^item> \<open>sealed_channel\<close>: authenticated encryption under a fixed key, nonce and associated
    data (AES-256-GCM in \<open>Crypto\<close>, JSON envelopes in \<open>Envelope\<close>).
\<close>

section \<open>Encodings\<close>

locale codec =
  fixes enc :: "'a \<Rightarrow> 'b" and dec :: "'b \<Rightarrow> 'a" and ok :: "'a \<Rightarrow> bool"
  assumes dec_enc: "ok x \<Longrightarrow> dec (enc x) = x"
begin

lemma enc_eq_iff: "ok x \<Longrightarrow> ok y \<Longrightarrow> enc x = enc y \<longleftrightarrow> x = y"
  using dec_enc by metis

lemma dec_eqI: "ok x \<Longrightarrow> b = enc x \<Longrightarrow> dec b = x"
  by (simp add: dec_enc)

lemma inj_on_enc: "inj_on enc {x. ok x}"
  by (rule inj_onI) (simp add: enc_eq_iff)

end

section \<open>Authenticated channels\<close>

text \<open>
  \<open>unseal_seal\<close> is completeness; \<open>seal_unseal\<close> is authenticity: what opens was sealed.
\<close>

locale sealed_channel =
  fixes seal :: "'p \<Rightarrow> 'c" and unseal :: "'c \<Rightarrow> 'p option" and ready :: bool
    and fits :: "'p \<Rightarrow> bool"
  assumes unseal_seal: "ready \<Longrightarrow> fits p \<Longrightarrow> unseal (seal p) = Some p"
    and seal_unseal: "ready \<Longrightarrow> unseal c = Some p \<Longrightarrow> seal p = c"
begin

lemma unseal_iff: "ready \<Longrightarrow> fits p \<Longrightarrow> unseal c = Some p \<longleftrightarrow> c = seal p"
  using unseal_seal seal_unseal by auto

lemma unseal_unique: "ready \<Longrightarrow> unseal c = Some p \<Longrightarrow> unseal d = Some p \<Longrightarrow> c = d"
  using seal_unseal by metis

lemma forged_rejected: "ready \<Longrightarrow> c \<notin> range seal \<Longrightarrow> unseal c = None"
  using seal_unseal by (metis not_None_eq rangeI)

end

sublocale sealed_channel \<subseteq> opened: codec seal "\<lambda>c. the (unseal c)" "\<lambda>p. ready \<and> fits p"
  by unfold_locales (simp add: unseal_seal)

end
