(* ===== verification/Platform.thy ===== *)
theory Platform
  imports Prelude "HOL-Library.Monad_Syntax"
begin

text \<open>
  What the program calls and does not define. \<open>qt\<close> collects the conversion and JSON
  functions of Qt, \<open>openssl\<close> the EVP interface of OpenSSL; both are records of
  uninterpreted functions that every definition of the model takes as an argument.
  \<open>qt_laws\<close>, \<open>gcm_laws\<close>, \<open>ed25519_laws\<close> and \<open>x25519_laws\<close> state the
  documented behaviour the correctness theorems rely on; the theory \<open>Reference\<close>
  gives concrete records that satisfy them.

  An OpenSSL object (a context, a key) is opaque to its user, so the model identifies it
  with the list of calls made on it: \<open>evp L h\<close> is what the last call of the history
  \<open>h\<close> reports, \<open>None\<close> for NULL or a result other than 1 and \<open>Some out\<close> for
  success with the bytes written; \<open>evp_raw\<close> is the same for a call that fills a
  buffer of fixed size, given by its contents at every position.
\<close>

section \<open>JSON values\<close>

text \<open>\<open>QJsonValue\<close> and \<open>QJsonObject\<close>; a double is kept as its IEEE bit pattern.\<close>

datatype json =
    JNull
  | JUndefined
  | JBool bool
  | JInteger qint64
  | JDouble "64 word"
  | JString qstring
  | JArray "json list"
  | JObject "(qstring \<times> json) list"

type_synonym json_object = "(qstring \<times> json) list"

text \<open>\<open>QJsonObject::value(key)\<close> and \<open>QJsonValue::toString()\<close> (empty unless a string).\<close>

definition jvalue :: "json_object \<Rightarrow> string \<Rightarrow> json" where
  "jvalue ob key = (case map_of ob (qs key) of None \<Rightarrow> JUndefined | Some v \<Rightarrow> v)"

fun toString :: "json \<Rightarrow> qstring" where
  "toString (JString s) = s"
| "toString _ = []"

fun scalar :: "json \<Rightarrow> bool" where
  "scalar (JBool _) = True"
| "scalar (JInteger _) = True"
| "scalar (JString _) = True"
| "scalar _ = False"

definition flat_object :: "json_object \<Rightarrow> bool" where
  "flat_object ob \<longleftrightarrow> distinct (map fst ob) \<and> (\<forall>kv \<in> set ob. scalar (snd kv))"

section \<open>Qt\<close>

record qt =
  fromJson :: "bytes \<Rightarrow> json option"
  toJson :: "json \<Rightarrow> bytes"
  toHex :: "bytes \<Rightarrow> bytes"
  fromHex :: "bytes \<Rightarrow> bytes"
  toBase64 :: "bytes \<Rightarrow> bytes"
  fromBase64 :: "bytes \<Rightarrow> bytes"
  toLatin1 :: "qstring \<Rightarrow> bytes"
  fromLatin1 :: "bytes \<Rightarrow> qstring"
  toUtf8 :: "qstring \<Rightarrow> bytes"
  fromUtf8 :: "bytes \<Rightarrow> qstring"
  numberHex :: "quint64 \<Rightarrow> bytes"
  qsNumberHex :: "quint64 \<Rightarrow> qstring"
  numberDec :: "qint64 \<Rightarrow> bytes"
  qsNumberDec :: "int \<Rightarrow> qstring"
  toLongLong :: "json \<Rightarrow> qint64"
  hostBytes :: "quint64 \<Rightarrow> bytes"

definition json_laws :: "qt \<Rightarrow> bool" where
  "json_laws Q \<longleftrightarrow>
     (\<forall>ob. flat_object ob \<longrightarrow>
        (\<exists>ob'. fromJson Q (toJson Q (JObject ob)) = Some (JObject ob') \<and> map_of ob' = map_of ob)) \<and>
     (\<forall>ob. 10 \<notin> set (toJson Q (JObject ob))) \<and>
     (\<forall>ob. \<exists>body. toJson Q (JObject ob) = 123 # body @ [125])"

definition hex_laws :: "qt \<Rightarrow> bool" where
  "hex_laws Q \<longleftrightarrow>
     (\<forall>b. fromHex Q (toHex Q b) = b) \<and>
     (\<forall>b. toLatin1 Q (fromLatin1 Q b) = b)"

definition number_laws :: "qt \<Rightarrow> bool" where
  "number_laws Q \<longleftrightarrow>
     (\<forall>n. toLongLong Q (JInteger n) = n) \<and>
     (\<forall>m n. numberDec Q m = numberDec Q n \<longrightarrow> m = n) \<and>
     (\<forall>v. length (hostBytes Q v) = 8)"

definition qt_laws :: "qt \<Rightarrow> bool" where
  "qt_laws Q \<longleftrightarrow> json_laws Q \<and> hex_laws Q \<and> number_laws Q"

definition base64_laws :: "qt \<Rightarrow> bool" where
  "base64_laws Q \<longleftrightarrow> (\<forall>b. fromBase64 Q (toBase64 Q b) = b)"

section \<open>OpenSSL\<close>

datatype evp_type = EVP_PKEY_X25519 | EVP_PKEY_ED25519

datatype evp_call =
    EVP_PKEY_CTX_new_id evp_type
  | EVP_PKEY_keygen_init
  | EVP_PKEY_keygen
  | EVP_PKEY_get_raw_private_key
  | EVP_PKEY_get_raw_public_key
  | EVP_PKEY_new_raw_private_key evp_type bytes
  | EVP_PKEY_new_raw_public_key evp_type bytes
  | EVP_PKEY_CTX_new
  | EVP_PKEY_derive_init
  | EVP_PKEY_derive_set_peer bytes
  | EVP_PKEY_derive
  | EVP_CIPHER_CTX_new
  | EVP_EncryptInit_cipher
  | EVP_EncryptInit_key bytes bytes
  | EVP_EncryptUpdate_aad bytes
  | EVP_EncryptUpdate bytes
  | EVP_EncryptFinal
  | EVP_CTRL_GCM_GET_TAG
  | EVP_DecryptInit_cipher
  | EVP_DecryptInit_key bytes bytes
  | EVP_DecryptUpdate_aad bytes
  | EVP_DecryptUpdate bytes
  | EVP_CTRL_GCM_SET_TAG bytes
  | EVP_DecryptFinal
  | EVP_MD_CTX_new
  | EVP_DigestVerifyInit bytes
  | EVP_DigestVerify bytes bytes

text \<open>
  \<open>past_end L b\<close> are the bytes of memory that follow the array \<open>b\<close> and its
  terminating zero: what a call sees that reads more bytes than the array has.
\<close>

record openssl =
  evp :: "evp_call list \<Rightarrow> bytes option"
  evp_raw :: "evp_call list \<Rightarrow> (nat \<Rightarrow> byte) option"
  past_end :: "bytes \<Rightarrow> bytes"

text \<open>One more call on an object with history \<open>h\<close>.\<close>

definition evp_step :: "openssl \<Rightarrow> evp_call list \<Rightarrow> evp_call \<Rightarrow> (evp_call list \<times> bytes) option" where
  "evp_step L h c = map_option (\<lambda>written. (h @ [c], written)) (evp L (h @ [c]))"

text \<open>A buffer of \<open>n\<close> bytes that a call has filled.\<close>

definition readBuf :: "nat \<Rightarrow> (nat \<Rightarrow> byte) \<Rightarrow> bytes" where
  "readBuf n f = map f [0..<n]"

lemma length_readBuf [simp]: "length (readBuf n f) = n"
  by (simp add: readBuf_def)

lemma readBuf_nth: "length xs = n \<Longrightarrow> (\<And>i. i < n \<Longrightarrow> f i = xs ! i) \<Longrightarrow> readBuf n f = xs"
  by (auto simp: readBuf_def intro: nth_equalityI)

lemma evp_step_Some [simp]: "evp L (h @ [c]) = Some w \<Longrightarrow> evp_step L h c = Some (h @ [c], w)"
  by (simp add: evp_step_def)

lemma evp_step_None [simp]: "evp L (h @ [c]) = None \<Longrightarrow> evp_step L h c = None"
  by (simp add: evp_step_def)

subsection \<open>Documented behaviour\<close>

text \<open>
  AES-256-GCM as its specification gives it: \<open>ctr\<close> is the key-stream of a key and a 12-byte
  IV applied to data, an involution, and \<open>gtag\<close> the authentication tag of the associated
  data and the ciphertext. The laws say what the EVP calls return on an object set up the
  documented way: data comes back transformed, \<open>EVP_DecryptFinal_ex\<close> succeeds only if the
  expected tag is the computed one.
\<close>

record gcm =
  ctr :: "bytes \<Rightarrow> bytes \<Rightarrow> bytes \<Rightarrow> bytes"
  gtag :: "bytes \<Rightarrow> bytes \<Rightarrow> bytes \<Rightarrow> bytes \<Rightarrow> bytes"

definition enc_hist :: "bytes \<Rightarrow> bytes \<Rightarrow> bytes \<Rightarrow> evp_call list" where
  "enc_hist k iv a = [EVP_CIPHER_CTX_new, EVP_EncryptInit_cipher, EVP_EncryptInit_key k iv] @
     (if a = [] then [] else [EVP_EncryptUpdate_aad a])"

definition dec_hist :: "bytes \<Rightarrow> bytes \<Rightarrow> bytes \<Rightarrow> evp_call list" where
  "dec_hist k iv a = [EVP_CIPHER_CTX_new, EVP_DecryptInit_cipher, EVP_DecryptInit_key k iv] @
     (if a = [] then [] else [EVP_DecryptUpdate_aad a])"

definition gcm_enc_laws :: "openssl \<Rightarrow> gcm \<Rightarrow> bool" where
  "gcm_enc_laws L G \<longleftrightarrow> (\<forall>k iv a p. length k = 32 \<longrightarrow> length iv = 12 \<longrightarrow>
     (\<forall>n < 4. evp L (take (Suc n) (enc_hist k iv a)) \<noteq> None) \<and>
     (p \<noteq> [] \<longrightarrow> evp L (enc_hist k iv a @ [EVP_EncryptUpdate p]) = Some (ctr G k iv p)) \<and>
     (let h = enc_hist k iv a @ (if p = [] then [] else [EVP_EncryptUpdate p]) @ [EVP_EncryptFinal]
      in evp L h = Some [] \<and>
         (\<exists>f. evp_raw L (h @ [EVP_CTRL_GCM_GET_TAG]) = Some f \<and>
              readBuf 16 f = gtag G k iv a (ctr G k iv p))))"

definition gcm_dec_laws :: "openssl \<Rightarrow> gcm \<Rightarrow> bool" where
  "gcm_dec_laws L G \<longleftrightarrow> (\<forall>k iv a c t. length k = 32 \<longrightarrow> length iv = 12 \<longrightarrow> length t = 16 \<longrightarrow>
     (\<forall>n < 4. evp L (take (Suc n) (dec_hist k iv a)) \<noteq> None) \<and>
     (c \<noteq> [] \<longrightarrow> evp L (dec_hist k iv a @ [EVP_DecryptUpdate c]) = Some (ctr G k iv c)) \<and>
     (let h = dec_hist k iv a @ (if c = [] then [] else [EVP_DecryptUpdate c]) @ [EVP_CTRL_GCM_SET_TAG t]
      in evp L h \<noteq> None \<and>
         evp L (h @ [EVP_DecryptFinal]) = (if gtag G k iv a c = t then Some [] else None)))"

definition gcm_laws :: "openssl \<Rightarrow> gcm \<Rightarrow> bool" where
  "gcm_laws L G \<longleftrightarrow>
     (\<forall>k iv d. ctr G k iv (ctr G k iv d) = d \<and> length (ctr G k iv d) = length d) \<and>
     (\<forall>k iv a c. length (gtag G k iv a c) = 16) \<and>
     gcm_enc_laws L G \<and> gcm_dec_laws L G"

text \<open>
  Ed25519: verification succeeds exactly on the pairs of \<open>valid\<close>, for any 32-byte key.
  X25519: the agreement of two 32-byte keys yields the shared point \<open>dh\<close>, or fails: OpenSSL refuses
  a peer key of small order, with which the shared point would be zero. \<open>dh\<close> is \<open>None\<close> there.
\<close>

definition ed25519_laws :: "openssl \<Rightarrow> (bytes \<Rightarrow> bytes \<Rightarrow> bytes \<Rightarrow> bool) \<Rightarrow> bool" where
  "ed25519_laws L valid \<longleftrightarrow>
     evp L [EVP_MD_CTX_new] \<noteq> None \<and>
     (\<forall>pk. length pk = 32 \<longrightarrow>
        evp L [EVP_PKEY_new_raw_public_key EVP_PKEY_ED25519 pk] \<noteq> None \<and>
        evp L [EVP_MD_CTX_new, EVP_DigestVerifyInit pk] \<noteq> None \<and>
        (\<forall>sig msg. (evp L [EVP_MD_CTX_new, EVP_DigestVerifyInit pk, EVP_DigestVerify sig msg] \<noteq> None)
                   = valid pk msg sig))"

definition x25519_laws :: "openssl \<Rightarrow> (bytes \<Rightarrow> bytes \<Rightarrow> bytes option) \<Rightarrow> bool" where
  "x25519_laws L dh \<longleftrightarrow> (\<forall>priv pub. length priv = 32 \<longrightarrow> length pub = 32 \<longrightarrow>
     (let h = [EVP_PKEY_new_raw_private_key EVP_PKEY_X25519 priv, EVP_PKEY_CTX_new,
               EVP_PKEY_derive_init, EVP_PKEY_derive_set_peer pub]
      in case dh priv pub of
           None \<Rightarrow> evp_raw L (h @ [EVP_PKEY_derive]) = None
         | Some secret \<Rightarrow>
             (\<forall>n < 4. evp L (take (Suc n) h) \<noteq> None) \<and>
             evp L [EVP_PKEY_new_raw_public_key EVP_PKEY_X25519 pub] \<noteq> None \<and>
             (\<exists>f. evp_raw L (h @ [EVP_PKEY_derive]) = Some f \<and> readBuf 32 f = secret)))"

section \<open>Facts about JSON objects\<close>

lemma jvalue_cong: "map_of ob' = map_of ob \<Longrightarrow> jvalue ob' key = jvalue ob key"
  by (simp add: jvalue_def)

lemma jvalue_Cons [simp]:
  "jvalue ((qs k, v) # ob) key = (if k = key then v else jvalue ob key)"
  by (simp add: jvalue_def)

lemma jvalue_Nil [simp]: "jvalue [] key = JUndefined"
  by (simp add: jvalue_def)

lemma json_roundtrip:
  assumes "json_laws Q" and "flat_object ob"
  obtains ob' where "fromJson Q (toJson Q (JObject ob)) = Some (JObject ob')"
    and "\<And>key. jvalue ob' key = jvalue ob key"
  using assms unfolding json_laws_def by (metis jvalue_cong)

lemma hex_text: "hex_laws Q \<Longrightarrow> fromHex Q (toLatin1 Q (fromLatin1 Q (toHex Q b))) = b"
  by (simp add: hex_laws_def)

end
