(* ===== verification/Reference.thy ===== *)
theory Reference
  imports Platform
begin

text \<open>
  Concrete functions that satisfy the laws of \<open>Platform\<close>, for the witnesses only: every
  theorem with a law among its hypotheses is applied here to records that are fully
  computed. They are not models of Qt or OpenSSL; a text format writes each word as its
  binary digits, the cipher is a fixed mask with a checksum as its tag, a signature is the
  public key followed by a checksum of the message.
\<close>

unbundle bit_operations_syntax

section \<open>Words as digits\<close>

definition digits :: "'a::len word \<Rightarrow> bytes" where
  "digits w = map (\<lambda>i. if bit w i then 49 else 48) [0..<LENGTH('a)]"

definition undigits :: "bytes \<Rightarrow> 'a::len word" where
  "undigits ds = horner_sum of_bool 2 (map (\<lambda>d. d = 49) ds)"

lemma length_digits [simp]: "length (digits (w :: 'a::len word)) = LENGTH('a)"
  by (simp add: digits_def)

lemma undigits_digits [simp]: "undigits (digits (w :: 'a::len word)) = w"
proof -
  have "map (\<lambda>d. d = 49) (digits w) = map (bit w) [0..<LENGTH('a)]"
    by (simp add: digits_def)
  then show ?thesis by (simp add: undigits_def horner_sum_bit_eq_take_bit)
qed

lemma digits_inj: "digits v = digits w \<Longrightarrow> v = w"
  by (metis undigits_digits)

lemma digits_bytes: "b \<in> set (digits w) \<Longrightarrow> b = 48 \<or> b = 49"
  by (auto simp: digits_def)

section \<open>A text format for flat objects\<close>

definition put_text :: "qstring \<Rightarrow> bytes" where
  "put_text s = concat (map (\<lambda>u. 43 # digits u) s) @ [44]"

fun get_text :: "bytes \<Rightarrow> (qstring \<times> bytes) option" where
  "get_text [] = None"
| "get_text (x # r) =
     (if x = 43 then map_option (\<lambda>(s, r'). (undigits (take 16 r) # s, r')) (get_text (drop 16 r))
      else Some ([], r))"

lemma get_put_text: "get_text (put_text s @ r) = Some (s, r)"
  by (induction s) (simp_all add: put_text_def)

fun put_value :: "json \<Rightarrow> bytes" where
  "put_value (JBool b) = [if b then 116 else 102]"
| "put_value (JInteger n) = 105 # digits n"
| "put_value (JString s) = 34 # put_text s"
| "put_value _ = [110]"

definition get_value :: "bytes \<Rightarrow> (json \<times> bytes) option" where
  "get_value ds = (case ds of [] \<Rightarrow> None | t # r \<Rightarrow>
     (if t = 116 then Some (JBool True, r)
      else if t = 102 then Some (JBool False, r)
      else if t = 105 then Some (JInteger (undigits (take 64 r)), drop 64 r)
      else if t = 34 then map_option (\<lambda>(s, r'). (JString s, r')) (get_text r)
      else None))"

lemma get_put_value: "scalar v \<Longrightarrow> get_value (put_value v @ r) = Some (v, r)"
  by (cases v rule: scalar.cases) (simp_all add: get_value_def get_put_text)

definition put_entry :: "qstring \<times> json \<Rightarrow> bytes" where
  "put_entry kv = 35 # put_text (fst kv) @ put_value (snd kv)"

fun get_entries :: "nat \<Rightarrow> bytes \<Rightarrow> json_object option" where
  "get_entries 0 ds = None"
| "get_entries (Suc n) ds = (case ds of [] \<Rightarrow> None | t # r \<Rightarrow>
     (if t = 35 then do { (k, r) \<leftarrow> get_text r; (v, r) \<leftarrow> get_value r;
                          ob \<leftarrow> get_entries n r; Some ((k, v) # ob) }
      else Some []))"

lemma get_put_entries:
  "\<forall>kv \<in> set ob. scalar (snd kv) \<Longrightarrow> length ob < n \<Longrightarrow>
   get_entries n (concat (map put_entry ob) @ [125]) = Some ob"
proof (induction ob arbitrary: n)
  case Nil
  then show ?case by (cases n) simp_all
next
  case (Cons kv ob)
  then obtain m where "n = Suc m" and "length ob < m" by (cases n) auto
  with Cons show ?case
    by (cases kv) (simp add: put_entry_def get_put_text get_put_value)
qed

definition ref_toJson :: "json \<Rightarrow> bytes" where
  "ref_toJson v = (case v of JObject ob \<Rightarrow> 123 # concat (map put_entry ob) @ [125] | _ \<Rightarrow> [110])"

definition ref_fromJson :: "bytes \<Rightarrow> json option" where
  "ref_fromJson ds = (case ds of [] \<Rightarrow> None | t # r \<Rightarrow>
     (if t = 123 then map_option JObject (get_entries (length r) r) else None))"

lemma length_put_entries: "length ob \<le> length (concat (map put_entry ob))"
  by (induction ob) (simp_all add: put_entry_def)

lemma ref_json_roundtrip:
  "flat_object ob \<Longrightarrow> ref_fromJson (ref_toJson (JObject ob)) = Some (JObject ob)"
  using length_put_entries [of ob]
  by (simp add: ref_fromJson_def ref_toJson_def flat_object_def get_put_entries
      del: get_entries.simps)

lemma no_newline_text: "10 \<notin> set (put_text s)"
  by (auto simp: put_text_def dest: digits_bytes)

lemma no_newline_value: "10 \<notin> set (put_value v)"
  by (cases v rule: put_value.cases) (use no_newline_text in \<open>auto dest: digits_bytes\<close>)

lemma no_newline_json: "10 \<notin> set (ref_toJson (JObject ob))"
  using no_newline_text no_newline_value
  by (auto simp: ref_toJson_def put_entry_def)

section \<open>The Qt record\<close>

function ref_fromHex :: "bytes \<Rightarrow> bytes" where
  "ref_fromHex ds = (if ds = [] then [] else undigits (take 8 ds) # ref_fromHex (drop 8 ds))"
  by pat_completeness auto
termination
  by (relation "measure length") auto

declare ref_fromHex.simps [simp del]

definition ref_toHex :: "bytes \<Rightarrow> bytes" where
  "ref_toHex b = concat (map digits b)"

lemma ref_hex_roundtrip: "ref_fromHex (ref_toHex b) = b"
proof (induction b)
  case Nil
  show ?case by (simp add: ref_toHex_def ref_fromHex.simps)
next
  case (Cons x b)
  have "digits x @ ref_toHex b \<noteq> []" by (metis append_is_Nil_conv length_digits len_gt_0 length_0_conv less_not_refl)
  with Cons show ?case
    by (simp add: ref_toHex_def ref_fromHex.simps [of "digits x @ concat (map digits b)"])
qed

definition ref_hostBytes :: "quint64 \<Rightarrow> bytes" where
  "ref_hostBytes v = map (\<lambda>i. ucast (drop_bit (8 * i) v)) [0..<8]"

fun ref_toLongLong :: "json \<Rightarrow> qint64" where
  "ref_toLongLong (JInteger n) = n"
| "ref_toLongLong _ = 0"

definition ref_qt :: qt where
  "ref_qt = \<lparr>fromJson = ref_fromJson, toJson = ref_toJson, toHex = ref_toHex,
     fromHex = ref_fromHex, toBase64 = ref_toHex, fromBase64 = ref_fromHex,
     toLatin1 = map ucast, fromLatin1 = map ucast, toUtf8 = map ucast, fromUtf8 = map ucast,
     numberHex = (\<lambda>v. ref_toHex (rev (ref_hostBytes v))),
     qsNumberHex = (\<lambda>v. map ucast (ref_toHex (rev (ref_hostBytes v)))),
     numberDec = digits, qsNumberDec = (\<lambda>n. map ucast (digits (word_of_int n :: 64 word))),
     toLongLong = ref_toLongLong, hostBytes = ref_hostBytes\<rparr>"

lemma ucast_up_down: "ucast (ucast (b :: byte) :: 16 word) = b"
  by (rule bit_word_eqI) (simp add: bit_ucast_iff)

lemma ref_qt_laws: "qt_laws ref_qt"
proof -
  have "json_laws ref_qt"
    unfolding json_laws_def using ref_json_roundtrip no_newline_json
    by (auto simp: ref_qt_def) (auto simp: ref_toJson_def)
  moreover have "hex_laws ref_qt"
    by (simp add: hex_laws_def ref_qt_def ref_hex_roundtrip ucast_up_down comp_def)
  moreover have "number_laws ref_qt"
    by (auto simp: number_laws_def ref_qt_def ref_hostBytes_def dest: digits_inj)
  ultimately show ?thesis by (simp add: qt_laws_def)
qed

lemma ref_base64_laws: "base64_laws ref_qt"
  by (simp add: base64_laws_def ref_qt_def ref_hex_roundtrip)

section \<open>The OpenSSL record\<close>

definition ref_mask :: "bytes \<Rightarrow> bytes" where
  "ref_mask d = map (\<lambda>b. b XOR 90) d"

definition ref_gtag :: "bytes \<Rightarrow> bytes \<Rightarrow> bytes \<Rightarrow> bytes \<Rightarrow> bytes" where
  "ref_gtag k iv a c = sum_list (k @ iv @ a @ c) # replicate 15 0"

definition ref_gcm :: gcm where
  "ref_gcm = \<lparr>ctr = (\<lambda>k iv d. ref_mask d), gtag = ref_gtag\<rparr>"

definition ref_valid :: "bytes \<Rightarrow> bytes \<Rightarrow> bytes \<Rightarrow> bool" where
  "ref_valid pk msg sig \<longleftrightarrow> sig = pk @ sum_list msg # replicate 31 0"

text \<open>A scalar that is never zero, the product with it, and the agreement: the zero key is refused.\<close>

definition ref_clamp :: "bytes \<Rightarrow> bytes" where
  "ref_clamp k = (if k = replicate 32 0 then replicate 32 1 else k)"

definition ref_dh :: "bytes \<Rightarrow> bytes \<Rightarrow> bytes" where
  "ref_dh priv pub = map2 (XOR) (ref_clamp priv) pub"

definition ref_agree :: "bytes \<Rightarrow> bytes \<Rightarrow> bytes option" where
  "ref_agree priv pub = (if pub = replicate 32 0 then None else Some (ref_dh priv pub))"

text \<open>The arguments of the first call of each kind in a history.\<close>

primrec hist_key :: "evp_call list \<Rightarrow> bytes \<times> bytes" where
  "hist_key [] = ([], [])"
| "hist_key (c # h) = (case c of EVP_EncryptInit_key k iv \<Rightarrow> (k, iv)
     | EVP_DecryptInit_key k iv \<Rightarrow> (k, iv) | _ \<Rightarrow> hist_key h)"

primrec hist_aad :: "evp_call list \<Rightarrow> bytes" where
  "hist_aad [] = []"
| "hist_aad (c # h) = (case c of EVP_EncryptUpdate_aad a \<Rightarrow> a
     | EVP_DecryptUpdate_aad a \<Rightarrow> a | _ \<Rightarrow> hist_aad h)"

primrec hist_data :: "evp_call list \<Rightarrow> bytes" where
  "hist_data [] = []"
| "hist_data (c # h) = (case c of EVP_EncryptUpdate p \<Rightarrow> ref_mask p
     | EVP_DecryptUpdate d \<Rightarrow> d | _ \<Rightarrow> hist_data h)"

primrec hist_tag :: "evp_call list \<Rightarrow> bytes" where
  "hist_tag [] = []"
| "hist_tag (c # h) = (case c of EVP_CTRL_GCM_SET_TAG t \<Rightarrow> t | _ \<Rightarrow> hist_tag h)"

primrec hist_pk :: "evp_call list \<Rightarrow> bytes" where
  "hist_pk [] = []"
| "hist_pk (c # h) = (case c of EVP_DigestVerifyInit pk \<Rightarrow> pk
     | EVP_PKEY_new_raw_private_key _ k \<Rightarrow> k | _ \<Rightarrow> hist_pk h)"

primrec hist_peer :: "evp_call list \<Rightarrow> bytes" where
  "hist_peer [] = []"
| "hist_peer (c # h) = (case c of EVP_PKEY_derive_set_peer k \<Rightarrow> k | _ \<Rightarrow> hist_peer h)"

definition hist_gtag :: "evp_call list \<Rightarrow> bytes" where
  "hist_gtag h = ref_gtag (fst (hist_key h)) (snd (hist_key h)) (hist_aad h) (hist_data h)"

definition ref_evp :: "evp_call list \<Rightarrow> bytes option" where
  "ref_evp h = (case last h of
      EVP_EncryptUpdate p \<Rightarrow> Some (ref_mask p)
    | EVP_DecryptUpdate c \<Rightarrow> Some (ref_mask c)
    | EVP_DecryptFinal \<Rightarrow> (if hist_gtag h = hist_tag h then Some [] else None)
    | EVP_DigestVerify sig msg \<Rightarrow> (if ref_valid (hist_pk h) msg sig then Some [] else None)
    | _ \<Rightarrow> Some [])"

definition ref_evp_raw :: "evp_call list \<Rightarrow> (nat \<Rightarrow> byte) option" where
  "ref_evp_raw h = (case last h of
      EVP_CTRL_GCM_GET_TAG \<Rightarrow> Some (\<lambda>i. hist_gtag h ! i)
    | EVP_PKEY_derive \<Rightarrow> map_option (\<lambda>secret i. secret ! i) (ref_agree (hist_pk h) (hist_peer h))
    | _ \<Rightarrow> Some of_nat)"

definition ref_ssl :: openssl where
  "ref_ssl = \<lparr>evp = ref_evp, evp_raw = ref_evp_raw, past_end = (\<lambda>_. [])\<rparr>"

lemma ref_mask_involution [simp]: "ref_mask (ref_mask d) = d"
  by (simp add: ref_mask_def comp_def xor.assoc)

lemma length_ref_mask [simp]: "length (ref_mask d) = length d"
  by (simp add: ref_mask_def)

lemma length_ref_gtag [simp]: "length (ref_gtag k iv a c) = 16"
  by (simp add: ref_gtag_def)

lemma ref_prefix_succeeds:
  assumes "h = enc_hist k iv a \<or> h = dec_hist k iv a"
  shows "ref_evp (take (Suc n) h) \<noteq> None"
proof -
  have "n = 0 \<or> n = 1 \<or> n = 2 \<or> 3 \<le> n" by arith
  then show ?thesis
    using assms by (auto simp: enc_hist_def dec_hist_def ref_evp_def)
qed

lemma ref_gcm_enc_laws: "gcm_enc_laws ref_ssl ref_gcm"
  unfolding gcm_enc_laws_def
proof (intro allI impI conjI)
  fix k iv a p :: bytes and n :: nat
  show "evp ref_ssl (take (Suc n) (enc_hist k iv a)) \<noteq> None"
    using ref_prefix_succeeds [of "enc_hist k iv a" k iv a n] by (simp add: ref_ssl_def)
  show "evp ref_ssl (enc_hist k iv a @ [EVP_EncryptUpdate p]) = Some (ctr ref_gcm k iv p)"
    by (simp add: ref_ssl_def ref_evp_def ref_gcm_def)
  have "readBuf 16 (\<lambda>i. ref_gtag k iv a (ref_mask p) ! i) = ref_gtag k iv a (ref_mask p)"
    by (rule readBuf_nth) simp_all
  then show "let h = enc_hist k iv a @ (if p = [] then [] else [EVP_EncryptUpdate p]) @ [EVP_EncryptFinal]
      in evp ref_ssl h = Some [] \<and>
         (\<exists>f. evp_raw ref_ssl (h @ [EVP_CTRL_GCM_GET_TAG]) = Some f \<and>
              readBuf 16 f = gtag ref_gcm k iv a (ctr ref_gcm k iv p))"
    by (auto simp: ref_ssl_def ref_evp_def ref_evp_raw_def ref_gcm_def hist_gtag_def enc_hist_def
        Let_def ref_mask_def)
qed

lemma ref_gcm_dec_laws: "gcm_dec_laws ref_ssl ref_gcm"
  unfolding gcm_dec_laws_def
proof (intro allI impI conjI)
  fix k iv a c t :: bytes and n :: nat
  show "evp ref_ssl (take (Suc n) (dec_hist k iv a)) \<noteq> None"
    using ref_prefix_succeeds [of "dec_hist k iv a" k iv a n] by (simp add: ref_ssl_def)
  show "evp ref_ssl (dec_hist k iv a @ [EVP_DecryptUpdate c]) = Some (ctr ref_gcm k iv c)"
    by (simp add: ref_ssl_def ref_evp_def ref_gcm_def)
  show "let h = dec_hist k iv a @ (if c = [] then [] else [EVP_DecryptUpdate c]) @ [EVP_CTRL_GCM_SET_TAG t]
      in evp ref_ssl h \<noteq> None \<and>
         evp ref_ssl (h @ [EVP_DecryptFinal]) = (if gtag ref_gcm k iv a c = t then Some [] else None)"
    by (auto simp: ref_ssl_def ref_evp_def ref_gcm_def hist_gtag_def dec_hist_def Let_def)
qed

lemma ref_gcm_laws: "gcm_laws ref_ssl ref_gcm"
  using ref_gcm_enc_laws ref_gcm_dec_laws
  by (simp add: gcm_laws_def) (simp add: ref_gcm_def)

lemma ref_ed25519_laws: "ed25519_laws ref_ssl ref_valid"
  by (simp add: ed25519_laws_def ref_ssl_def ref_evp_def)

lemma length_ref_dh [simp]: "length priv = 32 \<Longrightarrow> length pub = 32 \<Longrightarrow> length (ref_dh priv pub) = 32"
  by (simp add: ref_dh_def ref_clamp_def)

lemma ref_x25519_laws: "x25519_laws ref_ssl ref_agree"
  unfolding x25519_laws_def Let_def
proof (intro allI impI)
  fix priv pub :: bytes
  assume len: "length priv = 32" "length pub = 32"
  let ?h = "[EVP_PKEY_new_raw_private_key EVP_PKEY_X25519 priv, EVP_PKEY_CTX_new,
      EVP_PKEY_derive_init, EVP_PKEY_derive_set_peer pub]"
  have "evp ref_ssl (take (Suc n) ?h) \<noteq> None" for n
  proof -
    have "n = 0 \<or> n = 1 \<or> n = 2 \<or> 3 \<le> n" by arith
    then show ?thesis by (auto simp: ref_ssl_def ref_evp_def)
  qed
  moreover have "evp ref_ssl [EVP_PKEY_new_raw_public_key EVP_PKEY_X25519 pub] \<noteq> None"
    by (simp add: ref_ssl_def ref_evp_def)
  moreover have "readBuf 32 (\<lambda>i. ref_dh priv pub ! i) = ref_dh priv pub"
    by (rule readBuf_nth) (use len in simp_all)
  moreover have "evp_raw ref_ssl (?h @ [EVP_PKEY_derive]) = map_option (\<lambda>secret i. secret ! i) (ref_agree priv pub)"
    by (simp add: ref_ssl_def ref_evp_raw_def)
  ultimately show "case ref_agree priv pub of None \<Rightarrow> evp_raw ref_ssl (?h @ [EVP_PKEY_derive]) = None
     | Some secret \<Rightarrow> (\<forall>n < 4. evp ref_ssl (take (Suc n) ?h) \<noteq> None) \<and>
         evp ref_ssl [EVP_PKEY_new_raw_public_key EVP_PKEY_X25519 pub] \<noteq> None \<and>
         (\<exists>f. evp_raw ref_ssl (?h @ [EVP_PKEY_derive]) = Some f \<and> readBuf 32 f = secret)"
    by (cases "ref_agree priv pub") (auto simp: ref_agree_def split: if_splits)
qed

end
