(* ===== verification/Crypto.thy ===== *)
theory Crypto
  imports Contracts Reference
begin

text \<open>
  \<open>src/core/crypto.cpp\<close> and \<open>src/core/crypto.hpp\<close> but for the replay guard: X25519 key
  generation and agreement, AES-256-GCM, Ed25519 verification, timestamp freshness.

  A function with a \<open>QString *error\<close> argument returns its result and the message it
  stored there, \<open>None\<close> where it stored none. The sequences of EVP calls are written with
  the option monad: the code guards each call by the success of all before it.
\<close>

section \<open>Data\<close>

record X25519KeyPair =
  privateKey :: bytes
  publicKey :: bytes

record GcmCiphertext =
  ciphertext :: bytes
  tag :: bytes

definition noKeyPair :: X25519KeyPair where
  "noKeyPair = \<lparr>privateKey = [], publicKey = []\<rparr>"

definition noCiphertext :: GcmCiphertext where
  "noCiphertext = \<lparr>ciphertext = [], tag = []\<rparr>"

section \<open>X25519\<close>

definition generateX25519KeyPair :: "openssl \<Rightarrow> X25519KeyPair \<times> qstring option" where
  "generateX25519KeyPair L =
     (case do { (h, _) \<leftarrow> evp_step L [] (EVP_PKEY_CTX_new_id EVP_PKEY_X25519);
                evp_step L h EVP_PKEY_keygen_init } of
        None \<Rightarrow> (noKeyPair, Some (qs ''X25519 key generation initialization failed''))
      | Some (context, _) \<Rightarrow>
          (case evp_step L context EVP_PKEY_keygen of
             None \<Rightarrow> (noKeyPair, Some (qs ''X25519 key generation failed''))
           | Some (key, _) \<Rightarrow>
               (case do { priv \<leftarrow> evp_raw L (key @ [EVP_PKEY_get_raw_private_key]);
                          pub \<leftarrow> evp_raw L (key @ [EVP_PKEY_get_raw_private_key, EVP_PKEY_get_raw_public_key]);
                          Some \<lparr>privateKey = readBuf 32 priv, publicKey = readBuf 32 pub\<rparr> } of
                  None \<Rightarrow> (noKeyPair, Some (qs ''X25519 key export failed''))
                | Some pair \<Rightarrow> (pair, None))))"

definition x25519SharedSecret :: "openssl \<Rightarrow> bytes \<Rightarrow> bytes \<Rightarrow> bytes \<times> qstring option" where
  "x25519SharedSecret L priv peerPublicKey =
     (if length priv \<noteq> 32 \<or> length peerPublicKey \<noteq> 32
      then ([], Some (qs ''X25519 keys must be 32 bytes''))
      else
        let local = evp_step L [] (EVP_PKEY_new_raw_private_key EVP_PKEY_X25519 priv);
            peer = evp_step L [] (EVP_PKEY_new_raw_public_key EVP_PKEY_X25519 peerPublicKey);
            context = do { (h, _) \<leftarrow> local; evp_step L h EVP_PKEY_CTX_new }
        in case do { (h, _) \<leftarrow> context;
                     _ \<leftarrow> peer;
                     (h, _) \<leftarrow> evp_step L h EVP_PKEY_derive_init;
                     (h, _) \<leftarrow> evp_step L h (EVP_PKEY_derive_set_peer peerPublicKey);
                     secret \<leftarrow> evp_raw L (h @ [EVP_PKEY_derive]);
                     Some (readBuf 32 secret) } of
             None \<Rightarrow> ([], Some (qs ''X25519 shared secret derivation failed''))
           | Some secret \<Rightarrow> (secret, None))"

section \<open>AES-256-GCM\<close>

text \<open>
  Neither direction sets the IV length, so OpenSSL reads its default of 12 bytes from the
  nonce's data pointer whatever the length of the nonce: fewer of a longer one, and past
  the end of a shorter one.
\<close>

definition iv_read :: "openssl \<Rightarrow> bytes \<Rightarrow> bytes" where
  "iv_read L nonce = take 12 (nonce @ 0 # past_end L nonce)"

definition encryptAes256Gcm ::
  "openssl \<Rightarrow> bytes \<Rightarrow> bytes \<Rightarrow> bytes \<Rightarrow> bytes \<Rightarrow> GcmCiphertext \<times> qstring option" where
  "encryptAes256Gcm L key nonce plaintext associatedData =
     (if length key \<noteq> 32 \<or> nonce = []
      then (noCiphertext, Some (qs ''AES-256-GCM requires a 32-byte key and nonce''))
      else case do { (h, _) \<leftarrow> evp_step L [] EVP_CIPHER_CTX_new;
                     (h, _) \<leftarrow> evp_step L h EVP_EncryptInit_cipher;
                     (h, _) \<leftarrow> evp_step L h (EVP_EncryptInit_key key (iv_read L nonce));
                     (h, _) \<leftarrow> (if associatedData \<noteq> []
                               then evp_step L h (EVP_EncryptUpdate_aad associatedData)
                               else Some (h, []));
                     (h, body) \<leftarrow> (if plaintext \<noteq> []
                                  then evp_step L h (EVP_EncryptUpdate plaintext)
                                  else Some (h, []));
                     (h, rest) \<leftarrow> evp_step L h EVP_EncryptFinal;
                     t \<leftarrow> evp_raw L (h @ [EVP_CTRL_GCM_GET_TAG]);
                     Some \<lparr>ciphertext = body @ rest, tag = readBuf 16 t\<rparr> } of
             None \<Rightarrow> (noCiphertext, Some (qs ''AES-256-GCM encryption failed''))
           | Some c \<Rightarrow> (c, None))"

definition decryptAes256Gcm ::
  "openssl \<Rightarrow> bytes \<Rightarrow> bytes \<Rightarrow> GcmCiphertext \<Rightarrow> bytes \<Rightarrow> bytes \<times> qstring option" where
  "decryptAes256Gcm L key nonce ct associatedData =
     (if length key \<noteq> 32 \<or> nonce = [] \<or> length (tag ct) \<noteq> 16
      then ([], Some (qs ''invalid AES-256-GCM input''))
      else case do { (h, _) \<leftarrow> evp_step L [] EVP_CIPHER_CTX_new;
                     (h, _) \<leftarrow> evp_step L h EVP_DecryptInit_cipher;
                     (h, _) \<leftarrow> evp_step L h (EVP_DecryptInit_key key (iv_read L nonce));
                     (h, _) \<leftarrow> (if associatedData \<noteq> []
                               then evp_step L h (EVP_DecryptUpdate_aad associatedData)
                               else Some (h, []));
                     (h, body) \<leftarrow> (if ciphertext ct \<noteq> []
                                  then evp_step L h (EVP_DecryptUpdate (ciphertext ct))
                                  else Some (h, []));
                     (h, _) \<leftarrow> evp_step L h (EVP_CTRL_GCM_SET_TAG (tag ct));
                     (h, rest) \<leftarrow> evp_step L h EVP_DecryptFinal;
                     Some (body @ rest) } of
             None \<Rightarrow> ([], Some (qs ''AES-256-GCM authentication failed''))
           | Some plain \<Rightarrow> (plain, None))"

section \<open>Ed25519\<close>

definition verifyEd25519 :: "openssl \<Rightarrow> bytes \<Rightarrow> bytes \<Rightarrow> bytes \<Rightarrow> bool \<times> qstring option" where
  "verifyEd25519 L pk message signature =
     (if length pk \<noteq> 32 \<or> length signature \<noteq> 64
      then (False, Some (qs ''invalid Ed25519 key or signature length''))
      else
        let key = evp_step L [] (EVP_PKEY_new_raw_public_key EVP_PKEY_ED25519 pk);
            context = evp_step L [] EVP_MD_CTX_new;
            ok = (case do { _ \<leftarrow> key;
                            (h, _) \<leftarrow> context;
                            (h, _) \<leftarrow> evp_step L h (EVP_DigestVerifyInit pk);
                            evp_step L h (EVP_DigestVerify signature message) } of
                    None \<Rightarrow> False | Some _ \<Rightarrow> True)
        in (ok, if ok then None else Some (qs ''signature verification failed'')))"

section \<open>Freshness\<close>

text \<open>
  \<open>qAbs\<close> and the subtraction are 64-bit operations. Signed overflow is undefined in C++;
  the model takes the two's-complement result, which the wrap-around theorems below are
  about, and \<open>fresh_in_range\<close> shows that plausible timestamps never meet it.
\<close>

definition qAbs :: "qint64 \<Rightarrow> qint64" where
  "qAbs t = (if 0 \<le> sint t then t else - t)"

definition isFreshTimestamp :: "qint64 \<Rightarrow> qint64 \<Rightarrow> bool" where
  "isFreshTimestamp timestamp now \<longleftrightarrow> sint (qAbs (timestamp - now)) \<le> 30"

section \<open>Freshness: what the check decides\<close>

text \<open>C38: \<open>isFreshTimestamp\<close> accepts exactly the timestamps within 30 seconds of the clock,
  measured by the wrapped 64-bit difference, and one more: the timestamp \<open>2^63\<close> away from the
  clock, whose difference is the least 64-bit integer and is its own absolute value.\<close>

theorem isFreshTimestamp_iff:
  "isFreshTimestamp timestamp now \<longleftrightarrow>
     \<bar>sint (timestamp - now)\<bar> \<le> 30 \<or> timestamp = now + 2 ^ 63"
proof (cases "sint (timestamp - now) = - (2 ^ 63)")
  case True
  then have eq: "timestamp - now = 2 ^ 63" by (simp only: sint_min_eq)
  then have "timestamp = now + 2 ^ 63" by (simp add: algebra_simps)
  with eq show ?thesis by (simp add: isFreshTimestamp_def qAbs_def)
next
  case False
  then have "timestamp \<noteq> now + 2 ^ 63" by (auto simp: sint_min_eq)
  then show ?thesis
    using sint_uminus [OF False] by (auto simp: isFreshTimestamp_def qAbs_def simp del: minus_diff_eq)
qed

text \<open>For a timestamp and a clock within \<open>2^62\<close> of zero, far beyond any date, no operation of the
  check wraps and it is the comparison of the documentation.\<close>

lemma fresh_in_range:
  assumes "\<bar>sint timestamp\<bar> < 2 ^ 62" and "\<bar>sint now\<bar> < 2 ^ 62"
  shows "isFreshTimestamp timestamp now \<longleftrightarrow> \<bar>sint timestamp - sint now\<bar> \<le> 30"
proof -
  have d: "sint (timestamp - now) = sint timestamp - sint now"
    using assms by (intro sint_minus) (simp_all add: abs_less_iff)
  then have "timestamp \<noteq> now + 2 ^ 63"
    using assms sint_min_eq [of "timestamp - now"] by auto
  with d show ?thesis
    unfolding isFreshTimestamp_def qAbs_def using sint_uminus [of "timestamp - now"] assms
    by (auto simp del: minus_diff_eq)
qed

section \<open>Key agreement and signature verification\<close>

lemma length_x25519SharedSecret:
  "length (fst (x25519SharedSecret L priv pub)) = 32 \<or>
   fst (x25519SharedSecret L priv pub) = [] \<and> snd (x25519SharedSecret L priv pub) \<noteq> None"
  by (simp add: x25519SharedSecret_def Let_def split: option.split bind_splits prod.split)

lemma x25519SharedSecret_32:
  "length (fst (x25519SharedSecret L priv pub)) = 32 \<longleftrightarrow> snd (x25519SharedSecret L priv pub) = None"
  by (simp add: x25519SharedSecret_def Let_def split: option.split bind_splits prod.split)

lemma generateX25519KeyPair_sizes:
  "let (pair, err) = generateX25519KeyPair L in
     (if err = None then length (privateKey pair) = 32 \<and> length (publicKey pair) = 32
      else pair = noKeyPair)"
  by (simp add: generateX25519KeyPair_def split: option.split bind_splits prod.split)

section \<open>AES-256-GCM: the EVP call sequences compute the cipher\<close>

lemma iv_read_long: "12 \<le> length nonce \<Longrightarrow> iv_read L nonce = take 12 nonce"
  by (simp add: iv_read_def)

lemma gcm_ctr:
  assumes "gcm_laws L G"
  shows "ctr G k iv (ctr G k iv d) = d" and "length (ctr G k iv d) = length d"
    and "length (gtag G k iv a c) = 16"
  using assms by (simp_all add: gcm_laws_def)

lemma gcm_ctr_Nil [simp]: "gcm_laws L G \<Longrightarrow> ctr G k iv [] = []"
  using gcm_ctr(2) [of L G k iv "[]"] by simp

lemma gcm_enc_calls:
  assumes "gcm_laws L G" and "length k = 32" and "length iv = 12"
  shows "evp L [EVP_CIPHER_CTX_new] \<noteq> None"
    and "evp L [EVP_CIPHER_CTX_new, EVP_EncryptInit_cipher] \<noteq> None"
    and "evp L [EVP_CIPHER_CTX_new, EVP_EncryptInit_cipher, EVP_EncryptInit_key k iv] \<noteq> None"
    and "evp L (enc_hist k iv a) \<noteq> None"
proof -
  have "\<forall>n < 4. evp L (take (Suc n) (enc_hist k iv a)) \<noteq> None"
    using assms by (simp add: gcm_laws_def gcm_enc_laws_def)
  then have call: "evp L (take (Suc n) (enc_hist k iv a)) \<noteq> None" if "n < 4" for n
    using that by blast
  show "evp L [EVP_CIPHER_CTX_new] \<noteq> None"
    using call [of 0] by (simp add: enc_hist_def)
  show "evp L [EVP_CIPHER_CTX_new, EVP_EncryptInit_cipher] \<noteq> None"
    using call [of 1] by (simp add: enc_hist_def)
  show "evp L [EVP_CIPHER_CTX_new, EVP_EncryptInit_cipher, EVP_EncryptInit_key k iv] \<noteq> None"
    using call [of 2] by (simp add: enc_hist_def)
  show "evp L (enc_hist k iv a) \<noteq> None"
    using call [of 3] by (simp add: enc_hist_def split: if_splits)
qed

lemma gcm_dec_calls:
  assumes "gcm_laws L G" and "length k = 32" and "length iv = 12"
  shows "evp L [EVP_CIPHER_CTX_new] \<noteq> None"
    and "evp L [EVP_CIPHER_CTX_new, EVP_DecryptInit_cipher] \<noteq> None"
    and "evp L [EVP_CIPHER_CTX_new, EVP_DecryptInit_cipher, EVP_DecryptInit_key k iv] \<noteq> None"
    and "evp L (dec_hist k iv a) \<noteq> None"
proof -
  have "\<forall>n < 4. evp L (take (Suc n) (dec_hist k iv a)) \<noteq> None"
    using assms length_replicate [of 16 "0 :: byte"]
    unfolding gcm_laws_def gcm_dec_laws_def by blast
  then have call: "evp L (take (Suc n) (dec_hist k iv a)) \<noteq> None" if "n < 4" for n
    using that by blast
  show "evp L [EVP_CIPHER_CTX_new] \<noteq> None"
    using call [of 0] by (simp add: dec_hist_def)
  show "evp L [EVP_CIPHER_CTX_new, EVP_DecryptInit_cipher] \<noteq> None"
    using call [of 1] by (simp add: dec_hist_def)
  show "evp L [EVP_CIPHER_CTX_new, EVP_DecryptInit_cipher, EVP_DecryptInit_key k iv] \<noteq> None"
    using call [of 2] by (simp add: dec_hist_def)
  show "evp L (dec_hist k iv a) \<noteq> None"
    using call [of 3] by (simp add: dec_hist_def split: if_splits)
qed

lemma encryptAes256Gcm_eq:
  assumes laws: "gcm_laws L G" and k: "length k = 32" and n: "12 \<le> length nonce"
  shows "encryptAes256Gcm L k nonce p a =
    (let iv = take 12 nonce; c = ctr G k iv p in (\<lparr>ciphertext = c, tag = gtag G k iv a c\<rparr>, None))"
proof -
  let ?iv = "take 12 nonce"
  have iv: "length ?iv = 12" and ne: "nonce \<noteq> []" using n by auto
  have update: "p \<noteq> [] \<Longrightarrow>
      evp L (enc_hist k ?iv a @ [EVP_EncryptUpdate p]) = Some (ctr G k ?iv p)"
    using laws k iv by (simp add: gcm_laws_def gcm_enc_laws_def)
  have "let h = enc_hist k ?iv a @ (if p = [] then [] else [EVP_EncryptUpdate p]) @
          [EVP_EncryptFinal]
        in evp L h = Some [] \<and> (\<exists>f. evp_raw L (h @ [EVP_CTRL_GCM_GET_TAG]) = Some f \<and>
             readBuf 16 f = gtag G k ?iv a (ctr G k ?iv p))"
    using laws k iv unfolding gcm_laws_def gcm_enc_laws_def by blast
  then obtain f where final:
      "evp L (enc_hist k ?iv a @ (if p = [] then [] else [EVP_EncryptUpdate p]) @
         [EVP_EncryptFinal]) = Some []"
      "evp_raw L (enc_hist k ?iv a @ (if p = [] then [] else [EVP_EncryptUpdate p]) @
         [EVP_EncryptFinal, EVP_CTRL_GCM_GET_TAG]) = Some f"
      "readBuf 16 f = gtag G k ?iv a (ctr G k ?iv p)"
    by (auto simp: Let_def)
  show ?thesis
    using gcm_enc_calls(1-3) [OF laws k iv] gcm_enc_calls(4) [OF laws k iv, of a] update final
    by (cases "a = []"; cases "p = []")
       (auto simp: encryptAes256Gcm_def iv_read_long [OF n] k ne evp_step_def enc_hist_def
          Let_def gcm_ctr_Nil [OF laws])
qed

lemma decryptAes256Gcm_eq:
  assumes laws: "gcm_laws L G" and k: "length k = 32" and n: "12 \<le> length nonce"
    and t: "length (tag ct) = 16"
  shows "decryptAes256Gcm L k nonce ct a =
    (let iv = take 12 nonce; c = ciphertext ct in
     if gtag G k iv a c = tag ct then (ctr G k iv c, None)
     else ([], Some (qs ''AES-256-GCM authentication failed'')))"
proof -
  let ?iv = "take 12 nonce" and ?c = "ciphertext ct"
  have iv: "length ?iv = 12" and ne: "nonce \<noteq> []" using n by auto
  have update: "?c \<noteq> [] \<Longrightarrow>
      evp L (dec_hist k ?iv a @ [EVP_DecryptUpdate ?c]) = Some (ctr G k ?iv ?c)"
    using laws k iv t unfolding gcm_laws_def gcm_dec_laws_def by blast
  have final:
      "evp L (dec_hist k ?iv a @ (if ?c = [] then [] else [EVP_DecryptUpdate ?c]) @
         [EVP_CTRL_GCM_SET_TAG (tag ct)]) \<noteq> None"
      "evp L (dec_hist k ?iv a @ (if ?c = [] then [] else [EVP_DecryptUpdate ?c]) @
         [EVP_CTRL_GCM_SET_TAG (tag ct), EVP_DecryptFinal]) =
       (if gtag G k ?iv a ?c = tag ct then Some [] else None)"
    using laws k iv t by (auto simp: gcm_laws_def gcm_dec_laws_def Let_def)
  show ?thesis
    using gcm_dec_calls(1-3) [OF laws k iv] gcm_dec_calls(4) [OF laws k iv, of a] update final
    by (cases "a = []"; cases "?c = []"; cases "gtag G k ?iv a ?c = tag ct")
       (auto simp: decryptAes256Gcm_def iv_read_long [OF n] k t ne evp_step_def dec_hist_def
          Let_def gcm_ctr_Nil [OF laws])
qed

section \<open>The cipher as an authenticated channel\<close>

text \<open>What a caller sees of a decryption: the plaintext where no message was stored.\<close>

definition opens :: "openssl \<Rightarrow> bytes \<Rightarrow> bytes \<Rightarrow> bytes \<Rightarrow> GcmCiphertext \<Rightarrow> bytes option" where
  "opens L key nonce a ct =
     (case decryptAes256Gcm L key nonce ct a of (plain, None) \<Rightarrow> Some plain | (_, Some _) \<Rightarrow> None)"

definition seals :: "openssl \<Rightarrow> bytes \<Rightarrow> bytes \<Rightarrow> bytes \<Rightarrow> bytes \<Rightarrow> GcmCiphertext" where
  "seals L key nonce a p = fst (encryptAes256Gcm L key nonce p a)"

definition gcm_ready :: "openssl \<Rightarrow> gcm \<Rightarrow> bytes \<Rightarrow> bytes \<Rightarrow> bool" where
  "gcm_ready L G key nonce \<longleftrightarrow> gcm_laws L G \<and> length key = 32 \<and> 12 \<le> length nonce"

lemma seals_eq:
  "gcm_ready L G key nonce \<Longrightarrow> seals L key nonce a p =
     (let iv = take 12 nonce; c = ctr G key iv p in \<lparr>ciphertext = c, tag = gtag G key iv a c\<rparr>)"
  by (simp add: gcm_ready_def seals_def encryptAes256Gcm_eq [of L G] Let_def)

lemma opens_eq:
  assumes "gcm_ready L G key nonce"
  shows "opens L key nonce a ct =
     (let iv = take 12 nonce; c = ciphertext ct in
      if gtag G key iv a c = tag ct then Some (ctr G key iv c) else None)"
proof (cases "length (tag ct) = 16")
  case True
  with assms show ?thesis by (simp add: gcm_ready_def opens_def decryptAes256Gcm_eq [of L G] Let_def)
next
  case False
  moreover have "gtag G key (take 12 nonce) a (ciphertext ct) \<noteq> tag ct"
    using False assms gcm_ctr(3) unfolding gcm_ready_def by metis
  ultimately show ?thesis by (simp add: opens_def decryptAes256Gcm_def Let_def)
qed

interpretation aead: sealed_channel "seals L key nonce a" "opens L key nonce a"
    "gcm_ready L G key nonce" "\<lambda>_. True" for L G key nonce a
proof
  fix p assume r: "gcm_ready L G key nonce" and "True"
  then have "gcm_laws L G" by (simp add: gcm_ready_def)
  with r show "opens L key nonce a (seals L key nonce a p) = Some p"
    by (simp add: opens_eq seals_eq Let_def gcm_ctr)
next
  fix c p assume r: "gcm_ready L G key nonce" and "opens L key nonce a c = Some p"
  moreover have "gcm_laws L G" using r by (simp add: gcm_ready_def)
  ultimately show "seals L key nonce a p = c"
    by (auto simp: opens_eq seals_eq Let_def gcm_ctr split: if_splits)
qed

lemma opens_Some_iff:
  "opens L key nonce a ct = Some p \<longleftrightarrow> decryptAes256Gcm L key nonce ct a = (p, None)"
  by (auto simp: opens_def split: prod.splits option.splits)

lemma x25519SharedSecret_eq:
  assumes "x25519_laws L dh"
  shows "x25519SharedSecret L priv pub =
     (if length priv = 32 \<and> length pub = 32
      then (case dh priv pub of Some secret \<Rightarrow> (secret, None)
            | None \<Rightarrow> ([], Some (qs ''X25519 shared secret derivation failed'')))
      else ([], Some (qs ''X25519 keys must be 32 bytes'')))"
proof (cases "length priv = 32 \<and> length pub = 32")
  case True
  let ?h = "[EVP_PKEY_new_raw_private_key EVP_PKEY_X25519 priv, EVP_PKEY_CTX_new,
             EVP_PKEY_derive_init, EVP_PKEY_derive_set_peer pub]"
  have law: "case dh priv pub of None \<Rightarrow> evp_raw L (?h @ [EVP_PKEY_derive]) = None
     | Some secret \<Rightarrow> (\<forall>n < 4. evp L (take (Suc n) ?h) \<noteq> None) \<and>
         evp L [EVP_PKEY_new_raw_public_key EVP_PKEY_X25519 pub] \<noteq> None \<and>
         (\<exists>f. evp_raw L (?h @ [EVP_PKEY_derive]) = Some f \<and> readBuf 32 f = secret)"
    using assms True unfolding x25519_laws_def Let_def by blast
  show ?thesis
  proof (cases "dh priv pub")
    case None
    with law True show ?thesis
      by (auto simp: x25519SharedSecret_def evp_step_def Let_def split: option.splits bind_splits)
  next
    case (Some secret)
    with law have calls: "\<forall>n < 4. evp L (take (Suc n) ?h) \<noteq> None"
      and rest: "evp L [EVP_PKEY_new_raw_public_key EVP_PKEY_X25519 pub] \<noteq> None"
        "\<exists>f. evp_raw L (?h @ [EVP_PKEY_derive]) = Some f \<and> readBuf 32 f = secret"
      by (simp_all only: option.case) blast+
    have "evp L (take (Suc 0) ?h) \<noteq> None" "evp L (take (Suc 1) ?h) \<noteq> None"
        "evp L (take (Suc 2) ?h) \<noteq> None" "evp L (take (Suc 3) ?h) \<noteq> None"
      by (rule calls [rule_format], simp)+
    with rest True Some show ?thesis by (auto simp: x25519SharedSecret_def evp_step_def Let_def)
  qed
qed (auto simp: x25519SharedSecret_def)

lemma verifyEd25519_eq:
  assumes "ed25519_laws L valid"
  shows "verifyEd25519 L pk message signature =
    (if length pk = 32 \<and> length signature = 64
     then if valid pk message signature then (True, None)
          else (False, Some (qs ''signature verification failed''))
     else (False, Some (qs ''invalid Ed25519 key or signature length'')))"
proof -
  have laws: "evp L [EVP_MD_CTX_new] \<noteq> None"
    "length pk = 32 \<Longrightarrow> evp L [EVP_PKEY_new_raw_public_key EVP_PKEY_ED25519 pk] \<noteq> None"
    "length pk = 32 \<Longrightarrow> evp L [EVP_MD_CTX_new, EVP_DigestVerifyInit pk] \<noteq> None"
    "length pk = 32 \<Longrightarrow> (evp L [EVP_MD_CTX_new, EVP_DigestVerifyInit pk,
        EVP_DigestVerify signature message] \<noteq> None) = valid pk message signature"
    using assms by (simp_all add: ed25519_laws_def)
  then show ?thesis
    by (auto simp: verifyEd25519_def evp_step_def Let_def split: option.splits)
qed

section \<open>Properties\<close>

text \<open>On a 32-byte key and a nonce of at least 12 bytes the chain of EVP calls in
  \<open>encryptAes256Gcm\<close>, with its skipped updates for empty data and its accumulated output
  length, computes AES-256-GCM: the key stream applied to the plaintext, the 16-byte tag of
  the associated data and the ciphertext, and no error message.\<close>

theorem encrypt_computes_gcm:
  assumes "gcm_laws L G" and "length key = 32" and "12 \<le> length nonce"
  shows "encryptAes256Gcm L key nonce plaintext aad =
    (\<lparr>ciphertext = ctr G key (take 12 nonce) plaintext,
      tag = gtag G key (take 12 nonce) aad (ctr G key (take 12 nonce) plaintext)\<rparr>, None)"
  using encryptAes256Gcm_eq [OF assms] by (simp add: Let_def)

theorem encrypt_computes_gcm_witness:
  "encryptAes256Gcm ref_ssl (replicate 32 1) (replicate 12 2) [1, 2] [3] =
    (\<lparr>ciphertext = ref_mask [1, 2],
      tag = ref_gtag (replicate 32 1) (replicate 12 2) [3] (ref_mask [1, 2])\<rparr>, None)"
  using encrypt_computes_gcm [OF ref_gcm_laws, of "replicate 32 1" "replicate 12 2" "[1, 2]" "[3]"]
  by (simp add: ref_gcm_def)

text \<open>C34: decryption and encryption are inverse and decryption is authentic: for a 32-byte key
  and a nonce of at least 12 bytes, \<open>decryptAes256Gcm\<close> returns a plaintext without an error
  exactly on the ciphertext and tag that \<open>encryptAes256Gcm\<close> returns for that plaintext, key,
  nonce and associated data.\<close>

theorem decrypt_iff_encrypt:
  assumes "gcm_laws L G" and "length key = 32" and "12 \<le> length nonce"
  shows "decryptAes256Gcm L key nonce ct aad = (plaintext, None) \<longleftrightarrow>
         encryptAes256Gcm L key nonce plaintext aad = (ct, None)"
proof -
  have ready: "gcm_ready L G key nonce" using assms by (simp add: gcm_ready_def)
  have "encryptAes256Gcm L key nonce plaintext aad = (seals L key nonce aad plaintext, None)"
    using encryptAes256Gcm_eq [OF assms] by (simp add: seals_def Let_def)
  with aead.unseal_iff [OF ready] show ?thesis
    by (auto simp: opens_Some_iff [symmetric])
qed

theorem decrypt_iff_encrypt_witness:
  "decryptAes256Gcm ref_ssl (replicate 32 1) (replicate 12 2)
     (fst (encryptAes256Gcm ref_ssl (replicate 32 1) (replicate 12 2) [7, 8] [9])) [9] = ([7, 8], None)"
  by (subst decrypt_iff_encrypt [OF ref_gcm_laws])
     (simp_all add: encryptAes256Gcm_eq [OF ref_gcm_laws] Let_def)

text \<open>The only check on a nonce is that it is not empty, and both directions read 12 bytes
  from its address: a longer nonce is cut to its first 12 bytes, a nonce of fewer than 12 bytes is
  completed with its terminating zero and the memory behind the array.\<close>

theorem nonce_read_is_12_bytes:
  assumes "nonce \<noteq> []" and "11 \<le> length nonce + length (past_end L nonce)"
  shows "decryptAes256Gcm L key nonce ct aad = decryptAes256Gcm L key (iv_read L nonce) ct aad \<and>
    encryptAes256Gcm L key nonce p aad = encryptAes256Gcm L key (iv_read L nonce) p aad \<and>
    iv_read L nonce = (if 12 \<le> length nonce then take 12 nonce
      else nonce @ 0 # take (11 - length nonce) (past_end L nonce))"
proof (intro conjI)
  have len: "length (iv_read L nonce) = 12" using assms(2) by (simp add: iv_read_def)
  then have twice: "iv_read L (iv_read L nonce) = iv_read L nonce" and ne: "iv_read L nonce \<noteq> []"
    by (auto simp: iv_read_long)
  show "decryptAes256Gcm L key nonce ct aad = decryptAes256Gcm L key (iv_read L nonce) ct aad"
    using assms(1) by (simp add: decryptAes256Gcm_def twice ne)
  show "encryptAes256Gcm L key nonce p aad = encryptAes256Gcm L key (iv_read L nonce) p aad"
    using assms(1) by (simp add: encryptAes256Gcm_def twice ne)
  have "take (12 - length nonce) (0 # past_end L nonce) = 0 # take (11 - length nonce) (past_end L nonce)"
    if "length nonce < 12"
    using that by (simp add: take_Cons' )
  then show "iv_read L nonce = (if 12 \<le> length nonce then take 12 nonce
      else nonce @ 0 # take (11 - length nonce) (past_end L nonce))"
    by (auto simp: iv_read_def)
qed

definition paddedMemory :: openssl where
  "paddedMemory = ref_ssl\<lparr>past_end := (\<lambda>_. replicate 16 7)\<rparr>"

theorem nonce_read_is_12_bytes_witness:
  "iv_read paddedMemory [1] = [1, 0, 7, 7, 7, 7, 7, 7, 7, 7, 7, 7]"
  using nonce_read_is_12_bytes [where nonce = "[1]" and L = paddedMemory]
  by (simp add: paddedMemory_def eval_nat_numeral)

text \<open>\<open>verifyEd25519\<close> accepts exactly a 64-byte signature valid under a 32-byte key, and
  stores no message then; otherwise the message tells a wrong length from a wrong signature.\<close>

theorem verifyEd25519_iff:
  assumes "ed25519_laws L valid"
  shows "verifyEd25519 L pk message signature =
    (if length pk \<noteq> 32 \<or> length signature \<noteq> 64
     then (False, Some (qs ''invalid Ed25519 key or signature length''))
     else if valid pk message signature then (True, None)
     else (False, Some (qs ''signature verification failed'')))"
  using verifyEd25519_eq [OF assms] by simp

theorem verifyEd25519_iff_witness:
  "verifyEd25519 ref_ssl (replicate 32 1) [5] (replicate 32 1 @ 5 # replicate 31 0) = (True, None)"
  by (subst verifyEd25519_iff [OF ref_ed25519_laws]) (simp add: ref_valid_def)

end
