(* ===== verification/Replay.thy ===== *)
theory Replay
  imports Crypto
begin

text \<open>
  \<open>class ReplayGuard\<close> of \<open>src/core/crypto.hpp\<close> and its method \<open>accept\<close> in
  \<open>src/core/crypto.cpp\<close>: the set of tokens seen since the last cleanup. The specification
  it is compared with, \<open>idealAccept\<close>, remembers every token for ever.

  \<open>accept\<close> locks a mutex for its critical section; the model runs a call as one step. The
  clock is read twice, once for the freshness check (the default argument of
  \<open>isFreshTimestamp\<close>) and once for the cleanup.
\<close>

section \<open>The guard\<close>

record ReplayGuard =
  seen :: "bytes set"
  lastCleanup :: qint64

definition newReplayGuard :: ReplayGuard where
  "newReplayGuard = \<lparr>seen = {}, lastCleanup = 0\<rparr>"

definition replayToken :: "qt \<Rightarrow> bytes \<Rightarrow> qint64 \<Rightarrow> bytes" where
  "replayToken Q nonce timestamp = nonce @ numberDec Q timestamp"

definition accept ::
  "qt \<Rightarrow> bytes \<Rightarrow> qint64 \<Rightarrow> ReplayGuard \<Rightarrow> env \<Rightarrow> bool \<times> ReplayGuard \<times> env" where
  "accept Q nonce timestamp g e =
     (if nonce = [] then (False, g, e)
      else let (checked, e) = currentSecs e in
      if \<not> isFreshTimestamp timestamp checked then (False, g, e)
      else let (now, e) = currentSecs e;
               g = (if sint (now - lastCleanup g) > 60
                    then g\<lparr>seen := {}, lastCleanup := now\<rparr> else g);
               token = replayToken Q nonce timestamp
           in if token \<in> seen g then (False, g, e)
              else (True, g\<lparr>seen := insert token (seen g)\<rparr>, e))"

section \<open>The specification\<close>

definition idealAccept ::
  "qt \<Rightarrow> bytes \<Rightarrow> qint64 \<Rightarrow> bytes set \<Rightarrow> env \<Rightarrow> bool \<times> bytes set \<times> env" where
  "idealAccept Q nonce timestamp used e =
     (if nonce = [] then (False, used, e)
      else let (checked, e) = currentSecs e in
      if \<not> isFreshTimestamp timestamp checked then (False, used, e)
      else let (_, e) = currentSecs e; token = replayToken Q nonce timestamp
           in (token \<notin> used, insert token used, e))"

text \<open>
  A run of calls. Each entry also says how often other code reads the clock before the call.
\<close>

definition skipTicks :: "nat \<Rightarrow> env \<Rightarrow> env" where
  "skipTicks k e = e\<lparr>ticks := ticks e + k\<rparr>"

fun guardRun :: "qt \<Rightarrow> (nat \<times> bytes \<times> qint64) list \<Rightarrow> ReplayGuard \<Rightarrow> env \<Rightarrow>
    bool list \<times> ReplayGuard \<times> env" where
  "guardRun Q [] g e = ([], g, e)"
| "guardRun Q ((k, nonce, timestamp) # calls) g e =
     (let (b, g, e) = accept Q nonce timestamp g (skipTicks k e);
          (bs, g, e) = guardRun Q calls g e
      in (b # bs, g, e))"

fun idealRun :: "qt \<Rightarrow> (nat \<times> bytes \<times> qint64) list \<Rightarrow> bytes set \<Rightarrow> env \<Rightarrow>
    bool list \<times> bytes set \<times> env" where
  "idealRun Q [] used e = ([], used, e)"
| "idealRun Q ((k, nonce, timestamp) # calls) used e =
     (let (b, used, e) = idealAccept Q nonce timestamp used (skipTicks k e);
          (bs, used, e) = idealRun Q calls used e
      in (b # bs, used, e))"

section \<open>One call\<close>

text \<open>
  The whole call as one equation over the two clock readings. Everything below reasons with
  it and not with the sequence of lets.
\<close>

lemma accept_eq:
  "accept Q nonce timestamp g e =
     (let now0 = clock e (ticks e); now = clock e (Suc (ticks e));
          token = replayToken Q nonce timestamp;
          expired = (sint (now - lastCleanup g) > 60);
          old = (if expired then {} else seen g);
          g' = \<lparr>seen = insert token old,
                lastCleanup = (if expired then now else lastCleanup g)\<rparr>
      in if nonce = [] then (False, g, e)
         else if \<not> isFreshTimestamp timestamp now0 then (False, g, e\<lparr>ticks := Suc (ticks e)\<rparr>)
         else (token \<notin> old, g', e\<lparr>ticks := ticks e + 2\<rparr>))"
  by (cases g) (auto simp: accept_def currentSecs_def Let_def insert_absorb)

lemma idealAccept_eq:
  "idealAccept Q nonce timestamp used e =
     (let now0 = clock e (ticks e); token = replayToken Q nonce timestamp
      in if nonce = [] then (False, used, e)
         else if \<not> isFreshTimestamp timestamp now0 then (False, used, e\<lparr>ticks := Suc (ticks e)\<rparr>)
         else (token \<notin> used, insert token used, e\<lparr>ticks := ticks e + 2\<rparr>))"
  by (auto simp: idealAccept_def currentSecs_def Let_def)

lemma accept_env [env_simps]:
  "clock (snd (snd (accept Q n t g e))) = clock e"
  "rand (snd (snd (accept Q n t g e))) = rand e"
  "draws (snd (snd (accept Q n t g e))) = draws e"
  "ticks e \<le> ticks (snd (snd (accept Q n t g e)))"
  by (simp_all add: accept_eq Let_def)

lemma skipTicks_env [env_simps]:
  "clock (skipTicks k e) = clock e" "ticks (skipTicks k e) = ticks e + k"
  by (simp_all add: skipTicks_def)

lemma accept_verdict:
  "fst (accept Q n t g e) \<longleftrightarrow> n \<noteq> [] \<and> isFreshTimestamp t (clock e (ticks e)) \<and>
     (replayToken Q n t \<in> seen g \<longrightarrow> sint (clock e (Suc (ticks e)) - lastCleanup g) > 60)"
  by (auto simp: accept_eq Let_def)

lemma accept_records: "fst (accept Q n t g e) \<Longrightarrow> replayToken Q n t \<in> seen (fst (snd (accept Q n t g e)))"
  by (auto simp: accept_eq Let_def)

section \<open>Runs against the specification\<close>

lemma runs_env:
  "clock (snd (snd (guardRun Q calls g e))) = clock e \<and>
    ticks e \<le> ticks (snd (snd (guardRun Q calls g e)))"
proof (induction Q calls g e rule: guardRun.induct)
  case (2 Q k n t calls g e)
  obtain b g1 e1 where a: "accept Q n t g (skipTicks k e) = (b, g1, e1)" by (cases "accept Q n t g (skipTicks k e)")
  have "clock e1 = clock e" "ticks e + k \<le> ticks e1"
    using accept_env(1,4) [where Q = Q and n = n and t = t and g = g and e = "skipTicks k e"] by (simp_all add: a env_simps)
  with 2 [OF a [symmetric] refl refl] show ?case
    by (auto simp: a split: prod.split)
qed simp

lemma ideal_lockstep:
  assumes "seen g \<subseteq> used"
  shows "seen (fst (snd (accept Q n t g e))) \<subseteq> fst (snd (idealAccept Q n t used e))"
    and "snd (snd (accept Q n t g e)) = snd (snd (idealAccept Q n t used e))"
    and "fst (idealAccept Q n t used e) \<Longrightarrow> fst (accept Q n t g e)"
  using assms by (auto simp: accept_eq idealAccept_eq Let_def split: if_splits)

lemma idealRun_le_guardRun:
  "seen g \<subseteq> used \<Longrightarrow> list_all2 (\<longrightarrow>) (fst (idealRun Q calls used e)) (fst (guardRun Q calls g e))"
proof (induction Q calls g e arbitrary: used rule: guardRun.induct)
  case (2 Q k n t calls g e)
  obtain b g1 e1 where a: "accept Q n t g (skipTicks k e) = (b, g1, e1)" by (cases "accept Q n t g (skipTicks k e)")
  obtain c u1 where i: "idealAccept Q n t used (skipTicks k e) = (c, u1, e1)" and s: "seen g1 \<subseteq> u1" and "c \<longrightarrow> b"
    using ideal_lockstep [OF 2(2), where Q = Q and n = n and t = t and e = "skipTicks k e"] a
    by (cases "idealAccept Q n t used (skipTicks k e)") auto
  with 2(1) [OF a [symmetric] refl refl s] show ?case
    by (auto simp: a i split: prod.split)
qed simp

lemma guardRun_eq_idealRun:
  "\<forall>i. ticks e \<le> i \<and> i < ticks (snd (snd (guardRun Q calls g e))) \<longrightarrow> sint (clock e i - lastCleanup g) \<le> 60
   \<Longrightarrow> fst (guardRun Q calls g e) = fst (idealRun Q calls (seen g) e)"
proof (induction Q calls g e rule: guardRun.induct)
  case (2 Q k n t calls g e)
  obtain b g1 e1 where a: "accept Q n t g (skipTicks k e) = (b, g1, e1)" by (cases "accept Q n t g (skipTicks k e)")
  have env: "clock e1 = clock e" "ticks e + k \<le> ticks e1"
    using accept_env(1,4) [where Q = Q and n = n and t = t and g = g and e = "skipTicks k e"] by (simp_all add: a env_simps)
  have fin: "ticks e1 \<le> ticks (snd (snd (guardRun Q calls g1 e1)))" using runs_env by blast
  have h: "sint (clock e i - lastCleanup g) \<le> 60"
    if "ticks e \<le> i" "i < ticks (snd (snd (guardRun Q calls g1 e1)))" for i
    using 2(2) that by (auto simp: a split: prod.splits)
  have i: "idealAccept Q n t (seen g) (skipTicks k e) = (b, seen g1, e1)" and l: "lastCleanup g1 = lastCleanup g"
    using a h [of "Suc (ticks e + k)"] fin
    by (auto simp: accept_eq idealAccept_eq Let_def env_simps split: if_splits)
  have "fst (guardRun Q calls g1 e1) = fst (idealRun Q calls (seen g1) e1)"
    by (rule 2(1) [OF a [symmetric] refl refl]) (use h env l in auto)
  then show ?case by (auto simp: a i split: prod.split)
qed simp

lemma idealRun_distinct:
  "distinct (map (\<lambda>((k, n, t), b). replayToken Q n t) (filter snd (zip calls (fst (idealRun Q calls used e))))) \<and>
   (\<forall>c \<in> set (zip calls (fst (idealRun Q calls used e))). snd c \<longrightarrow> replayToken Q (fst (snd (fst c))) (snd (snd (fst c))) \<notin> used)"
proof (induction Q calls used e rule: idealRun.induct)
  case (2 Q k n t calls used e)
  obtain b u1 e1 where a: "idealAccept Q n t used (skipTicks k e) = (b, u1, e1)" by (cases "idealAccept Q n t used (skipTicks k e)")
  have u: "used \<subseteq> u1" "b \<longrightarrow> replayToken Q n t \<in> u1 \<and> replayToken Q n t \<notin> used"
    using a by (auto simp: idealAccept_eq Let_def split: if_splits)
  from 2 [OF a [symmetric] refl refl] u show ?case
    by (fastforce simp: a split: prod.splits)
qed simp

section \<open>How often one request can pass\<close>

text \<open>
  \<open>stage j\<close> is what holds of a nonce and timestamp accepted \<open>j\<close> times, \<open>first\<close> being the
  clock at the first acceptance: each further acceptance needs a cleanup in between, and a
  cleanup moves \<open>lastCleanup\<close> by more than 60 seconds.
\<close>

definition stage :: "nat \<Rightarrow> bytes \<Rightarrow> qint64 \<Rightarrow> ReplayGuard \<Rightarrow> bool" where
  "stage j token timestamp g \<longleftrightarrow> j = 0 \<or>
     (\<exists>first. sint timestamp \<le> first + 30 \<and>
        (token \<in> seen g \<and> first + 61 * int j \<le> sint (lastCleanup g) + 121 \<or>
         first + 61 * int j \<le> sint (lastCleanup g) + 60))"

definition guard_ok :: "ReplayGuard \<Rightarrow> env \<Rightarrow> bool" where
  "guard_ok g e \<longleftrightarrow> 0 \<le> sint (lastCleanup g) \<and> sint (lastCleanup g) \<le> sint (clock e (ticks e))"

definition acceptances :: "bytes \<Rightarrow> qint64 \<Rightarrow> (nat \<times> bytes \<times> qint64) list \<Rightarrow> bool list \<Rightarrow> nat" where
  "acceptances nonce timestamp calls verdicts =
     length (filter (\<lambda>((k, n, t), b). b \<and> n = nonce \<and> t = timestamp) (zip calls verdicts))"

lemma sane_clock_range:
  assumes "sane_clock e"
  shows "0 \<le> sint (clock e i)" "sint (clock e i) < 2 ^ 61"
    "i \<le> j \<Longrightarrow> sint (clock e i) \<le> sint (clock e j)"
  using assms by (simp_all add: sane_clock_def)

lemma expired_iff:
  assumes "sane_clock e" and "guard_ok g e" and "ticks e \<le> i"
  shows "sint (clock e i - lastCleanup g) = sint (clock e i) - sint (lastCleanup g)"
    and "sint (lastCleanup g) \<le> sint (clock e i)"
proof -
  show "sint (lastCleanup g) \<le> sint (clock e i)"
    using assms sane_clock_range(3) [OF assms(1,3)] by (simp add: guard_ok_def)
  then show "sint (clock e i - lastCleanup g) = sint (clock e i) - sint (lastCleanup g)"
    using assms(2) sane_clock_range(1,2) [OF assms(1), of i]
    by (intro sint_minus) (simp_all add: guard_ok_def)
qed

lemma guard_ok_skip: "sane_clock e \<Longrightarrow> guard_ok g e \<Longrightarrow> guard_ok g (skipTicks k e)"
  using sane_clock_range(3) [of e "ticks e" "ticks e + k"]
  by (simp add: guard_ok_def env_simps)

text \<open>One call, with the expiry test as an inequality between seconds.\<close>

lemma accept_cases:
  assumes "sane_clock e" and "guard_ok g e" and "accept Q n t g e = (b, g1, e1)"
  obtains (unchanged) "g1 = g" "\<not> b" | (checked) old where
    "seen g1 = insert (replayToken Q n t) old" "b \<longrightarrow> replayToken Q n t \<notin> old"
    "isFreshTimestamp t (clock e (ticks e))"
    "old = {} \<and> sint (lastCleanup g) + 61 \<le> sint (lastCleanup g1) \<and>
       lastCleanup g1 = clock e (Suc (ticks e)) \<or>
     old = seen g \<and> sint (clock e (Suc (ticks e))) \<le> sint (lastCleanup g) + 60 \<and>
       lastCleanup g1 = lastCleanup g"
  using assms(3) expired_iff [OF assms(1,2), of "Suc (ticks e)"]
  by (auto simp: accept_eq Let_def split: if_splits)

lemma stage_first:
  assumes "seen g1 = insert token old" and "sint timestamp \<le> now + 30"
    and "now \<le> sint (lastCleanup g1) + 60"
  shows "stage (Suc 0) token timestamp g1"
proof -
  have "token \<in> seen g1 \<and> now + 61 * int (Suc 0) \<le> sint (lastCleanup g1) + 121"
    using assms(1,3) by simp
  with assms(2) show ?thesis unfolding stage_def by blast
qed

lemma stage_again:
  assumes "stage j token timestamp g" and "j \<noteq> 0" and "seen g1 = insert token old" and "token \<notin> old"
    and "old = {} \<and> sint (lastCleanup g) + 61 \<le> sint (lastCleanup g1) \<or>
         old = seen g \<and> lastCleanup g1 = lastCleanup g"
  shows "stage (Suc j) token timestamp g1"
proof -
  obtain first where first: "sint timestamp \<le> first + 30"
      "token \<in> seen g \<and> first + 61 * int j \<le> sint (lastCleanup g) + 121 \<or>
       first + 61 * int j \<le> sint (lastCleanup g) + 60"
    using assms(1,2) by (auto simp: stage_def)
  have "token \<in> seen g1 \<and> first + 61 * int (Suc j) \<le> sint (lastCleanup g1) + 121"
    using assms(5)
  proof (elim disjE conjE)
    assume "sint (lastCleanup g) + 61 \<le> sint (lastCleanup g1)"
    with first(2) assms(3) show ?thesis by simp linarith
  next
    assume "old = seen g" "lastCleanup g1 = lastCleanup g"
    with first(2) assms(3,4) show ?thesis by simp
  qed
  with first(1) show ?thesis unfolding stage_def by blast
qed

lemma stage_other:
  assumes "stage j token timestamp g" and "seen g1 = insert token' old"
    and "old = {} \<and> sint (lastCleanup g) + 61 \<le> sint (lastCleanup g1) \<or>
         old = seen g \<and> lastCleanup g1 = lastCleanup g"
  shows "stage j token timestamp g1"
proof (cases "j = 0")
  case False
  then obtain first where first: "sint timestamp \<le> first + 30"
      "token \<in> seen g \<and> first + 61 * int j \<le> sint (lastCleanup g) + 121 \<or>
       first + 61 * int j \<le> sint (lastCleanup g) + 60"
    using assms(1) by (auto simp: stage_def)
  have "token \<in> seen g1 \<and> first + 61 * int j \<le> sint (lastCleanup g1) + 121 \<or>
      first + 61 * int j \<le> sint (lastCleanup g1) + 60"
    using assms(3)
  proof (elim disjE conjE)
    assume "sint (lastCleanup g) + 61 \<le> sint (lastCleanup g1)"
    with first(2) show ?thesis by linarith
  next
    assume "old = seen g" "lastCleanup g1 = lastCleanup g"
    with first(2) assms(2) show ?thesis by (elim disjE) simp_all
  qed
  with first(1) show ?thesis unfolding stage_def by blast
qed (simp add: stage_def)

lemma fresh_after_three:
  assumes "stage j token timestamp g" and "3 \<le> j" and "sint (lastCleanup g) \<le> now"
  shows "\<not> \<bar>sint timestamp - now\<bar> \<le> 30"
  using assms by (auto simp: stage_def)

lemma accept_guard_ok:
  assumes "sane_clock e" and "guard_ok g e" and "accept Q n t g e = (b, g1, e1)"
  shows "guard_ok g1 e1"
  using assms(2,3) sane_clock_range(1) [OF assms(1)] sane_clock_range(3) [OF assms(1), of "ticks e"]
    sane_clock_range(3) [OF assms(1), of "Suc (ticks e)"]
  by (auto simp: accept_eq guard_ok_def Let_def intro: order_trans split: if_splits)

text \<open>A call moves the pair one stage on when it accepts it, and never beyond the third.\<close>

lemma accept_stage:
  assumes sane: "sane_clock e" and ok: "guard_ok g e"
    and st: "stage j (replayToken Q nonce timestamp) timestamp g"
    and range: "\<bar>sint timestamp\<bar> < 2 ^ 62" and a: "accept Q n t g e = (b, g1, e1)"
  shows "guard_ok g1 e1"
    and "stage (if b \<and> n = nonce \<and> t = timestamp then Suc j else j)
           (replayToken Q nonce timestamp) timestamp g1"
    and "3 \<le> j \<Longrightarrow> \<not> (b \<and> n = nonce \<and> t = timestamp)"
proof -
  let ?now = "sint (clock e (ticks e))"
  have c: "?now \<le> sint (clock e (Suc (ticks e)))" "sint (lastCleanup g) \<le> ?now"
    using sane_clock_range(3) [OF sane] ok by (simp_all add: guard_ok_def)
  show "guard_ok g1 e1" by (rule accept_guard_ok [OF sane ok a])
  have fresh: "isFreshTimestamp timestamp (clock e (ticks e)) \<longleftrightarrow> \<bar>sint timestamp - ?now\<bar> \<le> 30"
    using range sane_clock_range(1,2) [OF sane, of "ticks e"] by (intro fresh_in_range) simp_all
  show "stage (if b \<and> n = nonce \<and> t = timestamp then Suc j else j)
      (replayToken Q nonce timestamp) timestamp g1"
    using sane ok a
  proof (cases rule: accept_cases)
    case unchanged
    with st show ?thesis by simp
  next
    case (checked old)
    show ?thesis
    proof (cases "b \<and> n = nonce \<and> t = timestamp")
      case hit: True
      have bounds: "sint timestamp \<le> ?now + 30" "?now \<le> sint (lastCleanup g1) + 60"
        using checked(3,4) hit fresh c by auto
      have expiry: "old = {} \<and> sint (lastCleanup g) + 61 \<le> sint (lastCleanup g1) \<or>
          old = seen g \<and> lastCleanup g1 = lastCleanup g"
        using checked(4) by auto
      have "stage (Suc j) (replayToken Q nonce timestamp) timestamp g1"
        using stage_first [OF _ bounds] stage_again [OF st _ _ _ expiry] checked(1,2) hit
        by (cases "j = 0") auto
      with hit show ?thesis by simp
    next
      case False
      have "stage j (replayToken Q nonce timestamp) timestamp g1"
        by (rule stage_other [OF st checked(1)]) (use checked(4) in auto)
      with False show ?thesis by (simp only: if_False)
    qed
  qed
  show "3 \<le> j \<Longrightarrow> \<not> (b \<and> n = nonce \<and> t = timestamp)"
    using fresh_after_three [OF st _ c(2)] fresh a by (auto simp: accept_eq Let_def split: if_splits)
qed

lemma acceptances_bound:
  assumes "sane_clock e" and "guard_ok g e" and "stage j (replayToken Q nonce timestamp) timestamp g"
    and "\<bar>sint timestamp\<bar> < 2 ^ 62" and "j \<le> 3"
  shows "j + acceptances nonce timestamp calls (fst (guardRun Q calls g e)) \<le> 3"
  using assms
proof (induction Q calls g e arbitrary: j rule: guardRun.induct)
  case (1 Q g e)
  then show ?case by (simp add: acceptances_def)
next
  case (2 Q k n t calls g e)
  obtain b g1 e1 where a: "accept Q n t g (skipTicks k e) = (b, g1, e1)"
    by (cases "accept Q n t g (skipTicks k e)")
  have sane: "sane_clock (skipTicks k e)"
    using 2(2) by (simp add: sane_clock_def env_simps)
  note st = accept_stage [OF sane guard_ok_skip [OF 2(2,3)] 2(4,5) a]
  have "sane_clock e1"
    using sane accept_env(1) [where Q = Q and n = n and t = t and g = g and e = "skipTicks k e"]
    by (simp add: a sane_clock_def)
  moreover have "(if b \<and> n = nonce \<and> t = timestamp then Suc j else j) \<le> 3"
    using st(3) 2(6) by (cases "j = 3") auto
  ultimately show ?case using 2(1) [OF a [symmetric] refl refl _ st(1,2) 2(5)]
    by (auto simp: acceptances_def a split: prod.splits if_splits)
qed

text \<open>What a run without a token leaves of it: it is forgotten with the first cleanup.\<close>

lemma accept_forgets:
  assumes "sane_clock e" and "guard_ok g e" and "accept Q n t g e = (b, g1, e1)" and "token \<noteq> replayToken Q n t"
  shows "sint (lastCleanup g) \<le> sint (lastCleanup g1) \<and>
    (token \<in> seen g1 \<longleftrightarrow> token \<in> seen g \<and> lastCleanup g1 = lastCleanup g)"
  using assms(1-3)
proof (cases rule: accept_cases)
  case (checked old)
  have "token \<in> seen g1 \<longleftrightarrow> token \<in> old" using checked(1) assms(4) by simp
  moreover have "lastCleanup g1 \<noteq> lastCleanup g" if "sint (lastCleanup g) + 61 \<le> sint (lastCleanup g1)"
    using that by (intro notI) simp
  ultimately show ?thesis using checked(4) by (elim disjE conjE) simp_all
qed simp

lemma run_forgets:
  assumes "sane_clock e" and "guard_ok g e" and "token \<notin> (\<lambda>(k, n, t). replayToken Q n t) ` set calls"
    and "guardRun Q calls g e = (bs, g2, e2)"
  shows "guard_ok g2 e2 \<and> sint (lastCleanup g) \<le> sint (lastCleanup g2) \<and>
    (token \<in> seen g2 \<longleftrightarrow> token \<in> seen g \<and> lastCleanup g2 = lastCleanup g)"
  using assms
proof (induction Q calls g e arbitrary: bs rule: guardRun.induct)
  case (2 Q k n t calls g e)
  obtain b g1 e1 where a: "accept Q n t g (skipTicks k e) = (b, g1, e1)"
    by (cases "accept Q n t g (skipTicks k e)")
  obtain cs where r: "guardRun Q calls g1 e1 = (cs, g2, e2)" using 2(5) by (auto simp: a split: prod.splits)
  have sane: "sane_clock (skipTicks k e)" using 2(2) by (simp add: sane_clock_def env_simps)
  note ok = guard_ok_skip [OF 2(2,3), of k]
  have "sane_clock e1"
    using sane accept_env(1) [where Q = Q and n = n and t = t and g = g and e = "skipTicks k e"]
    by (simp add: a sane_clock_def)
  from 2(1) [OF a [symmetric] refl refl this accept_guard_ok [OF sane ok a] _ r] 2(4)
  have rest: "guard_ok g2 e2 \<and> sint (lastCleanup g1) \<le> sint (lastCleanup g2) \<and>
      (token \<in> seen g2 \<longleftrightarrow> token \<in> seen g1 \<and> lastCleanup g2 = lastCleanup g1)" by simp
  have "sint (lastCleanup g) \<le> sint (lastCleanup g1) \<and>
      (token \<in> seen g1 \<longleftrightarrow> token \<in> seen g \<and> lastCleanup g1 = lastCleanup g)"
    by (rule accept_forgets [OF sane ok a]) (use 2(4) in simp)
  moreover have "lastCleanup g1 = lastCleanup g" if "lastCleanup g2 = lastCleanup g"
  proof (rule signed_word_eqI)
    show "sint (lastCleanup g1) = sint (lastCleanup g)" using rest calculation that by simp
  qed
  ultimately show ?case using rest by auto
qed simp

lemma idealRun_grows: "used \<subseteq> fst (snd (idealRun Q calls used e))"
proof (induction Q calls used e rule: idealRun.induct)
  case (2 Q k n t calls used e)
  obtain b u1 e1 where a: "idealAccept Q n t used (skipTicks k e) = (b, u1, e1)" by (cases "idealAccept Q n t used (skipTicks k e)")
  then have "used \<subseteq> u1" by (auto simp: idealAccept_eq Let_def split: if_splits)
  with 2 [OF a [symmetric] refl refl] show ?case by (auto simp: a split: prod.splits)
qed simp

section \<open>Properties\<close>

text \<open>C39: as long as no clock reading of a run lies more than 60 seconds after the last cleanup,
  the guard gives the verdicts of the specification that never forgets a token.\<close>

theorem guard_refines_ideal:
  assumes "\<forall>i. ticks e \<le> i \<and> i < ticks (snd (snd (guardRun Q calls g e))) \<longrightarrow>
             sint (clock e i - lastCleanup g) \<le> 60"
  shows "fst (guardRun Q calls g e) = fst (idealRun Q calls (seen g) e)"
  using assms by (rule guardRun_eq_idealRun)

definition replayClock :: "nat \<Rightarrow> qint64" where
  "replayClock i = (if i < 2 then 1000 else if i < 4 then 1060 else 1061)"

definition replayEnv :: env where
  "replayEnv = \<lparr>clock = replayClock, ticks = 0, rand = (\<lambda>_. 0), draws = 0\<rparr>"

definition replayCalls :: "(nat \<times> bytes \<times> qint64) list" where
  "replayCalls = [(0, [1], 1000), (0, [2], 1060), (0, [2], 1060)]"

definition quietEnv :: env where
  "quietEnv = \<lparr>clock = (\<lambda>_. 1000), ticks = 0, rand = (\<lambda>_. 0), draws = 0\<rparr>"

theorem guard_refines_ideal_witness:
  "fst (guardRun ref_qt [(0, [2], 1000), (1, [2], 1000)] \<lparr>seen = {}, lastCleanup = 990\<rparr> quietEnv)
     = [True, False]"
  by (subst guard_refines_ideal)
     (simp_all add: quietEnv_def idealAccept_eq skipTicks_def isFreshTimestamp_def qAbs_def)

text \<open>In a run without a cleanup no token is accepted twice, and none that was seen before.\<close>

theorem no_replay_between_cleanups:
  assumes "\<forall>i. ticks e \<le> i \<and> i < ticks (snd (snd (guardRun Q calls g e))) \<longrightarrow>
             sint (clock e i - lastCleanup g) \<le> 60"
  shows "distinct (map (\<lambda>((k, n, t), b). replayToken Q n t)
           (filter snd (zip calls (fst (guardRun Q calls g e)))))"
  using idealRun_distinct [of Q calls "seen g" e] guardRun_eq_idealRun [OF assms] by simp

theorem no_replay_between_cleanups_witness:
  "distinct (map (\<lambda>((k, n, t), b). replayToken ref_qt n t) (filter snd
     (zip [(0 :: nat, [2], 1000), (1, [2], 1000)]
        (fst (guardRun ref_qt [(0, [2], 1000), (1, [2], 1000)] \<lparr>seen = {}, lastCleanup = 990\<rparr> quietEnv)))))"
  by (rule no_replay_between_cleanups) (simp add: quietEnv_def env_simps)

text \<open>The guard never refuses what the specification accepts: a fresh request whose token
  was not used before passes, whatever was cleaned up in between.\<close>

theorem guard_never_stricter:
  assumes "seen g \<subseteq> used"
  shows "list_all2 (\<longrightarrow>) (fst (idealRun Q calls used e)) (fst (guardRun Q calls g e))"
  using assms by (rule idealRun_le_guardRun)

theorem guard_never_stricter_witness:
  "list_all2 (\<longrightarrow>) (fst (idealRun ref_qt replayCalls {} replayEnv))
     (fst (guardRun ref_qt replayCalls newReplayGuard replayEnv))"
  by (rule guard_never_stricter) (simp add: newReplayGuard_def)

text \<open>Under a clock that never runs backwards, and for timestamps within \<open>2^62\<close> of zero, one
  nonce and timestamp passes at most three times in any run from a new guard, however long the
  run, whatever other requests and clock readings it contains.\<close>

theorem at_most_three_acceptances:
  assumes "sane_clock e" and "\<bar>sint timestamp\<bar> < 2 ^ 62"
  shows "acceptances nonce timestamp calls (fst (guardRun Q calls newReplayGuard e)) \<le> 3"
proof -
  have "guard_ok newReplayGuard e"
    using sane_clock_range(1) [OF assms(1)] by (simp add: guard_ok_def newReplayGuard_def)
  moreover have "stage 0 (replayToken Q nonce timestamp) timestamp newReplayGuard"
    by (simp add: stage_def)
  ultimately show ?thesis
    using acceptances_bound [OF assms(1) _ _ assms(2), of newReplayGuard 0 Q nonce calls] by simp
qed



theorem at_most_three_acceptances_witness:
  "acceptances [2] 1060 replayCalls (fst (guardRun ref_qt replayCalls newReplayGuard replayEnv)) \<le> 3"
  by (rule at_most_three_acceptances)
     (simp_all add: sane_clock_def replayEnv_def replayClock_def)

end
