(* ===== verification/Envelope.thy ===== *)
theory Envelope
  imports Replay
begin

text \<open>
  The state of \<open>class Server\<close> (\<open>src/core/server.hpp\<close>) and the parts of
  \<open>src/core/server.cpp\<close> that a request handler is built from: error responses,
  big-endian timestamps, random nonces, \<open>encryptedResponse\<close> and \<open>decryptRequest\<close>.

  A signal emission or a write to a socket appends an event to \<open>outbox\<close>. A
  \<open>QTcpSocket *\<close> is a number, a \<open>QHash\<close> a partial map.
\<close>

unbundle bit_operations_syntax

section \<open>The server object\<close>

type_synonym socket = nat

datatype event =
    LogMessage qstring
  | StatusChanged qstring
  | DeviceChanged qstring bool
  | SocketWrite socket bytes
  | SocketDisconnect socket
  | SocketDeleteLater socket
  | WriteDatagram bytes quint16

record server =
  listening :: bool
  udpBound :: bool
  discoveryTimer :: bool
  pairedKeys :: "qstring \<rightharpoonup> bytes"
  sessionKeys :: "qstring \<rightharpoonup> bytes"
  buffers :: "socket \<rightharpoonup> bytes"
  replayGuard :: ReplayGuard
  port :: quint16
  pcId :: bytes
  x25519KeyPair :: X25519KeyPair
  pairingCode :: qstring
  pairingCreatedAt :: qint64
  outbox :: "event list"

definition emit :: "event \<Rightarrow> server \<Rightarrow> server" where
  "emit ev s = s\<lparr>outbox := outbox s @ [ev]\<rparr>"

text \<open>\<open>QHash::value(key)\<close>: the default-constructed (empty) value for a missing key.\<close>

definition hashValue :: "('k \<rightharpoonup> 'v list) \<Rightarrow> 'k \<Rightarrow> 'v list" where
  "hashValue m k = (case m k of None \<Rightarrow> [] | Some v \<Rightarrow> v)"

text \<open>The text in a \<open>QString\<close> passed as error argument: empty when nothing was stored.\<close>

definition errorText :: "qstring option \<Rightarrow> qstring" where
  "errorText err = (case err of None \<Rightarrow> [] | Some m \<Rightarrow> m)"

section \<open>Building blocks of requests and responses\<close>

definition errorResponse :: "qstring \<Rightarrow> json_object" where
  "errorResponse message = [(qs ''type'', JString (qs ''error'')), (qs ''message'', JString message)]"

definition timestampBytes :: "qint64 \<Rightarrow> bytes" where
  "timestampBytes timestamp =
     map (\<lambda>shift. ucast (signed_drop_bit (shift * 8) timestamp AND 255)) [7, 6, 5, 4, 3, 2, 1, 0]"

text \<open>\<open>QString::fromLatin1(b.toHex())\<close> and \<open>QByteArray::fromHex(q.toLatin1())\<close>.\<close>

definition hexText :: "qt \<Rightarrow> bytes \<Rightarrow> qstring" where
  "hexText Q b = fromLatin1 Q (toHex Q b)"

definition unhexText :: "qt \<Rightarrow> qstring \<Rightarrow> bytes" where
  "unhexText Q q = fromHex Q (toLatin1 Q q)"

text \<open>
  The loop that fills a nonce of \<open>n\<close> bytes, eight at a time, the last copy cut to what is
  left. (For the 32-byte challenge the code copies eight bytes in every round.)
\<close>

fun fillRandom :: "qt \<Rightarrow> nat \<Rightarrow> env \<Rightarrow> bytes \<times> env" where
  "fillRandom Q n e =
     (if n = 0 then ([], e)
      else let (v, e) = generate64 e;
               (rest, e) = fillRandom Q (n - 8) e
           in (take (min 8 n) (hostBytes Q v) @ rest, e))"

declare fillRandom.simps [simp del]

section \<open>Envelopes\<close>

definition secureEnvelope :: "qt \<Rightarrow> qstring \<Rightarrow> bytes \<Rightarrow> GcmCiphertext \<Rightarrow> json_object" where
  "secureEnvelope Q deviceId nonce encrypted =
     [(qs ''type'', JString (qs ''secure'')),
      (qs ''device_id'', JString deviceId),
      (qs ''nonce'', JString (hexText Q nonce)),
      (qs ''ciphertext'', JString (hexText Q (ciphertext encrypted))),
      (qs ''tag'', JString (hexText Q (tag encrypted)))]"

definition encryptedResponse ::
  "qt \<Rightarrow> openssl \<Rightarrow> qstring \<Rightarrow> json_object \<Rightarrow> server \<Rightarrow> env \<Rightarrow> json_object \<times> env" where
  "encryptedResponse Q L deviceId payload s e =
     (let (nonce, e) = fillRandom Q 12 e;
          (encrypted, err) = encryptAes256Gcm L (hashValue (sessionKeys s) deviceId) nonce
             (toJson Q (JObject payload)) (toUtf8 Q deviceId)
      in if length (tag encrypted) \<noteq> 16 then (errorResponse (errorText err), e)
         else (secureEnvelope Q deviceId nonce encrypted, e))"

definition decryptRequest ::
  "qt \<Rightarrow> openssl \<Rightarrow> json_object \<Rightarrow> server \<Rightarrow> qstring + qstring \<times> json_object" where
  "decryptRequest Q L envelope s =
     (if toString (jvalue envelope ''type'') \<noteq> qs ''secure''
      then Inl (qs ''unencrypted requests are not accepted'')
      else let id = toString (jvalue envelope ''device_id'') in
      if sessionKeys s id = None then Inl (qs ''device is not paired'')
      else let nonce = unhexText Q (toString (jvalue envelope ''nonce''));
               encrypted = \<lparr>ciphertext = unhexText Q (toString (jvalue envelope ''ciphertext'')),
                            tag = unhexText Q (toString (jvalue envelope ''tag''))\<rparr>;
               (plaintext, localError) = decryptAes256Gcm L (hashValue (sessionKeys s) id) nonce
                  encrypted (toUtf8 Q id)
           in if plaintext = [] then Inl (errorText localError)
              else case fromJson Q plaintext of
                     Some (JObject ob) \<Rightarrow> Inr (id, ob)
                   | _ \<Rightarrow> Inl (qs ''decrypted payload is invalid''))"

section \<open>Big-endian timestamps\<close>

definition bigEndian :: "bytes \<Rightarrow> qint64" where
  "bigEndian ds = foldl (\<lambda>acc d. push_bit 8 acc OR ucast d) 0 ds"

text \<open>The arithmetic shift only differs from a logical one in bits the mask drops.\<close>

lemma timestampByte:
  "s \<le> 7 \<Longrightarrow> (ucast (signed_drop_bit (s * 8) t AND 255) :: byte) = ucast (drop_bit (8 * s) (t :: 64 word))"
proof (rule bit_word_eqI)
  fix n assume s: "s \<le> 7" and n: "n < LENGTH(8)"
  have m: "(255 :: 64 word) = mask 8" by (simp add: mask_eq_exp_minus_1)
  have "bit (255 :: 64 word) n" unfolding m bit_mask_iff using n by simp
  moreover have "\<not> 64 - s * 8 \<le> n" using s n by simp
  ultimately show "bit (ucast (signed_drop_bit (s * 8) t AND 255) :: byte) n =
      bit (ucast (drop_bit (8 * s) t) :: byte) n"
    using s n by (simp add: bit_simps bit_signed_drop_bit_iff mult.commute)
qed

lemma bigEndian_step:
  "push_bit 8 (drop_bit (8 * Suc s) t) OR ucast (ucast (drop_bit (8 * s) t) :: byte) =
   drop_bit (8 * s) (t :: 64 word)"
proof (rule bit_word_eqI)
  fix n assume "n < LENGTH(64)"
  then show "bit (push_bit 8 (drop_bit (8 * Suc s) t) OR ucast (ucast (drop_bit (8 * s) t) :: byte)) n =
      bit (drop_bit (8 * s) t) n"
    by (auto simp: bit_simps algebra_simps)
qed

lemma timestampBytes_eq:
  "timestampBytes t = map (\<lambda>s. ucast (drop_bit (8 * s) t)) [7, 6, 5, 4, 3, 2, 1, 0]"
  unfolding timestampBytes_def by (rule map_cong [OF refl], rule timestampByte) auto

lemma bigEndian_timestampBytes: "bigEndian (timestampBytes t) = t"
proof -
  have top: "drop_bit (8 * Suc 7) t = (0 :: 64 word)" by (rule bit_word_eqI) (simp add: bit_simps)
  note step = bigEndian_step [of 7 t] bigEndian_step [of 6 t] bigEndian_step [of 5 t]
    bigEndian_step [of 4 t] bigEndian_step [of 3 t] bigEndian_step [of 2 t]
    bigEndian_step [of 1 t] bigEndian_step [of 0 t]
  show ?thesis
    using step unfolding top by (simp add: timestampBytes_eq bigEndian_def)
qed

interpretation big_endian: codec timestampBytes bigEndian "\<lambda>_. True"
  by unfold_locales (simp add: bigEndian_timestampBytes)

interpretation hex_field: codec "hexText Q" "unhexText Q" "\<lambda>_. hex_laws Q" for Q
  by unfold_locales (simp add: hexText_def unhexText_def hex_text)

section \<open>Random nonces\<close>

lemma fillRandom_0: "fillRandom Q 0 e = ([], e)"
  by (simp add: fillRandom.simps)

lemma fillRandom_step:
  "n \<noteq> 0 \<Longrightarrow> fillRandom Q n e =
     (take (min 8 n) (hostBytes Q (rand e (draws e))) @ fst (fillRandom Q (n - 8) (snd (generate64 e))),
      snd (fillRandom Q (n - 8) (snd (generate64 e))))"
  by (subst fillRandom.simps) (simp add: generate64_def split: prod.split)

lemma fillRandom_facts:
  "clock (snd (fillRandom Q n e)) = clock e \<and> rand (snd (fillRandom Q n e)) = rand e \<and>
   ticks (snd (fillRandom Q n e)) = ticks e \<and>
   (number_laws Q \<longrightarrow> length (fst (fillRandom Q n e)) = n)"
proof (induction n arbitrary: e rule: less_induct)
  case (less n)
  show ?case
  proof (cases "n = 0")
    case False
    then show ?thesis
      using less [of "n - 8" "snd (generate64 e)"]
      by (simp add: fillRandom_step env_simps number_laws_def min_def)
  qed (simp add: fillRandom_0)
qed

lemma fillRandom_env [env_simps]:
  "clock (snd (fillRandom Q n e)) = clock e"
  "rand (snd (fillRandom Q n e)) = rand e"
  "ticks (snd (fillRandom Q n e)) = ticks e"
  using fillRandom_facts by blast+

lemma length_fillRandom: "number_laws Q \<Longrightarrow> length (fst (fillRandom Q n e)) = n"
  using fillRandom_facts by blast

section \<open>Envelopes open again\<close>

lemma encryptedResponse_frame [frame_simps]:
  "encryptedResponse Q L d p (s\<lparr>buffers := B\<rparr>) e = encryptedResponse Q L d p s e"
  "encryptedResponse Q L d p (s\<lparr>outbox := X\<rparr>) e = encryptedResponse Q L d p s e"
  "encryptedResponse Q L d p (s\<lparr>replayGuard := R\<rparr>) e = encryptedResponse Q L d p s e"
  by (simp_all add: encryptedResponse_def)

lemma encryptedResponse_env [env_simps]:
  "snd (encryptedResponse Q L d p s e) = snd (fillRandom Q 12 e)"
  by (simp add: encryptedResponse_def Let_def split: prod.split)

lemma encryptedResponse_eq:
  assumes "gcm_laws L G" and "number_laws Q" and "sessionKeys s d = Some key" and "length key = 32"
  shows "fst (encryptedResponse Q L d p s e) =
     (let nonce = fst (fillRandom Q 12 e)
      in secureEnvelope Q d nonce (seals L key nonce (toUtf8 Q d) (toJson Q (JObject p))))"
proof -
  obtain nonce e' where n: "fillRandom Q 12 e = (nonce, e')" by fastforce
  have "length nonce = 12" using length_fillRandom [OF assms(2), of 12 e] by (simp add: n)
  then show ?thesis
    using encryptAes256Gcm_eq [OF assms(1,4), of nonce] gcm_ctr(3) [OF assms(1)]
    by (simp add: encryptedResponse_def n assms(3) hashValue_def Let_def seals_def)
qed

lemma decryptRequest_frame [frame_simps]:
  "decryptRequest Q L ob (s\<lparr>buffers := B\<rparr>) = decryptRequest Q L ob s"
  "decryptRequest Q L ob (s\<lparr>outbox := X\<rparr>) = decryptRequest Q L ob s"
  by (simp_all add: decryptRequest_def Let_def)

text \<open>An envelope as a receiver sees it: any object with the fields of \<open>secureEnvelope\<close>.\<close>

definition envelopeFields :: "qt \<Rightarrow> json_object \<Rightarrow> qstring \<Rightarrow> bytes \<Rightarrow> GcmCiphertext \<Rightarrow> bool" where
  "envelopeFields Q ob d nonce ct \<longleftrightarrow>
     toString (jvalue ob ''type'') = qs ''secure'' \<and> toString (jvalue ob ''device_id'') = d \<and>
     unhexText Q (toString (jvalue ob ''nonce'')) = nonce \<and>
     unhexText Q (toString (jvalue ob ''ciphertext'')) = ciphertext ct \<and>
     unhexText Q (toString (jvalue ob ''tag'')) = tag ct"

lemma envelopeFields_secureEnvelope:
  "hex_laws Q \<Longrightarrow> envelopeFields Q (secureEnvelope Q d nonce ct) d nonce ct"
  by (simp add: envelopeFields_def secureEnvelope_def hex_field.dec_enc)

lemma envelopeFields_cong:
  "(\<And>key. jvalue ob' key = jvalue ob key) \<Longrightarrow> envelopeFields Q ob' d nonce ct = envelopeFields Q ob d nonce ct"
  by (simp add: envelopeFields_def)

lemma decryptRequest_fields:
  assumes "envelopeFields Q ob d nonce ct" and "sessionKeys s d = Some key"
  shows "decryptRequest Q L ob s =
    (case decryptAes256Gcm L key nonce ct (toUtf8 Q d) of
       (plaintext, err) \<Rightarrow> if plaintext = [] then Inl (errorText err)
         else case fromJson Q plaintext of Some (JObject ob) \<Rightarrow> Inr (d, ob)
              | _ \<Rightarrow> Inl (qs ''decrypted payload is invalid''))"
  using assms by (cases ct) (simp add: decryptRequest_def envelopeFields_def hashValue_def Let_def)

lemma decryptRequest_Inr:
  assumes "decryptRequest Q L ob s = Inr (d, p)"
  obtains key nonce ct plaintext where
    "sessionKeys s d = Some key" "envelopeFields Q ob d nonce ct"
    "decryptAes256Gcm L key nonce ct (toUtf8 Q d) = (plaintext, None)"
    "plaintext \<noteq> []" "fromJson Q plaintext = Some (JObject p)"
proof -
  let ?d = "toString (jvalue ob ''device_id'')"
  have t: "toString (jvalue ob ''type'') = qs ''secure''"
    using assms by (simp add: decryptRequest_def split: if_splits)
  obtain key where key: "sessionKeys s ?d = Some key"
    using assms by (auto simp: decryptRequest_def t Let_def split: if_splits)
  define nonce where "nonce = unhexText Q (toString (jvalue ob ''nonce''))"
  define ct where "ct = \<lparr>ciphertext = unhexText Q (toString (jvalue ob ''ciphertext'')),
    tag = unhexText Q (toString (jvalue ob ''tag''))\<rparr>"
  have f: "envelopeFields Q ob ?d nonce ct"
    by (simp add: envelopeFields_def t nonce_def ct_def)
  obtain plaintext err where dec: "decryptAes256Gcm L key nonce ct (toUtf8 Q ?d) = (plaintext, err)"
    by fastforce
  have p: "plaintext \<noteq> []" "fromJson Q plaintext = Some (JObject p)" "?d = d"
    using assms by (auto simp: decryptRequest_fields [OF f key] dec split: if_splits option.splits json.splits)
  have "err = None"
    using dec p(1) by (auto simp: decryptAes256Gcm_def split: if_splits option.splits)
  with that [of key nonce ct plaintext] key f dec p show thesis by simp
qed

end
