(* ===== verification/Framing.thy ===== *)
theory Framing
  imports Prelude
begin

text \<open>
  The \<open>QByteArray\<close> operations that \<open>Server::readClient\<close> frames its input with, the
  specification of line framing (\<open>splitLines\<close>), and the contract between a receive loop
  and the handler of its lines: \<open>line_reader\<close>. A loop that satisfies the contract handles
  the lines of the stream, whatever pieces the stream arrives in.
\<close>

section \<open>Byte array operations\<close>

definition indexOf :: "bytes \<Rightarrow> byte \<Rightarrow> int" where
  "indexOf a b = (let n = length (takeWhile (\<lambda>x. x \<noteq> b) a) in if n < length a then int n else -1)"

lemma indexOf_absent: "b \<notin> set a \<Longrightarrow> indexOf a b = -1"
proof -
  assume "b \<notin> set a"
  then have "takeWhile (\<lambda>x. x \<noteq> b) a = a" by (auto simp: takeWhile_eq_all_conv)
  then show ?thesis by (simp only: indexOf_def Let_def less_irrefl if_False)
qed

lemma indexOf_first: "b \<notin> set l \<Longrightarrow> indexOf (l @ b # r) b = int (length l)"
proof -
  assume "b \<notin> set l"
  then have "takeWhile (\<lambda>x. x \<noteq> b) (l @ b # r) = l" by (subst takeWhile_append2) auto
  then show ?thesis by (simp add: indexOf_def)
qed

text \<open>\<open>QByteArray::trimmed\<close> drops ASCII white space (9 to 13 and 32) at both ends.\<close>

definition isSpace :: "byte \<Rightarrow> bool" where
  "isSpace b \<longleftrightarrow> b = 32 \<or> 9 \<le> b \<and> b \<le> 13"

definition trimmed :: "bytes \<Rightarrow> bytes" where
  "trimmed a = rev (dropWhile isSpace (rev (dropWhile isSpace a)))"

lemma trimmed_id:
  assumes "\<not> isSpace b" and "\<not> isSpace c"
  shows "trimmed (b # body @ [c]) = b # body @ [c]"
  using assms by (simp add: trimmed_def)

section \<open>Lines of a byte stream\<close>

text \<open>The complete lines, without their newlines, and the unfinished rest.\<close>

fun splitLines :: "bytes \<Rightarrow> bytes list \<times> bytes" where
  "splitLines [] = ([], [])"
| "splitLines (b # bs) =
     (case splitLines bs of
        (ls, r) \<Rightarrow> if b = 10 then ([] # ls, r)
                  else case ls of [] \<Rightarrow> ([], b # r) | l # ls' \<Rightarrow> ((b # l) # ls', r))"

definition requests :: "bytes \<Rightarrow> bytes list" where
  "requests bs = filter (\<lambda>l. l \<noteq> []) (map trimmed (fst (splitLines bs)))"

lemma splitLines_no_newline: "10 \<notin> set bs \<Longrightarrow> splitLines bs = ([], bs)"
  by (induction bs) simp_all

lemma splitLines_line:
  "10 \<notin> set l \<Longrightarrow> splitLines (l @ 10 # bs) = (l # fst (splitLines bs), snd (splitLines bs))"
  by (induction l) (simp_all split: prod.split)

lemma splitLines_rest: "10 \<notin> set (snd (splitLines bs))"
proof (induction bs)
  case (Cons b bs)
  obtain ls r where "splitLines bs = (ls, r)" by fastforce
  with Cons show ?case by (cases ls) auto
qed simp

lemma splitLines_append:
  "splitLines (a @ b) =
     (fst (splitLines a) @ fst (splitLines (snd (splitLines a) @ b)),
      snd (splitLines (snd (splitLines a) @ b)))"
proof (induction a)
  case (Cons x a)
  obtain ls r where "splitLines a = (ls, r)" by fastforce
  moreover have "10 \<notin> set r" using splitLines_rest [of a] calculation by simp
  ultimately show ?case using Cons by (cases ls) (auto split: prod.splits list.splits)
qed simp

lemma requests_append: "requests (a @ b) = requests a @ requests (snd (splitLines a) @ b)"
  by (simp add: requests_def splitLines_append [of a b])

section \<open>The receive loop contract\<close>

text \<open>
  \<open>load\<close> and \<open>store\<close> access the buffer of one connection in the state, \<open>known\<close> says that
  the connection has one, \<open>handle\<close> processes a line and \<open>loop\<close> is the receive loop. The
  handler promises not to touch the buffer; the loop promises to take one line at a time.
\<close>

locale line_reader =
  fixes load :: "'s \<Rightarrow> bytes" and store :: "bytes \<Rightarrow> 's \<Rightarrow> 's" and known :: "'s \<Rightarrow> bool"
    and handle :: "bytes \<Rightarrow> 's \<Rightarrow> 's" and loop :: "'s \<Rightarrow> 's"
  assumes load_store: "load (store b s) = b"
    and store_store: "store b (store c s) = store b s"
    and store_load: "known s \<Longrightarrow> store (load s) s = s"
    and known_store: "known (store b s)"
    and handle_store: "handle l (store b s) = store b (handle l s)"
    and loop_unfold: "loop s =
      (let buffer = load s; stop_at = indexOf buffer 10 in
       if stop_at < 0 then s
       else let line = trimmed (take (nat stop_at) buffer);
                s = store (drop (nat stop_at + 1) buffer) s
            in loop (if line \<noteq> [] then handle line s else s))"
begin

lemma loop_stops: "10 \<notin> set (load s) \<Longrightarrow> loop s = s"
  by (subst loop_unfold) (simp add: indexOf_absent)

lemma loop_line:
  assumes "10 \<notin> set l" and "load s = l @ 10 # rest"
  shows "loop s = loop (store rest (if trimmed l \<noteq> [] then handle (trimmed l) s else s))"
  by (subst loop_unfold) (simp add: assms indexOf_first Let_def handle_store)

text \<open>The loop handles the requests of its buffer in order and keeps the unfinished line.\<close>

lemma loop_eq:
  "known s \<Longrightarrow> loop s = store (snd (splitLines (load s))) (fold handle (requests (load s)) s)"
proof (induction "length (load s)" arbitrary: s rule: less_induct)
  case less
  show ?case
  proof (cases "10 \<in> set (load s)")
    case False
    then show ?thesis
      by (simp add: loop_stops splitLines_no_newline requests_def store_load less.prems)
  next
    case True
    then obtain l rest where l: "load s = l @ 10 # rest" "10 \<notin> set l"
      by (metis split_list_first)
    let ?s = "store rest (if trimmed l \<noteq> [] then handle (trimmed l) s else s)"
    have "loop ?s = store (snd (splitLines rest)) (fold handle (requests rest) ?s)"
      using less.hyps [of ?s] l(1) by (simp add: load_store known_store)
    moreover have "fold handle ls (store b t) = store b (fold handle ls t)" for ls b t
      by (induction ls arbitrary: t) (simp_all add: handle_store)
    ultimately show ?thesis
      using loop_line [OF l(2,1)] l
      by (simp add: requests_def splitLines_line store_store)
  qed
qed

lemma load_loop: "known s \<Longrightarrow> load (loop s) = snd (splitLines (load s))"
  by (simp add: loop_eq load_store)

text \<open>
  Feeding two chunks, one loop run after each, is feeding their concatenation.
\<close>

lemma loop_chunks:
  "loop (store (load (loop (store (load s @ a) s)) @ b) (loop (store (load s @ a) s))) =
   loop (store (load s @ a @ b) s)"
proof -
  have fold: "fold handle ls (store b t) = store b (fold handle ls t)" for ls b t
    by (induction ls arbitrary: t) (simp_all add: handle_store)
  let ?u = "load s @ a"
  have "requests (?u @ b) = requests ?u @ requests (snd (splitLines ?u) @ b)"
    and "snd (splitLines (?u @ b)) = snd (splitLines (snd (splitLines ?u) @ b))"
    using requests_append [of ?u b] splitLines_append [of ?u b] by simp_all
  then show ?thesis
    by (simp add: loop_eq known_store load_store fold store_store)
qed

end

end
