(* ===== verification/Server.thy ===== *)
theory Server
  imports Envelope Framing
begin

text \<open>
  \<open>class Server\<close>, \<open>src/core/server.cpp\<close>: construction, \<open>start\<close>/\<open>stop\<close>, the pairing
  payload, the socket slots and \<open>processLine\<close>. A slot is a function from the state and
  the environment to both after it; what Qt and the operating system decide (whether a
  bind succeeds, which sockets are pending, what was received, in which order a hash
  lists its keys) is an argument.
\<close>

section \<open>Requests\<close>

text \<open>The \<open>pair\<close> branch. The clock is read only if the other conditions hold.\<close>

definition pairResponse ::
  "qt \<Rightarrow> openssl \<Rightarrow> json_object \<Rightarrow> server \<Rightarrow> env \<Rightarrow> json_object \<times> server \<times> env" where
  "pairResponse Q L request s e =
     (let id = toString (jvalue request ''device_id'');
          signingKey = unhexText Q (toString (jvalue request ''public_key''));
          deviceKey = unhexText Q (toString (jvalue request ''x25519_public_key''));
          code = toString (jvalue request ''pairing_code'');
          invalid = errorResponse (qs ''pairing code, keys, or pairing window is invalid'')
      in if id = [] \<or> length signingKey \<noteq> 32 \<or> length deviceKey \<noteq> 32 \<or> code \<noteq> pairingCode s
         then (invalid, s, e)
         else let (now, e) = currentSecs e in
         if sint (now - pairingCreatedAt s) > 300 then (invalid, s, e)
         else let (shared, err) = x25519SharedSecret L (privateKey (x25519KeyPair s)) deviceKey in
         if length shared \<noteq> 32 then (errorResponse (errorText err), s, e)
         else let s = s\<lparr>pairedKeys := (pairedKeys s)(id \<mapsto> signingKey),
                         sessionKeys := (sessionKeys s)(id \<mapsto> shared),
                         pairingCode := []\<rparr>;
                  s = emit (DeviceChanged id True) s;
                  s = emit (LogMessage (qs ''paired device '' @ id)) s
              in ([(qs ''type'', JString (qs ''paired'')),
                   (qs ''accepted'', JBool True),
                   (qs ''pc_id'', JString (hexText Q (pcId s)))], s, e))"

definition challengeResponse ::
  "qt \<Rightarrow> openssl \<Rightarrow> qstring \<Rightarrow> server \<Rightarrow> env \<Rightarrow> json_object \<times> env" where
  "challengeResponse Q L deviceId s e =
     (let (nonce, e) = fillRandom Q 32 e;
          (timestamp, e) = currentSecs e
      in encryptedResponse Q L deviceId
           [(qs ''type'', JString (qs ''challenge'')),
            (qs ''challenge_id'', JString (hexText Q nonce)),
            (qs ''nonce'', JString (hexText Q nonce)),
            (qs ''timestamp'', JInteger timestamp)] s e)"

text \<open>
  The decision of the \<open>verify\<close> branch: three conditions joined by \<open>&&\<close>, the second of
  which updates the replay guard, with the error text the third stores.
\<close>

definition authorize ::
  "qt \<Rightarrow> openssl \<Rightarrow> qstring \<Rightarrow> bytes \<Rightarrow> qint64 \<Rightarrow> bytes \<Rightarrow> server \<Rightarrow> env \<Rightarrow>
   bool \<times> qstring option \<times> server \<times> env" where
  "authorize Q L deviceId nonce timestamp signature s e =
     (if pairedKeys s deviceId = None then (False, None, s, e)
      else let (accepted, g, e) = accept Q nonce timestamp (replayGuard s) e;
               s = s\<lparr>replayGuard := g\<rparr>
           in if \<not> accepted then (False, None, s, e)
              else let (ok, err) = verifyEd25519 L (hashValue (pairedKeys s) deviceId)
                         (nonce @ timestampBytes timestamp) signature
                   in (ok, err, s, e))"

definition verifyResponse ::
  "qt \<Rightarrow> openssl \<Rightarrow> qstring \<Rightarrow> json_object \<Rightarrow> server \<Rightarrow> env \<Rightarrow> json_object \<times> server \<times> env" where
  "verifyResponse Q L deviceId decrypted s e =
     (let nonce = unhexText Q (toString (jvalue decrypted ''nonce''));
          timestamp = toLongLong Q (jvalue decrypted ''timestamp'');
          signature = unhexText Q (toString (jvalue decrypted ''signature''));
          (authorized, verifyError, s, e) = authorize Q L deviceId nonce timestamp signature s e;
          (response, e) = encryptedResponse Q L deviceId
             [(qs ''type'', JString (qs ''authorized'')),
              (qs ''authorized'', JBool authorized)] s e;
          s = emit (LogMessage (if authorized then qs ''device '' @ deviceId @ qs '' authorized''
                     else qs ''authorization rejected: '' @ errorText verifyError)) s
      in (response, s, e))"

definition respond ::
  "qt \<Rightarrow> openssl \<Rightarrow> json_object \<Rightarrow> server \<Rightarrow> env \<Rightarrow> json_object \<times> server \<times> env" where
  "respond Q L request s e =
     (if toString (jvalue request ''type'') = qs ''pair'' then pairResponse Q L request s e
      else case decryptRequest Q L request s of
             Inl err \<Rightarrow> (errorResponse err, s, e)
           | Inr (deviceId, decrypted) \<Rightarrow>
               let kind = toString (jvalue decrypted ''type'') in
               if kind = qs ''challenge''
               then let (response, e) = challengeResponse Q L deviceId s e in (response, s, e)
               else if kind = qs ''verify'' then verifyResponse Q L deviceId decrypted s e
               else let (response, e) = encryptedResponse Q L deviceId
                          (errorResponse (qs ''unsupported request type'')) s e
                    in (response, s, e))"

definition writeLine :: "qt \<Rightarrow> socket \<Rightarrow> json_object \<Rightarrow> server \<Rightarrow> server" where
  "writeLine Q socket ob s = emit (SocketWrite socket (toJson Q (JObject ob) @ [10])) s"

definition processLine ::
  "qt \<Rightarrow> openssl \<Rightarrow> socket \<Rightarrow> bytes \<Rightarrow> server \<Rightarrow> env \<Rightarrow> server \<times> env" where
  "processLine Q L socket line s e =
     (case fromJson Q line of
        Some (JObject request) \<Rightarrow>
          (let (response, s, e) = respond Q L request s e in (writeLine Q socket response s, e))
      | _ \<Rightarrow> (writeLine Q socket (errorResponse (qs ''invalid JSON request'')) s, e))"

section \<open>Frame facts\<close>

lemma emit_simps [simp]:
  "listening (emit ev s) = listening s" "udpBound (emit ev s) = udpBound s"
  "discoveryTimer (emit ev s) = discoveryTimer s" "pairedKeys (emit ev s) = pairedKeys s"
  "sessionKeys (emit ev s) = sessionKeys s" "buffers (emit ev s) = buffers s"
  "replayGuard (emit ev s) = replayGuard s" "port (emit ev s) = port s" "pcId (emit ev s) = pcId s"
  "x25519KeyPair (emit ev s) = x25519KeyPair s" "pairingCode (emit ev s) = pairingCode s"
  "pairingCreatedAt (emit ev s) = pairingCreatedAt s" "outbox (emit ev s) = outbox s @ [ev]"
  "emit ev (s\<lparr>buffers := B\<rparr>) = (emit ev s)\<lparr>buffers := B\<rparr>"
  by (simp_all add: emit_def)

lemma writeLine_simps [simp]:
  "listening (writeLine Q k ob s) = listening s" "udpBound (writeLine Q k ob s) = udpBound s"
  "discoveryTimer (writeLine Q k ob s) = discoveryTimer s"
  "pairedKeys (writeLine Q k ob s) = pairedKeys s" "sessionKeys (writeLine Q k ob s) = sessionKeys s"
  "buffers (writeLine Q k ob s) = buffers s" "replayGuard (writeLine Q k ob s) = replayGuard s"
  "port (writeLine Q k ob s) = port s" "pcId (writeLine Q k ob s) = pcId s"
  "x25519KeyPair (writeLine Q k ob s) = x25519KeyPair s"
  "pairingCode (writeLine Q k ob s) = pairingCode s"
  "pairingCreatedAt (writeLine Q k ob s) = pairingCreatedAt s"
  "writeLine Q k ob (s\<lparr>buffers := B\<rparr>) = (writeLine Q k ob s)\<lparr>buffers := B\<rparr>"
  by (simp_all add: writeLine_def)

text \<open>No handler reads or writes the connection buffers.\<close>

abbreviation withBuffers :: "(socket \<rightharpoonup> bytes) \<Rightarrow> 'a \<times> server \<times> env \<Rightarrow> 'a \<times> server \<times> env" where
  "withBuffers B r \<equiv> (fst r, (fst (snd r))\<lparr>buffers := B\<rparr>, snd (snd r))"

lemma pairResponse_frame [frame_simps]:
  "pairResponse Q L request (s\<lparr>buffers := B\<rparr>) e = withBuffers B (pairResponse Q L request s e)"
  by (simp add: pairResponse_def Let_def split: prod.split)

lemma challengeResponse_frame [frame_simps]:
  "challengeResponse Q L d (s\<lparr>buffers := B\<rparr>) e = challengeResponse Q L d s e"
  by (simp add: challengeResponse_def frame_simps)

lemma authorize_frame [frame_simps]:
  "authorize Q L d n t sg (s\<lparr>buffers := B\<rparr>) e =
     (let (ok, err, s', e') = authorize Q L d n t sg s e in (ok, err, s'\<lparr>buffers := B\<rparr>, e'))"
  by (simp add: authorize_def Let_def split: prod.split)

lemma verifyResponse_frame [frame_simps]:
  "verifyResponse Q L d p (s\<lparr>buffers := B\<rparr>) e = withBuffers B (verifyResponse Q L d p s e)"
  by (simp add: verifyResponse_def frame_simps Let_def split: prod.split)

lemma respond_frame [frame_simps]:
  "respond Q L request (s\<lparr>buffers := B\<rparr>) e = withBuffers B (respond Q L request s e)"
  by (simp add: respond_def frame_simps Let_def split: prod.split sum.split)

lemma processLine_frame [frame_simps]:
  "processLine Q L k line (s\<lparr>buffers := B\<rparr>) e =
     ((fst (processLine Q L k line s e))\<lparr>buffers := B\<rparr>, snd (processLine Q L k line s e))"
  by (simp add: processLine_def frame_simps split: prod.split option.split json.split)

lemma processLine_buffers [simp]:
  "buffers (fst (processLine Q L k line s e)) = buffers s"
proof -
  have "s\<lparr>buffers := buffers s\<rparr> = s" by simp
  then have "processLine Q L k line s e =
      ((fst (processLine Q L k line s e))\<lparr>buffers := buffers s\<rparr>, snd (processLine Q L k line s e))"
    using processLine_frame [where s = s and B = "buffers s"] by simp
  then have "fst (processLine Q L k line s e) = (fst (processLine Q L k line s e))\<lparr>buffers := buffers s\<rparr>"
    by (metis fst_conv)
  then have "buffers (fst (processLine Q L k line s e)) =
      buffers ((fst (processLine Q L k line s e))\<lparr>buffers := buffers s\<rparr>)"
    by (rule arg_cong)
  then show ?thesis by simp
qed

section \<open>Reading from a connection\<close>

definition bufferOf :: "server \<Rightarrow> socket \<Rightarrow> bytes" where
  "bufferOf s socket = hashValue (buffers s) socket"

definition setBuffer :: "socket \<Rightarrow> bytes \<Rightarrow> server \<Rightarrow> server" where
  "setBuffer socket b s = s\<lparr>buffers := (buffers s)(socket \<mapsto> b)\<rparr>"

lemma bufferOf_setBuffer [simp]: "bufferOf (setBuffer k b s) k = b"
  by (simp add: bufferOf_def setBuffer_def hashValue_def)

lemma bufferOf_processLine [simp]: "bufferOf (fst (processLine Q L k line s e)) k' = bufferOf s k'"
  by (simp add: bufferOf_def)

lemma indexOf_bounds: "0 \<le> indexOf a b \<Longrightarrow> nat (indexOf a b) < length a"
  by (auto simp: indexOf_def Let_def split: if_splits)

text \<open>
  The \<open>while\<close> loop of \<open>readClient\<close>. It ends because each round removes at least the newline
  from a buffer that \<open>processLine\<close> leaves alone.
\<close>

function readLoop :: "qt \<Rightarrow> openssl \<Rightarrow> socket \<Rightarrow> server \<Rightarrow> env \<Rightarrow> server \<times> env" where
  "readLoop Q L socket s e =
     (let buffer = bufferOf s socket; stop_at = indexOf buffer 10 in
      if stop_at < 0 then (s, e)
      else let line = trimmed (take (nat stop_at) buffer);
               s1 = setBuffer socket (drop (nat stop_at + 1) buffer) s
           in if line \<noteq> []
              then readLoop Q L socket (fst (processLine Q L socket line s1 e))
                     (snd (processLine Q L socket line s1 e))
              else readLoop Q L socket s1 e)"
  by pat_completeness auto
termination
proof (relation "measure (\<lambda>(Q, L, socket, s, e). length (bufferOf s socket))", goal_cases)
  case 1
  show ?case by simp
next
  case (2 Q L socket s e buffer stop_at line s1)
  then show ?case using indexOf_bounds [of buffer 10] by (auto simp: case_prod_beta)
next
  case (3 Q L socket s e buffer stop_at line s1)
  then show ?case using indexOf_bounds [of buffer 10] by (auto simp: case_prod_beta)
qed

declare readLoop.simps [simp del]

definition readClient ::
  "qt \<Rightarrow> openssl \<Rightarrow> socket option \<Rightarrow> bytes \<Rightarrow> server \<Rightarrow> env \<Rightarrow> server \<times> env" where
  "readClient Q L sender received s e =
     (case sender of None \<Rightarrow> (s, e)
      | Some socket \<Rightarrow>
          readLoop Q L socket (setBuffer socket (bufferOf s socket @ received) s) e)"

section \<open>Connections\<close>

fun acceptConnections :: "(socket \<times> qstring) list \<Rightarrow> server \<Rightarrow> server" where
  "acceptConnections [] s = s"
| "acceptConnections ((socket, peer) # pending) s =
     acceptConnections pending
       (emit (LogMessage (qs ''client connected from '' @ peer))
          (s\<lparr>buffers := (buffers s)(socket \<mapsto> [])\<rparr>))"

definition clientDisconnected :: "socket option \<Rightarrow> server \<Rightarrow> server" where
  "clientDisconnected sender s =
     (case sender of None \<Rightarrow> s
      | Some socket \<Rightarrow>
          emit (SocketDeleteLater socket)
            (emit (LogMessage (qs ''client disconnected''))
               (s\<lparr>buffers := (buffers s)(socket := None)\<rparr>)))"

section \<open>Discovery\<close>

text \<open>
  The three entries of the discovery packet. (As committed the initializer list lacks a closing
  brace after its first entry; the model is the list with the brace in place.)
\<close>

definition discoveryPacket :: "qt \<Rightarrow> server \<Rightarrow> json_object" where
  "discoveryPacket Q s =
     [(qs ''type'', JString (qs ''openbiounlock'')),
      (qs ''pc_id'', JString (hexText Q (pcId s))),
      (qs ''port'', JInteger (ucast (port s)))]"

definition broadcastDiscovery :: "qt \<Rightarrow> server \<Rightarrow> server" where
  "broadcastDiscovery Q s =
     emit (WriteDatagram (toJson Q (JObject (discoveryPacket Q s))) (port s)) s"

definition asksForDiscovery :: "qt \<Rightarrow> bytes \<Rightarrow> bool" where
  "asksForDiscovery Q datagram =
     (case fromJson Q datagram of None \<Rightarrow> False
      | Some document \<Rightarrow>
          (let ob = (case document of JObject ob \<Rightarrow> ob | _ \<Rightarrow> [])
           in toString (jvalue ob ''type'') = qs ''discover''))"

fun readDatagrams :: "qt \<Rightarrow> bytes list \<Rightarrow> server \<Rightarrow> server" where
  "readDatagrams Q [] s = s"
| "readDatagrams Q (datagram # pending) s =
     readDatagrams Q pending
       (if asksForDiscovery Q datagram then broadcastDiscovery Q s else s)"

section \<open>Construction, start and stop\<close>

definition newServer :: "qt \<Rightarrow> openssl \<Rightarrow> env \<Rightarrow> server \<times> env" where
  "newServer Q L e =
     (let (v, e) = generate64 e
      in (\<lparr>listening = False, udpBound = False, discoveryTimer = False, pairedKeys = Map.empty,
           sessionKeys = Map.empty, buffers = Map.empty, replayGuard = newReplayGuard,
           port = 43295, pcId = numberHex Q v,
           x25519KeyPair = fst (generateX25519KeyPair L), pairingCode = [],
           pairingCreatedAt = 0, outbox = []\<rparr>, e))"

text \<open>\<open>QString::number(generate64(), 16).rightJustified(16, '0')\<close>.\<close>

definition rightJustified :: "nat \<Rightarrow> 16 word \<Rightarrow> qstring \<Rightarrow> qstring" where
  "rightJustified width fill q = replicate (width - length q) fill @ q"

definition newPairingCode :: "qt \<Rightarrow> env \<Rightarrow> qstring \<times> env" where
  "newPairingCode Q e =
     (let (v, e) = generate64 e in (rightJustified 16 48 (qsNumberHex Q v), e))"

text \<open>
  \<open>listenError\<close> and \<open>bindError\<close> are the outcomes of \<open>QTcpServer::listen\<close> and
  \<open>QUdpSocket::bind\<close>: \<open>None\<close> for success, else the error string.
\<close>

definition start ::
  "qt \<Rightarrow> quint16 \<Rightarrow> qstring option \<Rightarrow> qstring option \<Rightarrow> server \<Rightarrow> env \<Rightarrow> bool \<times> server \<times> env" where
  "start Q newPort listenError bindError s e =
     (if listening s then (True, s, e)
      else let s = s\<lparr>port := newPort\<rparr> in
      if length (publicKey (x25519KeyPair s)) \<noteq> 32
      then (False, emit (LogMessage (qs ''X25519 key initialization failed'')) s, e)
      else let (code, e) = newPairingCode Q e;
               s = s\<lparr>pairingCode := code\<rparr>;
               (now, e) = currentSecs e;
               s = s\<lparr>pairingCreatedAt := now\<rparr>
           in case listenError of
                Some err \<Rightarrow> (False, emit (LogMessage (qs ''TCP listener failed: '' @ err)) s, e)
              | None \<Rightarrow>
                  (let s = s\<lparr>listening := True\<rparr> in
                   case bindError of
                     Some err \<Rightarrow>
                       (False, (emit (LogMessage (qs ''UDP discovery listener failed: '' @ err)) s)
                                 \<lparr>listening := False\<rparr>, e)
                   | None \<Rightarrow>
                       (let s = s\<lparr>udpBound := True, discoveryTimer := True\<rparr>;
                            s = broadcastDiscovery Q s;
                            number = qsNumberDec Q (uint (port s));
                            s = emit (StatusChanged (qs ''Listening on TCP/UDP '' @ number)) s;
                            s = emit (LogMessage (qs ''server started on port '' @ number)) s
                        in (True, s, e))))"

text \<open>
  \<open>open_sockets\<close> is the list \<open>buffers_.keys()\<close> returns, in the hash's order; with each socket,
  whether \<open>disconnectFromHost\<close> closes it at once (nothing left to write), which runs the slot
  \<open>clientDisconnected\<close> inside the loop.
\<close>

definition stop :: "(socket \<times> bool) list \<Rightarrow> server \<Rightarrow> server" where
  "stop open_sockets s =
     (let s = s\<lparr>discoveryTimer := False\<rparr>;
          s = fold (\<lambda>(socket, atOnce) s.
                 let s = emit (SocketDisconnect socket) s
                 in if atOnce then clientDisconnected (Some socket) s else s) open_sockets s;
          s = s\<lparr>buffers := Map.empty\<rparr>;
          s = s\<lparr>listening := False\<rparr>;
          s = s\<lparr>udpBound := False\<rparr>
      in emit (StatusChanged (qs ''Stopped'')) s)"

definition isRunning :: "server \<Rightarrow> bool" where
  "isRunning s = listening s"

section \<open>The pairing payload\<close>

record host_address =
  isIPv4 :: bool
  isLoopback :: bool
  isMulticast :: bool
  addressText :: qstring

text \<open>The first address the loop over \<open>QNetworkInterface::allAddresses()\<close> breaks at.\<close>

fun firstUsable :: "host_address list \<Rightarrow> qstring" where
  "firstUsable [] = []"
| "firstUsable (a # rest) =
     (if isIPv4 a \<and> \<not> isLoopback a \<and> \<not> isMulticast a then addressText a else firstUsable rest)"

definition chooseEndpoint :: "qstring \<Rightarrow> host_address list \<Rightarrow> qstring" where
  "chooseEndpoint host addresses =
     (let endpoint = host;
          endpoint = (if endpoint = [] then firstUsable addresses else endpoint)
      in if endpoint = [] then qs ''127.0.0.1'' else endpoint)"

text \<open>A new code is drawn when there is none or the current one is older than 300 seconds.\<close>

definition refreshCode :: "qt \<Rightarrow> server \<Rightarrow> env \<Rightarrow> server \<times> env" where
  "refreshCode Q s e =
     (let (stale, e) = (if pairingCode s = [] then (True, e)
                        else let (now, e) = currentSecs e
                             in (sint (now - pairingCreatedAt s) > 300, e))
      in if stale
         then let (code, e) = newPairingCode Q e; (now, e) = currentSecs e
              in (s\<lparr>pairingCode := code, pairingCreatedAt := now\<rparr>, e)
         else (s, e))"

definition payloadObject :: "qt \<Rightarrow> qstring \<Rightarrow> server \<Rightarrow> json_object" where
  "payloadObject Q endpoint s =
     [(qs ''version'', JInteger 1),
      (qs ''host'', JString endpoint),
      (qs ''port'', JInteger (ucast (port s))),
      (qs ''pc_id'', JString (hexText Q (pcId s))),
      (qs ''x25519_public_key'', JString (hexText Q (publicKey (x25519KeyPair s)))),
      (qs ''pairing_code'', JString (pairingCode s))]"

definition pairingPayload ::
  "qt \<Rightarrow> qstring \<Rightarrow> host_address list \<Rightarrow> server \<Rightarrow> env \<Rightarrow> bytes \<times> server \<times> env" where
  "pairingPayload Q host addresses s e =
     (let endpoint = chooseEndpoint host addresses; (s, e) = refreshCode Q s e
      in (toJson Q (JObject (payloadObject Q endpoint s)), s, e))"

end
