(* ===== verification/ServerFraming.thy ===== *)
theory ServerFraming
  imports Server
begin

text \<open>
  \<open>Server::readClient\<close> as a receive loop: the loop is interpreted as a \<open>line_reader\<close>
  whose handler is \<open>processLine\<close>, and the properties of the byte stream follow.
\<close>

abbreviation loadBuffer :: "socket \<Rightarrow> server \<times> env \<Rightarrow> bytes" where
  "loadBuffer k st \<equiv> bufferOf (fst st) k"

abbreviation storeBuffer :: "socket \<Rightarrow> bytes \<Rightarrow> server \<times> env \<Rightarrow> server \<times> env" where
  "storeBuffer k b st \<equiv> (setBuffer k b (fst st), snd st)"

abbreviation handleLine :: "qt \<Rightarrow> openssl \<Rightarrow> socket \<Rightarrow> bytes \<Rightarrow> server \<times> env \<Rightarrow> server \<times> env" where
  "handleLine Q L k line st \<equiv> processLine Q L k line (fst st) (snd st)"

interpretation reader: line_reader "loadBuffer k" "storeBuffer k" "\<lambda>st. k \<in> dom (buffers (fst st))"
    "handleLine Q L k" "\<lambda>st. readLoop Q L k (fst st) (snd st)" for Q L k
proof
  fix b c :: bytes and st :: "server \<times> env" and l :: bytes
  show "loadBuffer k (storeBuffer k b st) = b" by simp
  show "storeBuffer k b (storeBuffer k c st) = storeBuffer k b st"
    by (simp add: setBuffer_def)
  show "k \<in> dom (buffers (fst st)) \<Longrightarrow> storeBuffer k (loadBuffer k st) st = st"
    by (cases st) (auto simp: setBuffer_def bufferOf_def hashValue_def fun_upd_idem)
  show "k \<in> dom (buffers (fst (storeBuffer k b st)))" by (simp add: setBuffer_def)
  show "handleLine Q L k l (storeBuffer k b st) = storeBuffer k b (handleLine Q L k l st)"
    by (simp add: setBuffer_def frame_simps)
  show "readLoop Q L k (fst st) (snd st) =
      (let buffer = loadBuffer k st; stop_at = indexOf buffer 10 in
       if stop_at < 0 then st
       else let line = trimmed (take (nat stop_at) buffer);
                st = storeBuffer k (drop (nat stop_at + 1) buffer) st
            in readLoop Q L k (fst (if line \<noteq> [] then handleLine Q L k line st else st))
                 (snd (if line \<noteq> [] then handleLine Q L k line st else st)))"
    by (subst readLoop.simps) (simp add: Let_def)
qed

lemma readClient_reader:
  "readClient Q L (Some k) received s e =
     (let t = (s, e); u = storeBuffer k (loadBuffer k t @ received) t
      in readLoop Q L k (fst u) (snd u))"
  by (simp add: readClient_def Let_def)

lemma readClient_eq:
  "readClient Q L (Some k) received s e =
     (let stream = bufferOf s k @ received
      in storeBuffer k (snd (splitLines stream))
           (fold (handleLine Q L k) (requests stream) (setBuffer k stream s, e)))"
proof -
  have "k \<in> dom (buffers (setBuffer k b s))" for b by (simp add: setBuffer_def)
  then show ?thesis
    using reader.loop_eq [where k = k and Q = Q and L = L
        and s = "(setBuffer k (bufferOf s k @ received) s, e)"]
    by (simp add: readClient_reader Let_def)
qed

text \<open>C32: how TCP cuts a connection's bytes into reads does not matter. Receiving \<open>a\<close> and then
  \<open>b\<close> leaves the server, its answers, its keys, its replay guard and the environment in the
  state that receiving \<open>a @ b\<close> at once does.\<close>

theorem readClient_chunks:
  "readClient Q L (Some k) b (fst (readClient Q L (Some k) a s e)) (snd (readClient Q L (Some k) a s e)) =
   readClient Q L (Some k) (a @ b) s e"
proof -
  let ?store = "storeBuffer k (loadBuffer k (s, e) @ a) (s, e)"
  let ?run = "\<lambda>u. readLoop Q L k (fst u) (snd u)"
  have "readClient Q L (Some k) b (fst (readClient Q L (Some k) a s e)) (snd (readClient Q L (Some k) a s e)) =
      ?run (storeBuffer k (loadBuffer k (?run ?store) @ b) (?run ?store))"
    by (simp add: readClient_reader Let_def)
  also have "\<dots> = ?run (storeBuffer k (loadBuffer k (s, e) @ a @ b) (s, e))"
    by (rule reader.loop_chunks)
  also have "\<dots> = readClient Q L (Some k) (a @ b) s e" by (simp add: readClient_reader Let_def)
  finally show ?thesis .
qed

text \<open>C33: one call of \<open>readClient\<close> hands exactly the non-blank trimmed lines that the buffered and
  the new bytes complete to \<open>processLine\<close>, in order, and keeps the unfinished line: afterwards
  the buffer of the connection holds no newline.\<close>

theorem readClient_processes_lines:
  "let stream = bufferOf s k @ received; (s', e') = readClient Q L (Some k) received s e
   in (s', e') = storeBuffer k (snd (splitLines stream))
         (fold (handleLine Q L k) (requests stream) (setBuffer k stream s, e)) \<and>
      bufferOf s' k = snd (splitLines stream) \<and> 10 \<notin> set (bufferOf s' k)"
  using splitLines_rest by (simp add: readClient_eq Let_def split: prod.split)

text \<open>A JSON object that is written with a newline arrives as one request.\<close>

lemma toJson_trimmed: "json_laws Q \<Longrightarrow> trimmed (toJson Q (JObject ob)) = toJson Q (JObject ob)"
proof -
  assume "json_laws Q"
  then obtain body where "toJson Q (JObject ob) = 123 # body @ [125]" unfolding json_laws_def by blast
  then show ?thesis using trimmed_id [of 123 125 body] by (simp add: isSpace_def)
qed

lemma requests_written:
  assumes "json_laws Q"
  shows "requests (concat (map (\<lambda>ob. toJson Q (JObject ob) @ [10]) obs) @ rest) =
     map (\<lambda>ob. toJson Q (JObject ob)) obs @ requests rest \<and>
     snd (splitLines (concat (map (\<lambda>ob. toJson Q (JObject ob) @ [10]) obs) @ rest)) = snd (splitLines rest)"
proof (induction obs)
  case (Cons ob obs)
  have "10 \<notin> set (toJson Q (JObject ob))" and "toJson Q (JObject ob) \<noteq> []"
    using assms unfolding json_laws_def by (blast, metis list.distinct(1))
  with Cons show ?case by (simp add: requests_def splitLines_line toJson_trimmed [OF assms])
qed simp

text \<open>The two ends agree on the framing. JSON objects written one after the other as the server and
  the clients write them, compact with a newline behind each, are taken out of the stream as exactly
  these texts, in order, with nothing left in the buffer but what follows the last newline.\<close>

theorem written_objects_are_requests:
  assumes "json_laws Q" and "10 \<notin> set rest"
  shows "requests (concat (map (\<lambda>ob. toJson Q (JObject ob) @ [10]) obs) @ rest) =
     map (\<lambda>ob. toJson Q (JObject ob)) obs \<and>
     snd (splitLines (concat (map (\<lambda>ob. toJson Q (JObject ob) @ [10]) obs) @ rest)) = rest"
  using requests_written [OF assms(1), of obs rest] splitLines_no_newline [OF assms(2)]
  by (simp add: requests_def)

theorem written_objects_are_requests_witness:
  "requests (toJson ref_qt (JObject []) @ [10] @ toJson ref_qt (JObject []) @ [10, 123]) =
     [toJson ref_qt (JObject []), toJson ref_qt (JObject [])]"
  using written_objects_are_requests [where Q = ref_qt and rest = "[123]" and obs = "[[], []]"] ref_qt_laws
  by (simp add: qt_laws_def)

end
