(* ===== verification/Pairing.thy ===== *)
theory Pairing
  imports ServerFraming
begin

text \<open>
  What the \<open>pair\<close> request and the pairing code promise: which requests pair a device and
  what they change, that the code of a payload pairs one device, and what happens to the code
  after it was used.
\<close>

section \<open>The cases of a pair request\<close>

abbreviation deviceIdOf :: "json_object \<Rightarrow> qstring" where
  "deviceIdOf request \<equiv> toString (jvalue request ''device_id'')"

abbreviation codeOf :: "json_object \<Rightarrow> qstring" where
  "codeOf request \<equiv> toString (jvalue request ''pairing_code'')"

abbreviation signingKeyOf :: "qt \<Rightarrow> json_object \<Rightarrow> bytes" where
  "signingKeyOf Q request \<equiv> unhexText Q (toString (jvalue request ''public_key''))"

abbreviation deviceKeyOf :: "qt \<Rightarrow> json_object \<Rightarrow> bytes" where
  "deviceKeyOf Q request \<equiv> unhexText Q (toString (jvalue request ''x25519_public_key''))"

abbreviation isPairRequest :: "json_object \<Rightarrow> bool" where
  "isPairRequest request \<equiv> toString (jvalue request ''type'') = qs ''pair''"

text \<open>The state after device \<open>d\<close> was paired, and the response it gets.\<close>

definition pairedState :: "qstring \<Rightarrow> bytes \<Rightarrow> bytes \<Rightarrow> server \<Rightarrow> server" where
  "pairedState d signingKey shared s =
     s\<lparr>pairedKeys := (pairedKeys s)(d \<mapsto> signingKey), sessionKeys := (sessionKeys s)(d \<mapsto> shared),
       pairingCode := [],
       outbox := outbox s @ [DeviceChanged d True, LogMessage (qs ''paired device '' @ d)]\<rparr>"

definition pairedReply :: "qt \<Rightarrow> server \<Rightarrow> json_object" where
  "pairedReply Q s = [(qs ''type'', JString (qs ''paired'')), (qs ''accepted'', JBool True),
     (qs ''pc_id'', JString (hexText Q (pcId s)))]"

definition invalidPairing :: json_object where
  "invalidPairing = errorResponse (qs ''pairing code, keys, or pairing window is invalid'')"

text \<open>The conditions the code checks before it derives a key; \<open>now\<close> is its clock reading.\<close>

definition pairable :: "qt \<Rightarrow> json_object \<Rightarrow> server \<Rightarrow> qint64 \<Rightarrow> bool" where
  "pairable Q request s now \<longleftrightarrow>
     deviceIdOf request \<noteq> [] \<and> length (signingKeyOf Q request) = 32 \<and>
     length (deviceKeyOf Q request) = 32 \<and> codeOf request = pairingCode s \<and>
     sint (now - pairingCreatedAt s) \<le> 300"

lemma pairResponse_cases:
  obtains (paired) shared where
      "pairResponse Q L request s e =
         (pairedReply Q s, pairedState (deviceIdOf request) (signingKeyOf Q request) shared s,
          snd (currentSecs e))"
      "pairable Q request s (clock e (ticks e))"
      "fst (x25519SharedSecret L (privateKey (x25519KeyPair s)) (deviceKeyOf Q request)) = shared"
      "length shared = 32"
    | (rejected) message e' where
      "pairResponse Q L request s e = (errorResponse message, s, e')"
      "e' = e \<or> e' = snd (currentSecs e)"
proof (cases "pairable Q request s (clock e (ticks e)) \<and>
    length (fst (x25519SharedSecret L (privateKey (x25519KeyPair s)) (deviceKeyOf Q request))) = 32")
  case True
  then show ?thesis
    by (intro paired [of "fst (x25519SharedSecret L (privateKey (x25519KeyPair s)) (deviceKeyOf Q request))"])
       (auto simp: pairResponse_def pairable_def currentSecs_def Let_def pairedReply_def pairedState_def
          emit_def split: prod.split)
next
  case False
  then have "\<exists>message e'. pairResponse Q L request s e = (errorResponse message, s, e') \<and>
      (e' = e \<or> e' = snd (currentSecs e))"
    by (auto simp: pairResponse_def pairable_def currentSecs_def Let_def split: prod.split)
  then show ?thesis using rejected by blast
qed

lemma pairResponse_accepts:
  assumes "x25519_laws L dh" and "length (privateKey (x25519KeyPair s)) = 32"
    and "pairable Q request s (clock e (ticks e))"
  shows "pairResponse Q L request s e =
     (case dh (privateKey (x25519KeyPair s)) (deviceKeyOf Q request) of
        Some shared \<Rightarrow>
          (pairedReply Q s, pairedState (deviceIdOf request) (signingKeyOf Q request) shared s, snd (currentSecs e))
      | None \<Rightarrow> (errorResponse (qs ''X25519 shared secret derivation failed''), s, snd (currentSecs e)))"
  using assms(2,3) x25519SharedSecret_eq [OF assms(1)]
    x25519SharedSecret_32 [of L "privateKey (x25519KeyPair s)" "deviceKeyOf Q request"]
  by (auto simp: pairResponse_def pairable_def currentSecs_def Let_def pairedReply_def pairedState_def
       emit_def errorText_def split: option.splits)

lemma pairResponse_rejects:
  "\<not> pairable Q request s (clock e (ticks e)) \<Longrightarrow>
   fst (pairResponse Q L request s e) = invalidPairing \<and> fst (snd (pairResponse Q L request s e)) = s"
  by (auto simp: pairResponse_def pairable_def currentSecs_def Let_def invalidPairing_def)

lemma pairedState_simps [simp]:
  "pairedKeys (pairedState d k x s) = (pairedKeys s)(d \<mapsto> k)"
  "sessionKeys (pairedState d k x s) = (sessionKeys s)(d \<mapsto> x)"
  "pairingCode (pairedState d k x s) = []" "pairingCreatedAt (pairedState d k x s) = pairingCreatedAt s"
  "replayGuard (pairedState d k x s) = replayGuard s" "x25519KeyPair (pairedState d k x s) = x25519KeyPair s"
  "port (pairedState d k x s) = port s" "pcId (pairedState d k x s) = pcId s"
  "listening (pairedState d k x s) = listening s" "udpBound (pairedState d k x s) = udpBound s"
  "discoveryTimer (pairedState d k x s) = discoveryTimer s" "buffers (pairedState d k x s) = buffers s"
  by (simp_all add: pairedState_def)

section \<open>What the other requests leave alone\<close>

lemma authorize_keys:
  "authorize Q L d n t sg s e = (ok, err, s', e') \<Longrightarrow> \<exists>g. s' = s\<lparr>replayGuard := g\<rparr>"
  by (auto simp: authorize_def Let_def split: if_splits prod.splits intro: exI [of _ "replayGuard s"])

abbreviation authorizeFields ::
  "qt \<Rightarrow> openssl \<Rightarrow> qstring \<Rightarrow> json_object \<Rightarrow> server \<Rightarrow> env \<Rightarrow> bool \<times> qstring option \<times> server \<times> env" where
  "authorizeFields Q L d p s e \<equiv>
     authorize Q L d (unhexText Q (toString (jvalue p ''nonce''))) (toLongLong Q (jvalue p ''timestamp''))
       (unhexText Q (toString (jvalue p ''signature''))) s e"

definition verdict :: "bool \<Rightarrow> json_object" where
  "verdict ok = [(qs ''type'', JString (qs ''authorized'')), (qs ''authorized'', JBool ok)]"

definition verdictLog :: "qstring \<Rightarrow> bool \<Rightarrow> qstring option \<Rightarrow> event" where
  "verdictLog d ok err = LogMessage (if ok then qs ''device '' @ d @ qs '' authorized''
     else qs ''authorization rejected: '' @ errorText err)"

lemma verifyResponse_eq:
  "authorizeFields Q L d p s e = (ok, err, s', e') \<Longrightarrow>
   verifyResponse Q L d p s e =
     (fst (encryptedResponse Q L d (verdict ok) s' e'), emit (verdictLog d ok err) s',
      snd (encryptedResponse Q L d (verdict ok) s' e'))"
  by (simp add: verifyResponse_def verdict_def verdictLog_def Let_def split: prod.split)

text \<open>Every branch but \<open>pair\<close> changes at most the guard and the outbox.\<close>

lemma respond_not_pair:
  assumes "\<not> isPairRequest request"
  obtains g X where "fst (snd (respond Q L request s e)) = s\<lparr>replayGuard := g, outbox := X\<rparr>"
proof -
  have same: "s = s\<lparr>replayGuard := replayGuard s, outbox := outbox s\<rparr>" by simp
  have "fst (snd (respond Q L request s e)) = s \<or>
      (\<exists>d p. fst (snd (respond Q L request s e)) = fst (snd (verifyResponse Q L d p s e)))"
  proof (cases "decryptRequest Q L request s")
    case (Inl err)
    with assms show ?thesis by (simp add: respond_def)
  next
    case (Inr dp)
    with assms show ?thesis
      by (cases dp) (auto simp: respond_def Let_def split: prod.split)
  qed
  then consider (same) "fst (snd (respond Q L request s e)) = s"
    | (verify) d p where "fst (snd (respond Q L request s e)) = fst (snd (verifyResponse Q L d p s e))"
    by blast
  then show thesis
  proof cases
    case same
    then show ?thesis using that [where g = "replayGuard s" and X = "outbox s"] by simp
  next
    case (verify d p)
    obtain ok err s' e' where a: "authorizeFields Q L d p s e = (ok, err, s', e')"
      by (metis prod_cases4)
    then obtain g where "s' = s\<lparr>replayGuard := g\<rparr>" using authorize_keys by blast
    with verify a show ?thesis
      using that [where g = g] by (simp add: verifyResponse_eq emit_def)
  qed
qed

text \<open>What a handled line does to the keys and the code: nothing, or one pairing.\<close>

lemma processLine_cases:
  obtains (paired) request shared X where "fromJson Q line = Some (JObject request)"
      "isPairRequest request" "pairable Q request s (clock e (ticks e))" "length shared = 32"
      "fst (x25519SharedSecret L (privateKey (x25519KeyPair s)) (deviceKeyOf Q request)) = shared"
      "fst (processLine Q L k line s e) =
         (pairedState (deviceIdOf request) (signingKeyOf Q request) shared s)\<lparr>outbox := X\<rparr>"
    | (other) g X where "fst (processLine Q L k line s e) = s\<lparr>replayGuard := g, outbox := X\<rparr>"
proof (cases "\<exists>request. fromJson Q line = Some (JObject request)")
  case True
  then obtain request where r: "fromJson Q line = Some (JObject request)" by blast
  have out: "fst (processLine Q L k line s e) = (fst (snd (respond Q L request s e)))\<lparr>outbox := X\<rparr>"
    if "X = outbox (fst (processLine Q L k line s e))" for X
    using that by (auto simp: processLine_def r writeLine_def emit_def split: prod.split)
  show ?thesis
  proof (cases "isPairRequest request")
    case True
    then have p: "respond Q L request s e = pairResponse Q L request s e" by (simp add: respond_def)
    show ?thesis
    proof (cases rule: pairResponse_cases [where Q = Q and L = L and request = request and s = s and e = e])
      case (paired shared)
      with r True out [OF refl] p show ?thesis
        by (auto intro: that(1) [of request shared "outbox (fst (processLine Q L k line s e))"])
    next
      case (rejected message e')
      with out [OF refl] p have "fst (processLine Q L k line s e) =
          s\<lparr>replayGuard := replayGuard s, outbox := outbox (fst (processLine Q L k line s e))\<rparr>" by simp
      then show ?thesis by (rule that(2))
    qed
  next
    case False
    then obtain g X where "fst (snd (respond Q L request s e)) = s\<lparr>replayGuard := g, outbox := X\<rparr>"
      by (rule respond_not_pair)
    with out [OF refl] have "fst (processLine Q L k line s e) =
        s\<lparr>replayGuard := g, outbox := outbox (fst (processLine Q L k line s e))\<rparr>" by simp
    then show ?thesis by (rule that(2))
  qed
next
  case False
  then have "fst (processLine Q L k line s e) = writeLine Q k (errorResponse (qs ''invalid JSON request'')) s"
    by (auto simp: processLine_def split: option.split json.split)
  then have "fst (processLine Q L k line s e) =
      s\<lparr>replayGuard := replayGuard s, outbox := outbox (fst (processLine Q L k line s e))\<rparr>"
    by (simp add: writeLine_def emit_def)
  then show ?thesis by (rule that(2))
qed

section \<open>The life of a code\<close>

text \<open>Lines of several connections, in the order the server gets them.\<close>

definition handleAll ::
  "qt \<Rightarrow> openssl \<Rightarrow> (socket \<times> bytes) list \<Rightarrow> server \<times> env \<Rightarrow> server \<times> env" where
  "handleAll Q L = fold (\<lambda>(k, line). handleLine Q L k line)"

lemma processLine_code_empty:
  "pairingCode s = [] \<Longrightarrow> pairingCode (fst (processLine Q L k line s e)) = []"
  by (cases rule: processLine_cases [where Q = Q and L = L and k = k and line = line and s = s and e = e])
     simp_all

lemma handleAll_code_empty:
  "pairingCode (fst st) = [] \<Longrightarrow> pairingCode (fst (handleAll Q L lines st)) = []"
  unfolding handleAll_def
  by (induction lines arbitrary: st) (simp_all add: processLine_code_empty case_prod_beta)

lemma refreshCode_frame [simp]:
  "privateKey (x25519KeyPair (fst (refreshCode Q s e))) = privateKey (x25519KeyPair s)"
  "publicKey (x25519KeyPair (fst (refreshCode Q s e))) = publicKey (x25519KeyPair s)"
  "port (fst (refreshCode Q s e)) = port s" "pcId (fst (refreshCode Q s e)) = pcId s"
  by (simp_all add: refreshCode_def newPairingCode_def Let_def split: prod.split)

lemma refreshCode_not_empty: "pairingCode (fst (refreshCode Q s e)) \<noteq> []"
  by (auto simp: refreshCode_def newPairingCode_def rightJustified_def Let_def split: prod.splits)

lemma flat_payloadObject: "flat_object (payloadObject Q endpoint s)"
  by (simp add: flat_object_def payloadObject_def)

lemma pair_line_accepted:
  assumes "x25519_laws L dh" and "length (privateKey (x25519KeyPair s)) = 32"
    and "fromJson Q line = Some (JObject request)" and "isPairRequest request"
    and "pairable Q request s (clock e (ticks e))"
    and "dh (privateKey (x25519KeyPair s)) (deviceKeyOf Q request) = Some shared"
  shows "processLine Q L k line s e =
    (writeLine Q k (pairedReply Q s) (pairedState (deviceIdOf request) (signingKeyOf Q request) shared s),
     snd (currentSecs e))"
  using pairResponse_accepts [OF assms(1,2,5)] assms(3,4,6) by (simp add: processLine_def respond_def)

section \<open>Properties\<close>

text \<open>C3: whatever line a client sends, and whatever JSON, keys and ciphers do with it, the signing
  and session keys and the pairing code stay as they are, unless the line is a \<open>pair\<close> request with
  a device id, two 32-byte keys and the current code at most 300 seconds after its creation. Then
  exactly the entries of that device change, to its signing key and the derived 32-byte secret, and
  the code is cleared.\<close>

theorem keys_change_only_by_pairing:
  "let s' = fst (processLine Q L k line s e) in
     (pairedKeys s' = pairedKeys s \<and> sessionKeys s' = sessionKeys s \<and> pairingCode s' = pairingCode s) \<or>
     (\<exists>request shared. fromJson Q line = Some (JObject request) \<and> isPairRequest request \<and>
        pairable Q request s (clock e (ticks e)) \<and>
        fst (x25519SharedSecret L (privateKey (x25519KeyPair s)) (deviceKeyOf Q request)) = shared \<and>
        length shared = 32 \<and>
        pairedKeys s' = (pairedKeys s)(deviceIdOf request \<mapsto> signingKeyOf Q request) \<and>
        sessionKeys s' = (sessionKeys s)(deviceIdOf request \<mapsto> shared) \<and> pairingCode s' = [])"
  by (cases rule: processLine_cases [where Q = Q and L = L and k = k and line = line and s = s and e = e])
     (auto simp: Let_def)

text \<open>The pairing ceremony works. What \<open>pairingPayload\<close> returns is JSON from which a scanner
  reads the workstation's X25519 key, its port and a non-empty code; a \<open>pair\<close> request with that
  code, a device id and two 32-byte keys, processed at most 300 seconds after the code was
  created, is answered with \<open>paired\<close> and installs the signing key and the X25519 secret of the
  device's key and the workstation's private key, if there is one: the key may be of small order.\<close>

theorem payload_pairs_device:
  assumes "qt_laws Q" and "x25519_laws L dh" and "length (privateKey (x25519KeyPair s)) = 32"
    and "pairingPayload Q host addresses s e = (payload, s1, e1)"
    and "sint (clock e1 (ticks e1) - pairingCreatedAt s1) \<le> 300"
  shows "\<exists>scanned. fromJson Q payload = Some (JObject scanned) \<and>
     unhexText Q (toString (jvalue scanned ''x25519_public_key'')) = publicKey (x25519KeyPair s) \<and>
     jvalue scanned ''host'' = JString (chooseEndpoint host addresses) \<and>
     jvalue scanned ''port'' = JInteger (ucast (port s)) \<and>
     codeOf scanned = pairingCode s1 \<and> codeOf scanned \<noteq> [] \<and>
     (\<forall>line request k shared. fromJson Q line = Some (JObject request) \<and> isPairRequest request \<and>
        codeOf request = codeOf scanned \<and> deviceIdOf request \<noteq> [] \<and>
        length (signingKeyOf Q request) = 32 \<and> length (deviceKeyOf Q request) = 32 \<and>
        dh (privateKey (x25519KeyPair s)) (deviceKeyOf Q request) = Some shared \<longrightarrow>
        processLine Q L k line s1 e1 =
          (writeLine Q k (pairedReply Q s1)
             (pairedState (deviceIdOf request) (signingKeyOf Q request) shared s1),
           snd (currentSecs e1)))"
proof -
  have laws: "json_laws Q" "hex_laws Q" using assms(1) by (simp_all add: qt_laws_def)
  have r: "refreshCode Q s e = (s1, e1)"
    and payload: "payload = toJson Q (JObject (payloadObject Q (chooseEndpoint host addresses) s1))"
    using assms(4) by (auto simp: pairingPayload_def Let_def split: prod.splits)
  have s1: "privateKey (x25519KeyPair s1) = privateKey (x25519KeyPair s)"
      "publicKey (x25519KeyPair s1) = publicKey (x25519KeyPair s)" "port s1 = port s"
      "pairingCode s1 \<noteq> []"
    using refreshCode_frame [of Q s e] refreshCode_not_empty [of Q s e] by (simp_all add: r)
  obtain scanned where scanned: "fromJson Q payload = Some (JObject scanned)"
      "\<And>key. jvalue scanned key = jvalue (payloadObject Q (chooseEndpoint host addresses) s1) key"
    using json_roundtrip [OF laws(1) flat_payloadObject] unfolding payload by blast
  have "processLine Q L k line s1 e1 =
      (writeLine Q k (pairedReply Q s1)
         (pairedState (deviceIdOf request) (signingKeyOf Q request) shared s1),
       snd (currentSecs e1))"
    if "fromJson Q line = Some (JObject request) \<and> isPairRequest request \<and>
        codeOf request = codeOf scanned \<and> deviceIdOf request \<noteq> [] \<and>
        length (signingKeyOf Q request) = 32 \<and> length (deviceKeyOf Q request) = 32 \<and>
        dh (privateKey (x25519KeyPair s)) (deviceKeyOf Q request) = Some shared" for line request k shared
    using pair_line_accepted [OF assms(2), of s1 Q line request e1 shared k] that assms(3,5)
    by (simp add: s1 scanned(2) payloadObject_def pairable_def)
  then show ?thesis
    using scanned by (auto simp: s1 payloadObject_def hex_field.dec_enc [OF laws(2)])
qed

text \<open>A desk that was just constructed, and a phone with fixed keys.\<close>

definition desk :: server where
  "desk = fst (newServer ref_qt ref_ssl quietEnv)"

definition phoneRequest :: "qstring \<Rightarrow> json_object" where
  "phoneRequest code =
     [(qs ''type'', JString (qs ''pair'')), (qs ''device_id'', JString (qs ''phone'')),
      (qs ''public_key'', JString (hexText ref_qt (replicate 32 1))),
      (qs ''x25519_public_key'', JString (hexText ref_qt (replicate 32 2))),
      (qs ''pairing_code'', JString code)]"

lemma ref_laws: "json_laws ref_qt" "hex_laws ref_qt" "number_laws ref_qt"
  using ref_qt_laws by (simp_all add: qt_laws_def)

lemma fromJson_ref_qt:
  "flat_object ob \<Longrightarrow> fromJson ref_qt (toJson ref_qt (JObject ob)) = Some (JObject ob)"
  using ref_json_roundtrip by (simp add: ref_qt_def)

lemma phoneRequest_fields:
  "fromJson ref_qt (toJson ref_qt (JObject (phoneRequest code))) = Some (JObject (phoneRequest code))"
  "isPairRequest (phoneRequest code)" "deviceIdOf (phoneRequest code) = qs ''phone''"
  "codeOf (phoneRequest code) = code" "signingKeyOf ref_qt (phoneRequest code) = replicate 32 1"
  "deviceKeyOf ref_qt (phoneRequest code) = replicate 32 2"
  by (rule fromJson_ref_qt)
     (simp_all add: phoneRequest_def flat_object_def hex_field.dec_enc [OF ref_laws(2)])

lemma desk_facts:
  "length (privateKey (x25519KeyPair desk)) = 32" "pairingCode desk = []" "pairingCreatedAt desk = 0"
  by (simp_all add: desk_def newServer_def Let_def generateX25519KeyPair_def evp_step_def ref_ssl_def
       ref_evp_def ref_evp_raw_def split: prod.split)

theorem payload_pairs_device_witness:
  "let (payload, s1, e1) = pairingPayload ref_qt [] [] desk quietEnv;
       line = toJson ref_qt (JObject (phoneRequest (pairingCode s1)));
       s2 = fst (processLine ref_qt ref_ssl 7 line s1 e1)
   in pairedKeys s2 (qs ''phone'') = Some (replicate 32 1) \<and>
      sessionKeys s2 (qs ''phone'') = Some (ref_dh (privateKey (x25519KeyPair desk)) (replicate 32 2))"
proof -
  obtain payload s1 e1 where p: "pairingPayload ref_qt [] [] desk quietEnv = (payload, s1, e1)"
    by (metis prod_cases3)
  have "clock e1 = (\<lambda>_. 1000)" "pairingCreatedAt s1 = 1000"
    using p by (auto simp: pairingPayload_def refreshCode_def desk_facts newPairingCode_def generate64_def
        currentSecs_def quietEnv_def Let_def)
  then have "sint (clock e1 (ticks e1) - pairingCreatedAt s1) \<le> 300" by simp
  from payload_pairs_device [where L = ref_ssl, OF ref_qt_laws ref_x25519_laws desk_facts(1) p this]
  show ?thesis
    by (auto simp: p phoneRequest_fields ref_agree_def
        dest!: spec [where x = "toJson ref_qt (JObject (phoneRequest (pairingCode s1)))"]
          spec [where x = "phoneRequest (pairingCode s1)"])
qed

text \<open>C8: a code pairs one device. After a \<open>pair\<close> request was accepted, and whatever lines any
  connections send in between, every \<open>pair\<close> request that carries a code is refused and changes
  nothing, until \<open>pairingPayload\<close> or \<open>start\<close> draws a new code.\<close>

theorem code_pairs_once:
  assumes "isPairRequest first" and "respond Q L first s e = (pairedReply Q s, s1, e1)"
    and "handleAll Q L lines (s1, e1) = (s2, e2)"
    and "isPairRequest second" and "codeOf second \<noteq> []"
  shows "fst (respond Q L second s2 e2) = invalidPairing \<and> fst (snd (respond Q L second s2 e2)) = s2"
proof -
  have "pairingCode s1 = []"
    using assms(1,2)
    by (cases rule: pairResponse_cases [where Q = Q and L = L and request = first and s = s and e = e])
       (auto simp: respond_def errorResponse_def pairedReply_def)
  then have "pairingCode s2 = []"
    using handleAll_code_empty [of "(s1, e1)" Q L lines] assms(3) by simp
  with assms(5) have "\<not> pairable Q second s2 (clock e2 (ticks e2))" by (simp add: pairable_def)
  from pairResponse_rejects [OF this] assms(4) show ?thesis by (simp add: respond_def)
qed

text \<open>A desk that shows a code.\<close>

definition openDesk :: server where
  "openDesk = desk\<lparr>pairingCode := qs ''17'', pairingCreatedAt := 900\<rparr>"

lemma openDesk_pairs:
  "respond ref_qt ref_ssl (phoneRequest (qs ''17'')) openDesk quietEnv =
     (pairedReply ref_qt openDesk,
      pairedState (qs ''phone'') (replicate 32 1)
        (ref_dh (privateKey (x25519KeyPair openDesk)) (replicate 32 2)) openDesk,
      snd (currentSecs quietEnv))"
proof -
  have "pairable ref_qt (phoneRequest (qs ''17'')) openDesk (clock quietEnv (ticks quietEnv))"
    by (simp add: pairable_def phoneRequest_fields openDesk_def quietEnv_def)
  from pairResponse_accepts [OF ref_x25519_laws _ this] show ?thesis
    by (simp add: respond_def phoneRequest_fields ref_agree_def) (simp add: openDesk_def desk_facts)
qed

theorem code_pairs_once_witness:
  "fst (respond ref_qt ref_ssl (phoneRequest (qs ''17''))
      (fst (snd (respond ref_qt ref_ssl (phoneRequest (qs ''17'')) openDesk quietEnv)))
      (snd (snd (respond ref_qt ref_ssl (phoneRequest (qs ''17'')) openDesk quietEnv)))) = invalidPairing"
  using code_pairs_once [OF phoneRequest_fields(2) openDesk_pairs, where lines = "[]",
      OF _ phoneRequest_fields(2), of _ _ "qs ''17''"]
  by (simp add: openDesk_pairs phoneRequest_fields handleAll_def)

text \<open>C9: the used code is cleared to the empty text, which the comparison accepts like any other:
  directly after a device was paired, and while the 300 seconds of its code last, a \<open>pair\<close> request
  without any \<open>pairing_code\<close> installs the keys of whoever sends it. It is refused, with the message of
  the derivation and without any change, only if its X25519 key yields no secret, as one of small order.\<close>

theorem second_device_needs_no_code:
  assumes "x25519_laws L dh" and "length (privateKey (x25519KeyPair s)) = 32"
    and "isPairRequest first" and "respond Q L first s e = (pairedReply Q s, s1, e1)"
    and "isPairRequest second" and "jvalue second ''pairing_code'' = JUndefined"
    and "deviceIdOf second \<noteq> []" and "length (signingKeyOf Q second) = 32"
    and "length (deviceKeyOf Q second) = 32"
    and "sint (clock e1 (ticks e1) - pairingCreatedAt s) \<le> 300"
  shows "respond Q L second s1 e1 =
    (case dh (privateKey (x25519KeyPair s)) (deviceKeyOf Q second) of
       Some shared \<Rightarrow>
         (pairedReply Q s1, pairedState (deviceIdOf second) (signingKeyOf Q second) shared s1, snd (currentSecs e1))
     | None \<Rightarrow> (errorResponse (qs ''X25519 shared secret derivation failed''), s1, snd (currentSecs e1)))"
proof -
  have "pairingCode s1 = [] \<and> pairingCreatedAt s1 = pairingCreatedAt s \<and> x25519KeyPair s1 = x25519KeyPair s"
    using assms(3,4)
    by (cases rule: pairResponse_cases [where Q = Q and L = L and request = first and s = s and e = e])
       (auto simp: respond_def errorResponse_def pairedReply_def)
  then have "pairable Q second s1 (clock e1 (ticks e1))"
      and "length (privateKey (x25519KeyPair s1)) = 32" and "x25519KeyPair s1 = x25519KeyPair s"
    using assms by (simp_all add: pairable_def)
  with pairResponse_accepts [OF assms(1)] assms(5) show ?thesis by (simp add: respond_def)
qed

definition strangerRequest :: json_object where
  "strangerRequest =
     [(qs ''type'', JString (qs ''pair'')), (qs ''device_id'', JString (qs ''stranger'')),
      (qs ''public_key'', JString (hexText ref_qt (replicate 32 3))),
      (qs ''x25519_public_key'', JString (hexText ref_qt (replicate 32 4)))]"

theorem second_device_needs_no_code_witness:
  "pairedKeys (fst (snd (respond ref_qt ref_ssl strangerRequest
      (fst (snd (respond ref_qt ref_ssl (phoneRequest (qs ''17'')) openDesk quietEnv)))
      (snd (snd (respond ref_qt ref_ssl (phoneRequest (qs ''17'')) openDesk quietEnv))))))
     (qs ''stranger'') = Some (replicate 32 3)"
proof -
  have key: "length (privateKey (x25519KeyPair openDesk)) = 32"
    by (simp add: openDesk_def desk_facts)
  have time: "sint (clock (snd (currentSecs quietEnv)) (ticks (snd (currentSecs quietEnv))) -
      pairingCreatedAt openDesk) \<le> 300"
    by (simp add: env_simps) (simp add: quietEnv_def openDesk_def)
  have fields: "isPairRequest strangerRequest" "jvalue strangerRequest ''pairing_code'' = JUndefined"
    "deviceIdOf strangerRequest = qs ''stranger''" "signingKeyOf ref_qt strangerRequest = replicate 32 3"
    "deviceKeyOf ref_qt strangerRequest = replicate 32 4"
    by (simp_all add: strangerRequest_def hex_field.dec_enc [OF ref_laws(2)])
  show ?thesis
    using second_device_needs_no_code
      [OF ref_x25519_laws key phoneRequest_fields(2) openDesk_pairs fields(1,2) _ _ _ time]
    by (simp add: fields openDesk_pairs ref_agree_def)
qed

end
