(* ===== verification/Authorization.thy ===== *)
theory Authorization
  imports Pairing
begin

text \<open>
  What the \<open>challenge\<close> and \<open>verify\<close> requests promise: who can obtain the answer
  \<open>authorized\<close>, that an honest device obtains it, what a client without keys can do to the
  server, and the shape of the answers on the wire.
\<close>

section \<open>Envelopes on the wire\<close>

text \<open>Every session key the server holds is an AES-256 key.\<close>

definition keys_ok :: "server \<Rightarrow> bool" where
  "keys_ok s \<longleftrightarrow> (\<forall>d key. sessionKeys s d = Some key \<longrightarrow> length key = 32)"

lemma toJson_not_empty: "json_laws Q \<Longrightarrow> toJson Q (JObject ob) \<noteq> []"
  unfolding json_laws_def by (metis list.distinct(1))

lemma flat_secureEnvelope: "flat_object (secureEnvelope Q d nonce ct)"
  by (simp add: flat_object_def secureEnvelope_def)

text \<open>A text of an object sealed under the device's session key opens to that object.\<close>

lemma sealed_text_opens:
  assumes L: "gcm_laws L G" and key: "sessionKeys s d = Some key" "length key = 32"
    and iv: "12 \<le> length iv" and m: "m \<noteq> []" "fromJson Q m = Some (JObject p)"
    and f: "envelopeFields Q ob d iv (seals L key iv (toUtf8 Q d) m)"
  shows "decryptRequest Q L ob s = Inr (d, p)"
proof -
  have "gcm_ready L G key iv" using L key iv by (simp add: gcm_ready_def)
  then have "opens L key iv (toUtf8 Q d) (seals L key iv (toUtf8 Q d) m) = Some m"
    by (rule aead.unseal_seal) simp
  then have "decryptAes256Gcm L key iv (seals L key iv (toUtf8 Q d) m) (toUtf8 Q d) = (m, None)"
    by (simp add: opens_Some_iff)
  then show ?thesis using m by (simp add: decryptRequest_fields [OF f key(1)])
qed

lemma sealed_object_opens:
  assumes Q: "qt_laws Q" and L: "gcm_laws L G" and key: "sessionKeys s d = Some key" "length key = 32"
    and iv: "12 \<le> length iv" and flat: "flat_object p"
    and f: "envelopeFields Q ob d iv (seals L key iv (toUtf8 Q d) (toJson Q (JObject p)))"
  obtains p' where "decryptRequest Q L ob s = Inr (d, p')" "\<And>name. jvalue p' name = jvalue p name"
proof -
  have J: "json_laws Q" using Q by (simp add: qt_laws_def)
  obtain p' where "fromJson Q (toJson Q (JObject p)) = Some (JObject p')"
      "\<And>name. jvalue p' name = jvalue p name" using json_roundtrip [OF J flat] by blast
  then show thesis
    using that [of p'] sealed_text_opens [OF L key iv toJson_not_empty [OF J] _ f] by simp
qed

lemma response_opens:
  assumes Q: "qt_laws Q" and L: "gcm_laws L G" and key: "sessionKeys s d = Some key" "length key = 32"
    and flat: "flat_object p"
    and same: "\<And>name. jvalue ob name = jvalue (fst (encryptedResponse Q L d p s e)) name"
  obtains p' where "decryptRequest Q L ob s = Inr (d, p')" "\<And>name. jvalue p' name = jvalue p name"
proof -
  have laws: "number_laws Q" "hex_laws Q" using Q by (simp_all add: qt_laws_def)
  let ?n = "fst (fillRandom Q 12 e)"
  have "fst (encryptedResponse Q L d p s e) =
      secureEnvelope Q d ?n (seals L key ?n (toUtf8 Q d) (toJson Q (JObject p)))"
    by (simp add: encryptedResponse_eq [OF L laws(1) key] Let_def)
  then have "envelopeFields Q ob d ?n (seals L key ?n (toUtf8 Q d) (toJson Q (JObject p)))"
    using same envelopeFields_secureEnvelope [OF laws(2)] envelopeFields_cong by metis
  moreover have "12 \<le> length ?n" by (simp add: length_fillRandom [OF laws(1)])
  ultimately show thesis using sealed_object_opens [OF Q L key _ flat] that by blast
qed

lemma flat_payloads:
  "flat_object (verdict ok)" "flat_object (errorResponse m)" "flat_object (pairedReply Q s)"
  "flat_object [(qs ''type'', JString (qs ''challenge'')), (qs ''challenge_id'', JString a),
     (qs ''nonce'', JString b), (qs ''timestamp'', JInteger t)]"
  by (simp_all add: flat_object_def verdict_def errorResponse_def pairedReply_def)

text \<open>The object of a response that is not sealed does not open.\<close>

lemma plain_does_not_open:
  "decryptRequest Q L (errorResponse m) s = Inl (qs ''unencrypted requests are not accepted'')"
  "decryptRequest Q L (pairedReply Q t) s = Inl (qs ''unencrypted requests are not accepted'')"
  by (simp_all add: decryptRequest_def errorResponse_def pairedReply_def)

section \<open>The decision\<close>

lemma authorize_eq:
  "authorize Q L d n t sg s e =
     (case pairedKeys s d of None \<Rightarrow> (False, None, s, e)
      | Some pk \<Rightarrow>
         (let (accepted, g, e') = accept Q n t (replayGuard s) e in
          if accepted
          then (fst (verifyEd25519 L pk (n @ timestampBytes t) sg),
                snd (verifyEd25519 L pk (n @ timestampBytes t) sg), s\<lparr>replayGuard := g\<rparr>, e')
          else (False, None, s\<lparr>replayGuard := g\<rparr>, e')))"
  by (auto simp: authorize_def hashValue_def Let_def split: option.split prod.split)

text \<open>The specification of a positive decision.\<close>

definition maySign :: "(bytes \<Rightarrow> bytes \<Rightarrow> bytes \<Rightarrow> bool) \<Rightarrow> qt \<Rightarrow> server \<Rightarrow> env \<Rightarrow> qstring \<Rightarrow>
    bytes \<Rightarrow> qint64 \<Rightarrow> bytes \<Rightarrow> bool" where
  "maySign valid Q s e d nonce timestamp signature \<longleftrightarrow>
     (\<exists>pk. pairedKeys s d = Some pk \<and> length pk = 32 \<and> length signature = 64 \<and>
        valid pk (nonce @ timestampBytes timestamp) signature \<and> nonce \<noteq> [] \<and>
        isFreshTimestamp timestamp (clock e (ticks e)) \<and>
        (replayToken Q nonce timestamp \<in> seen (replayGuard s) \<longrightarrow>
           sint (clock e (Suc (ticks e)) - lastCleanup (replayGuard s)) > 60))"

lemma authorize_iff:
  assumes "ed25519_laws L valid"
  shows "fst (authorize Q L d n t sg s e) \<longleftrightarrow> maySign valid Q s e d n t sg"
proof (cases "pairedKeys s d")
  case None
  then show ?thesis by (simp add: authorize_eq maySign_def)
next
  case (Some pk)
  have "fst (authorize Q L d n t sg s e) \<longleftrightarrow>
      fst (accept Q n t (replayGuard s) e) \<and> fst (verifyEd25519 L pk (n @ timestampBytes t) sg)"
    by (simp add: authorize_eq Some split: prod.split)
  then show ?thesis
    by (auto simp: accept_verdict verifyEd25519_eq [OF assms] maySign_def Some)
qed

text \<open>How a response can open to \<open>authorized: true\<close>: only from the \<open>verify\<close> branch.\<close>

lemma respond_sealed_cases:
  assumes "decryptRequest Q L request s = Inr (d, p)" and "\<not> isPairRequest request"
  obtains (sealed) payload e2 where "fst (respond Q L request s e) = fst (encryptedResponse Q L d payload s e2)"
      "flat_object payload" "jvalue payload ''authorized'' = JUndefined"
    | (verify) ok err s' e' where "toString (jvalue p ''type'') = qs ''verify''"
      "authorizeFields Q L d p s e = (ok, err, s', e')"
      "respond Q L request s e =
         (fst (encryptedResponse Q L d (verdict ok) s' e'), emit (verdictLog d ok err) s',
          snd (encryptedResponse Q L d (verdict ok) s' e'))"
proof -
  let ?kind = "toString (jvalue p ''type'')"
  consider "?kind = qs ''challenge''" | "?kind = qs ''verify''"
    | "?kind \<noteq> qs ''challenge''" "?kind \<noteq> qs ''verify''" by blast
  then show thesis
  proof cases
    case 1
    obtain nonce e1 where n: "fillRandom Q 32 e = (nonce, e1)" by fastforce
    let ?payload = "[(qs ''type'', JString (qs ''challenge'')), (qs ''challenge_id'', JString (hexText Q nonce)),
      (qs ''nonce'', JString (hexText Q nonce)), (qs ''timestamp'', JInteger (clock e1 (ticks e1)))]"
    have "fst (respond Q L request s e) = fst (encryptedResponse Q L d ?payload s (snd (currentSecs e1)))"
      using 1 assms by (simp add: respond_def challengeResponse_def n currentSecs_def Let_def split: prod.split)
    then show ?thesis by (rule sealed) (simp_all add: flat_payloads)
  next
    case 2
    obtain ok err s' e' where a: "authorizeFields Q L d p s e = (ok, err, s', e')"
      by (metis prod_cases4)
    have "respond Q L request s e = verifyResponse Q L d p s e"
      using 2 assms by (simp add: respond_def Let_def)
    with 2 a show ?thesis by (intro verify [OF _ a]) (simp_all add: verifyResponse_eq [OF a])
  next
    case 3
    have "fst (respond Q L request s e) =
        fst (encryptedResponse Q L d (errorResponse (qs ''unsupported request type'')) s e)"
      using 3 assms by (simp add: respond_def Let_def split: prod.split)
    then show ?thesis by (rule sealed) (rule flat_payloads, simp add: errorResponse_def)
  qed
qed

lemma decryptRequest_guard [frame_simps]:
  "decryptRequest Q L ob (s\<lparr>replayGuard := g, outbox := X\<rparr>) = decryptRequest Q L ob s"
  "decryptRequest Q L ob (s\<lparr>replayGuard := g\<rparr>) = decryptRequest Q L ob s"
  by (simp_all add: decryptRequest_def Let_def)

lemma flat_response: "flat_object (fst (respond Q L request s e))"
proof -
  have enc: "flat_object (fst (encryptedResponse Q L d p s e))" for d p s e
    by (simp add: encryptedResponse_def Let_def flat_secureEnvelope flat_payloads split: prod.split)
  show ?thesis
  proof (cases "isPairRequest request")
    case True
    then have "respond Q L request s e = pairResponse Q L request s e" by (simp add: respond_def)
    then show ?thesis
      by (cases rule: pairResponse_cases [where Q = Q and L = L and request = request and s = s and e = e])
         (simp_all add: flat_payloads)
  next
    case False
    show ?thesis
    proof (cases "decryptRequest Q L request s")
      case (Inl err)
      with False show ?thesis by (simp add: respond_def flat_payloads)
    next
      case (Inr dp)
      obtain d p where dp: "decryptRequest Q L request s = Inr (d, p)" using Inr by (cases dp) simp
      show ?thesis
        using dp False by (cases rule: respond_sealed_cases [where e = e]) (simp_all add: enc)
    qed
  qed
qed

text \<open>What a request that opened to a \<open>verify\<close> object is answered.\<close>

lemma verify_response:
  assumes E: "ed25519_laws L valid" and dec: "decryptRequest Q L request s = Inr (d, p)"
    and nopair: "\<not> isPairRequest request" and type: "toString (jvalue p ''type'') = qs ''verify''"
    and r: "respond Q L request s e = (response, s', e')"
  obtains e1 log g where
    "response = fst (encryptedResponse Q L d (verdict (maySign valid Q s e d (unhexText Q (toString (jvalue p ''nonce'')))
       (toLongLong Q (jvalue p ''timestamp'')) (unhexText Q (toString (jvalue p ''signature''))))) s e1)"
    "s' = emit log (s\<lparr>replayGuard := g\<rparr>)"
proof -
  obtain ok err s1 e1 where a: "authorizeFields Q L d p s e = (ok, err, s1, e1)"
    by (metis prod_cases4)
  obtain g where s1: "s1 = s\<lparr>replayGuard := g\<rparr>" using authorize_keys [OF a] by blast
  have "respond Q L request s e = verifyResponse Q L d p s e"
    using dec type nopair by (simp add: respond_def Let_def)
  then have out: "response = fst (encryptedResponse Q L d (verdict ok) s e1)"
      "s' = emit (verdictLog d ok err) (s\<lparr>replayGuard := g\<rparr>)"
    using r by (simp_all add: verifyResponse_eq [OF a] s1 frame_simps)
  have "ok = maySign valid Q s e d (unhexText Q (toString (jvalue p ''nonce'')))
      (toLongLong Q (jvalue p ''timestamp'')) (unhexText Q (toString (jvalue p ''signature'')))"
    using authorize_iff [OF E, of Q d _ _ _ s e] a by (metis fst_conv)
  with out that show thesis by blast
qed

lemma verify_answer:
  assumes Q: "qt_laws Q" and L: "gcm_laws L G" and E: "ed25519_laws L valid"
    and key: "sessionKeys s d = Some key" "length key = 32" and iv: "12 \<le> length iv"
    and p: "flat_object p" "toString (jvalue p ''type'') = qs ''verify''"
    and f: "envelopeFields Q request d iv (fst (encryptAes256Gcm L key iv (toJson Q (JObject p)) (toUtf8 Q d)))"
    and r: "respond Q L request s e = (response, s', e')"
  obtains received reply where "fromJson Q (toJson Q (JObject response)) = Some (JObject received)"
    "decryptRequest Q L received s' = Inr (d, reply)"
    "jvalue reply ''authorized'' = JBool (maySign valid Q s e d (unhexText Q (toString (jvalue p ''nonce'')))
       (toLongLong Q (jvalue p ''timestamp'')) (unhexText Q (toString (jvalue p ''signature''))))"
proof -
  have J: "json_laws Q" using Q by (simp add: qt_laws_def)
  have nopair: "\<not> isPairRequest request" using f by (simp add: envelopeFields_def)
  obtain p' where p': "decryptRequest Q L request s = Inr (d, p')" "\<And>name. jvalue p' name = jvalue p name"
    using sealed_object_opens [OF Q L key iv p(1) f [folded seals_def]] by blast
  have type: "toString (jvalue p' ''type'') = qs ''verify''" by (simp add: p'(2) p(2))
  define ok where "ok = maySign valid Q s e d (unhexText Q (toString (jvalue p ''nonce'')))
       (toLongLong Q (jvalue p ''timestamp'')) (unhexText Q (toString (jvalue p ''signature'')))"
  obtain e1 log g where out: "response = fst (encryptedResponse Q L d (verdict ok) s e1)"
      "s' = emit log (s\<lparr>replayGuard := g\<rparr>)"
    by (rule verify_response [OF E p'(1) nopair type r]) (simp add: p'(2) ok_def)
  have "flat_object response" using flat_response [of Q L request s e] by (simp add: r)
  then obtain received where rec: "fromJson Q (toJson Q (JObject response)) = Some (JObject received)"
      "\<And>name. jvalue received name = jvalue response name"
    using json_roundtrip [OF J] by blast
  obtain reply where reply: "decryptRequest Q L received s = Inr (d, reply)"
      "\<And>name. jvalue reply name = jvalue (verdict ok) name"
    by (rule response_opens [OF Q L key flat_payloads(1) [of ok], where e = e1 and ob = received])
       (simp_all add: rec(2) out(1))
  have "decryptRequest Q L received s' = Inr (d, reply)"
    using reply(1) by (simp add: out(2) emit_def frame_simps)
  then show thesis using that rec(1) reply(2) by (simp add: verdict_def ok_def)
qed

section \<open>A paired desk\<close>

text \<open>Concrete data for the witnesses: a desk that has paired a phone, and a signed request.\<close>

definition pairedDesk :: server where
  "pairedDesk = pairedState (qs ''phone'') (replicate 32 1) (replicate 32 5) openDesk"

definition verifyPayload :: "bytes \<Rightarrow> json_object" where
  "verifyPayload signature =
     [(qs ''type'', JString (qs ''verify'')), (qs ''nonce'', JString (hexText ref_qt [8, 9])),
      (qs ''timestamp'', JInteger 1000), (qs ''signature'', JString (hexText ref_qt signature))]"

definition sealedRequest :: "bytes \<Rightarrow> json_object \<Rightarrow> json_object" where
  "sealedRequest key p = secureEnvelope ref_qt (qs ''phone'') (replicate 12 6)
     (fst (encryptAes256Gcm ref_ssl key (replicate 12 6) (toJson ref_qt (JObject p))
        (toUtf8 ref_qt (qs ''phone''))))"

definition goodSignature :: bytes where
  "goodSignature = replicate 32 1 @ sum_list ([8, 9] @ timestampBytes 1000) # replicate 31 0"

lemma pairedDesk_keys:
  "sessionKeys pairedDesk (qs ''phone'') = Some (replicate 32 5)" "keys_ok pairedDesk"
  "pairedKeys pairedDesk (qs ''phone'') = Some (replicate 32 1)" "replayGuard pairedDesk = newReplayGuard"
  by (simp_all add: pairedDesk_def openDesk_def desk_def newServer_def keys_ok_def Let_def split: prod.split)

lemma verifyPayload_fields:
  "flat_object (verifyPayload sg)" "toString (jvalue (verifyPayload sg) ''type'') = qs ''verify''"
  "unhexText ref_qt (toString (jvalue (verifyPayload sg) ''nonce'')) = [8, 9]"
  "toLongLong ref_qt (jvalue (verifyPayload sg) ''timestamp'') = 1000"
  "unhexText ref_qt (toString (jvalue (verifyPayload sg) ''signature'')) = sg"
  by (simp_all add: verifyPayload_def flat_object_def hex_field.dec_enc [OF ref_laws(2)])
     (simp add: ref_qt_def)

lemma sealedRequest_fields:
  "envelopeFields ref_qt (sealedRequest key p) (qs ''phone'') (replicate 12 6)
     (fst (encryptAes256Gcm ref_ssl key (replicate 12 6) (toJson ref_qt (JObject p))
        (toUtf8 ref_qt (qs ''phone''))))"
  unfolding sealedRequest_def by (rule envelopeFields_secureEnvelope [OF ref_laws(2)])

lemma maySign_good:
  "pairedKeys s (qs ''phone'') = Some (replicate 32 1) \<Longrightarrow> replayGuard s = newReplayGuard \<Longrightarrow>
   clock e (ticks e) = 1000 \<Longrightarrow>
   maySign ref_valid ref_qt s e (qs ''phone'') [8, 9] 1000 goodSignature"
  by (simp add: maySign_def goodSignature_def ref_valid_def newReplayGuard_def isFreshTimestamp_def qAbs_def)

lemma maySign_goodSignature:
  "maySign ref_valid ref_qt pairedDesk quietEnv (qs ''phone'') [8, 9] 1000 goodSignature"
  by (rule maySign_good) (simp_all add: pairedDesk_keys quietEnv_def)

section \<open>Properties\<close>

text \<open>C2: nobody is told \<open>authorized\<close> without a signature. If the answer the server writes for a
  request, parsed and opened with the session key, says \<open>authorized: true\<close>, then the request was an
  envelope of that same device that opens under its session key (for a nonce of 12 bytes or more:
  that is the sealing of its plaintext under this key), of type \<open>verify\<close>, and it carries a 64-byte
  Ed25519 signature, valid under the signing key the device was paired with, of its nonce followed by
  its big-endian timestamp; the timestamp is fresh and the replay guard did not hold the pair.\<close>

theorem authorized_only_by_signature:
  assumes "qt_laws Q" and "gcm_laws L G" and "ed25519_laws L valid" and "keys_ok s"
    and "respond Q L request s e = (response, s', e')"
    and "fromJson Q (toJson Q (JObject response)) = Some (JObject received)"
    and "decryptRequest Q L received s' = Inr (d, reply)"
    and "jvalue reply ''authorized'' = JBool True"
  shows "\<exists>key iv ct plaintext p.
     sessionKeys s d = Some key \<and> envelopeFields Q request d iv ct \<and>
     decryptAes256Gcm L key iv ct (toUtf8 Q d) = (plaintext, None) \<and>
     (12 \<le> length iv \<longrightarrow> ct = fst (encryptAes256Gcm L key iv plaintext (toUtf8 Q d))) \<and>
     fromJson Q plaintext = Some (JObject p) \<and> toString (jvalue p ''type'') = qs ''verify'' \<and>
     maySign valid Q s e d (unhexText Q (toString (jvalue p ''nonce'')))
       (toLongLong Q (jvalue p ''timestamp'')) (unhexText Q (toString (jvalue p ''signature'')))"
proof -
  have J: "json_laws Q" using assms(1) by (simp add: qt_laws_def)
  have resp: "response = fst (respond Q L request s e)" by (simp add: assms(5))
  have "flat_object response" unfolding resp by (rule flat_response)
  then have same: "jvalue received name = jvalue response name" for name
    using json_roundtrip [OF J, of response] assms(6) by auto
  have nopair: "\<not> isPairRequest request"
  proof
    assume "isPairRequest request"
    then have "\<exists>m. response = pairedReply Q s \<or> response = errorResponse m" unfolding resp
      by (cases rule: pairResponse_cases [where Q = Q and L = L and request = request and s = s and e = e])
         (auto simp: respond_def)
    then have "toString (jvalue received ''type'') \<noteq> qs ''secure''"
      by (auto simp: same pairedReply_def errorResponse_def)
    then show False using assms(7) by (simp add: decryptRequest_def)
  qed
  then obtain g X where s': "s' = s\<lparr>replayGuard := g, outbox := X\<rparr>"
    by (rule respond_not_pair [where Q = Q and L = L and s = s and e = e]) (simp add: assms(5))
  have opened: "decryptRequest Q L received s = Inr (d, reply)"
    using assms(7) by (simp add: s' frame_simps)
  obtain d0 p where req: "decryptRequest Q L request s = Inr (d0, p)"
  proof (cases "decryptRequest Q L request s")
    case (Inl err)
    then have "response = errorResponse err" using nopair by (simp add: resp respond_def)
    then have "toString (jvalue received ''type'') \<noteq> qs ''secure''" by (simp add: same errorResponse_def)
    then show ?thesis using assms(7) by (simp add: decryptRequest_def)
  qed (use that in \<open>auto split: prod.splits\<close>)
  obtain key iv ct plaintext where k: "sessionKeys s d0 = Some key" "envelopeFields Q request d0 iv ct"
      "decryptAes256Gcm L key iv ct (toUtf8 Q d0) = (plaintext, None)"
      "fromJson Q plaintext = Some (JObject p)"
    using decryptRequest_Inr [OF req] by metis
  have key: "length key = 32" using assms(4) k(1) by (simp add: keys_ok_def)
  have enc: "ct = fst (encryptAes256Gcm L key iv plaintext (toUtf8 Q d0))" if "12 \<le> length iv"
  proof -
    have "gcm_ready L G key iv" using assms(2) key that by (simp add: gcm_ready_def)
    from aead.seal_unseal [OF this] k(3) show ?thesis by (simp add: opens_Some_iff seals_def)
  qed
  have payload: "d0 = d \<and> jvalue reply name = jvalue q name"
    if "response = fst (encryptedResponse Q L d0 q s e2)" "flat_object q" for q e2 name
  proof -
    have "jvalue received name = jvalue (fst (encryptedResponse Q L d0 q s e2)) name" for name
      by (simp add: same that(1))
    from response_opens [OF assms(1,2) k(1) key that(2) this] opened show ?thesis
      by (metis Pair_inject sum.inject(2))
  qed
  show ?thesis
    using req nopair
  proof (cases rule: respond_sealed_cases [where e = e])
    case (sealed q e2)
    then have "jvalue reply ''authorized'' = jvalue q ''authorized''" using payload resp by blast
    with sealed(3) assms(8) show ?thesis by simp
  next
    case (verify ok err s1 e1)
    obtain g1 where s1: "s1 = s\<lparr>replayGuard := g1\<rparr>" using authorize_keys verify(2) by blast
    have "response = fst (encryptedResponse Q L d0 (verdict ok) s e1)"
      by (simp add: resp verify(3) s1 frame_simps)
    then have "d0 = d" and "jvalue reply ''authorized'' = jvalue (verdict ok) ''authorized''"
      using payload flat_payloads(1) by blast+
    then have "ok" using assms(8) by (simp add: verdict_def)
    with verify(1,2) k enc authorize_iff [OF assms(3)] \<open>d0 = d\<close> show ?thesis
      by (metis fst_conv)
  qed
qed

theorem authorized_only_by_signature_witness:
  "maySign ref_valid ref_qt pairedDesk quietEnv (qs ''phone'') [8, 9] 1000 goodSignature \<and>
   (\<exists>p. toString (jvalue p ''type'') = qs ''verify'' \<and>
      maySign ref_valid ref_qt pairedDesk quietEnv (qs ''phone'')
        (unhexText ref_qt (toString (jvalue p ''nonce''))) (toLongLong ref_qt (jvalue p ''timestamp''))
        (unhexText ref_qt (toString (jvalue p ''signature''))))"
proof -
  obtain response s' e' where r:
      "respond ref_qt ref_ssl (sealedRequest (replicate 32 5) (verifyPayload goodSignature)) pairedDesk quietEnv = (response, s', e')"
    by (metis prod_cases3)
  obtain received reply where w: "fromJson ref_qt (toJson ref_qt (JObject response)) = Some (JObject received)"
      "decryptRequest ref_qt ref_ssl received s' = Inr (qs ''phone'', reply)"
      "jvalue reply ''authorized'' = JBool True"
    by (rule verify_answer [OF ref_qt_laws ref_gcm_laws ref_ed25519_laws pairedDesk_keys(1) _ _
          verifyPayload_fields(1,2) sealedRequest_fields r])
       (simp_all add: verifyPayload_fields maySign_goodSignature)
  from authorized_only_by_signature [OF ref_qt_laws ref_gcm_laws ref_ed25519_laws pairedDesk_keys(2) r w]
  show ?thesis using maySign_goodSignature by blast
qed

text \<open>C4: the answer to an honest \<open>verify\<close> request is the truth. For an envelope sealed under the
  device's session key whose plaintext is a \<open>verify\<close> object, the written answer parses, opens
  under the same key, and says \<open>authorized\<close> exactly if the signature, the freshness and the replay
  conditions hold; nothing in the condition asks whether the server ever issued the nonce.\<close>

theorem verify_answers_by_signature:
  assumes "qt_laws Q" and "gcm_laws L G" and "ed25519_laws L valid"
    and "sessionKeys s d = Some key" and "length key = 32" and "12 \<le> length iv"
    and "flat_object p" and "toString (jvalue p ''type'') = qs ''verify''"
    and "envelopeFields Q request d iv
           (fst (encryptAes256Gcm L key iv (toJson Q (JObject p)) (toUtf8 Q d)))"
    and "respond Q L request s e = (response, s', e')"
  shows "\<exists>received reply. fromJson Q (toJson Q (JObject response)) = Some (JObject received) \<and>
     decryptRequest Q L received s' = Inr (d, reply) \<and>
     jvalue reply ''authorized'' = JBool (maySign valid Q s e d
       (unhexText Q (toString (jvalue p ''nonce''))) (toLongLong Q (jvalue p ''timestamp''))
       (unhexText Q (toString (jvalue p ''signature''))))"
  by (rule verify_answer [OF assms]) blast

theorem verify_answers_by_signature_witness:
  "\<exists>received reply.
     fromJson ref_qt (toJson ref_qt (JObject (fst (respond ref_qt ref_ssl
       (sealedRequest (replicate 32 5) (verifyPayload goodSignature)) pairedDesk quietEnv)))) = Some (JObject received) \<and>
     decryptRequest ref_qt ref_ssl received (fst (snd (respond ref_qt ref_ssl
       (sealedRequest (replicate 32 5) (verifyPayload goodSignature)) pairedDesk quietEnv))) = Inr (qs ''phone'', reply) \<and>
     jvalue reply ''authorized'' = JBool True"
proof -
  obtain response s' e' where r:
      "respond ref_qt ref_ssl (sealedRequest (replicate 32 5) (verifyPayload goodSignature)) pairedDesk quietEnv = (response, s', e')"
    by (metis prod_cases3)
  from verify_answers_by_signature [OF ref_qt_laws ref_gcm_laws ref_ed25519_laws pairedDesk_keys(1) _ _
      verifyPayload_fields(1,2) sealedRequest_fields r]
  show ?thesis by (simp add: r verifyPayload_fields maySign_goodSignature)
qed

end
