(* ===== verification/Clients.thy ===== *)
theory Clients
  imports Authorization
begin

text \<open>
  The remaining promises of the request handlers: what a challenge contains and what it leaves
  behind, what a failed signature costs, what a client without code and keys can do, how answers
  match requests on the connection, and the discovery protocol.
\<close>

section \<open>Answers in the outbox\<close>

lemma processLine_not_object:
  "\<nexists>request. fromJson Q line = Some (JObject request) \<Longrightarrow>
   processLine Q L k line s e = (writeLine Q k (errorResponse (qs ''invalid JSON request'')) s, e)"
  by (auto simp: processLine_def split: option.split json.split)

lemma outbox_buffers_commute:
  "(s\<lparr>outbox := X, buffers := B\<rparr> :: server) = s\<lparr>buffers := B, outbox := X\<rparr>"
  by simp

fun writes :: "event list \<Rightarrow> (socket \<times> bytes) list" where
  "writes [] = []"
| "writes (SocketWrite k b # es) = (k, b) # writes es"
| "writes (_ # es) = writes es"

lemma writes_append [simp]: "writes (xs @ ys) = writes xs @ writes ys"
  by (induction xs rule: writes.induct) simp_all

lemma respond_outbox: "writes (outbox (fst (snd (respond Q L request s e)))) = writes (outbox s)"
proof (cases "isPairRequest request")
  case True
  then have "respond Q L request s e = pairResponse Q L request s e" by (simp add: respond_def)
  then show ?thesis
    by (cases rule: pairResponse_cases [where Q = Q and L = L and request = request and s = s and e = e])
       (simp_all add: pairedState_def)
next
  case False
  show ?thesis
  proof (cases "decryptRequest Q L request s")
    case (Inl err)
    with False show ?thesis by (simp add: respond_def)
  next
    case (Inr dp)
    then obtain d p where dp: "decryptRequest Q L request s = Inr (d, p)" by (cases dp) simp
    obtain ok err s' e' where a: "authorizeFields Q L d p s e = (ok, err, s', e')" by (metis prod_cases4)
    then obtain g where "s' = s\<lparr>replayGuard := g\<rparr>" using authorize_keys by blast
    then show ?thesis
      using dp False a
      by (auto simp: respond_def verifyResponse_eq verdictLog_def Let_def split: prod.split)
  qed
qed

lemma processLine_writes:
  obtains ob where "writes (outbox (fst (processLine Q L k line s e))) =
    writes (outbox s) @ [(k, toJson Q (JObject ob) @ [10])]"
proof (cases "\<exists>request. fromJson Q line = Some (JObject request)")
  case True
  then obtain request where r: "fromJson Q line = Some (JObject request)" by blast
  obtain response s' e' where "respond Q L request s e = (response, s', e')" by (metis prod_cases3)
  then show ?thesis
    using that [of response] respond_outbox [of Q L request s e]
    by (simp add: processLine_def r writeLine_def)
next
  case False
  then show ?thesis
    using that [of "errorResponse (qs ''invalid JSON request'')"]
    by (simp add: processLine_not_object writeLine_def)
qed

lemma handleLine_fold_writes:
  "\<exists>answers. writes (outbox (fst (fold (handleLine Q L k) lines st))) =
     writes (outbox (fst st)) @ map (\<lambda>ob. (k, toJson Q (JObject ob) @ [10])) answers \<and>
     length answers = length lines"
proof (induction lines arbitrary: st)
  case (Cons line lines)
  obtain ob where "writes (outbox (fst (handleLine Q L k line st))) =
      writes (outbox (fst st)) @ [(k, toJson Q (JObject ob) @ [10])]"
    by (rule processLine_writes)
  moreover obtain answers where "writes (outbox (fst (fold (handleLine Q L k) lines (handleLine Q L k line st)))) =
      writes (outbox (fst (handleLine Q L k line st))) @ map (\<lambda>ob. (k, toJson Q (JObject ob) @ [10])) answers"
      "length answers = length lines"
    using Cons by blast
  ultimately show ?case by (intro exI [of _ "ob # answers"]) simp
qed simp



section \<open>Clients without code and keys\<close>

text \<open>A line of a client that neither knows the current code nor can seal an envelope.\<close>

definition outsider :: "qt \<Rightarrow> openssl \<Rightarrow> server \<Rightarrow> bytes \<Rightarrow> bool" where
  "outsider Q L s line \<longleftrightarrow> (\<forall>request. fromJson Q line = Some (JObject request) \<longrightarrow>
     (if isPairRequest request then codeOf request \<noteq> pairingCode s
      else \<exists>err. decryptRequest Q L request s = Inl err))"

lemma outsider_frame [simp]:
  "outsider Q L (s\<lparr>outbox := X\<rparr>) = outsider Q L s" "outsider Q L (s\<lparr>buffers := B\<rparr>) = outsider Q L s"
  by (simp_all add: outsider_def frame_simps fun_eq_iff)

text \<open>The message each of its lines is refused with, and all there are: none tells anything of the
  server but that its checks failed.\<close>

definition refusal :: "qt \<Rightarrow> openssl \<Rightarrow> server \<Rightarrow> bytes \<Rightarrow> qstring" where
  "refusal Q L s line = (case fromJson Q line of
       Some (JObject request) \<Rightarrow>
         if isPairRequest request then qs ''pairing code, keys, or pairing window is invalid''
         else (case decryptRequest Q L request s of Inl err \<Rightarrow> err | Inr _ \<Rightarrow> [])
     | _ \<Rightarrow> qs ''invalid JSON request'')"

definition refusals :: "qstring list" where
  "refusals = [qs ''invalid JSON request'', qs ''pairing code, keys, or pairing window is invalid'',
     qs ''unencrypted requests are not accepted'', qs ''device is not paired'',
     qs ''decrypted payload is invalid'', qs ''invalid AES-256-GCM input'', qs ''AES-256-GCM authentication failed'', []]"

abbreviation refusalLine :: "qt \<Rightarrow> openssl \<Rightarrow> server \<Rightarrow> bytes \<Rightarrow> bytes" where
  "refusalLine Q L s line \<equiv> toJson Q (JObject (errorResponse (refusal Q L s line))) @ [10]"

lemma refusal_frame [simp]:
  "refusal Q L (s\<lparr>outbox := X\<rparr>) = refusal Q L s" "refusal Q L (s\<lparr>buffers := B\<rparr>) = refusal Q L s"
  by (auto simp: refusal_def frame_simps fun_eq_iff split: option.split json.split)

lemma decryptAes256Gcm_error:
  "decryptAes256Gcm L key nonce ct aad = (plain, err) \<Longrightarrow> errorText err \<in> set refusals"
  by (auto simp: decryptAes256Gcm_def errorText_def refusals_def split: option.splits if_splits)

lemma decryptRequest_error: "decryptRequest Q L request s = Inl err \<Longrightarrow> err \<in> set refusals"
  by (auto simp: decryptRequest_def Let_def decryptAes256Gcm_error
      split: if_splits prod.splits option.splits json.splits) (simp_all add: refusals_def)

lemma refusal_in_refusals: "refusal Q L s line \<in> set refusals"
  using decryptRequest_error by (auto simp: refusal_def refusals_def split: option.split json.split sum.split)

lemma outsider_line:
  assumes "outsider Q L s line"
  shows "processLine Q L k line s e = (s\<lparr>outbox := outbox s @ [SocketWrite k (refusalLine Q L s line)]\<rparr>, e)"
proof (cases "\<exists>request. fromJson Q line = Some (JObject request)")
  case True
  then obtain request where r: "fromJson Q line = Some (JObject request)" by blast
  have "respond Q L request s e = (errorResponse (refusal Q L s line), s, e)"
    using assms r by (auto simp: outsider_def refusal_def respond_def pairResponse_def Let_def split: if_splits)
  then show ?thesis by (simp add: processLine_def r writeLine_def emit_def)
next
  case False
  then have "refusal Q L s line = qs ''invalid JSON request''"
    by (auto simp: refusal_def split: option.split json.split)
  with False show ?thesis by (simp add: processLine_not_object writeLine_def emit_def)
qed

lemma outsider_lines:
  "\<forall>line \<in> set lines. outsider Q L (fst st) line \<Longrightarrow>
   fold (handleLine Q L k) lines st =
     ((fst st)\<lparr>outbox := outbox (fst st) @ map (\<lambda>line. SocketWrite k (refusalLine Q L (fst st) line)) lines\<rparr>, snd st)"
proof (induction lines arbitrary: st)
  case (Cons line lines)
  have a: "handleLine Q L k line st =
      ((fst st)\<lparr>outbox := outbox (fst st) @ [SocketWrite k (refusalLine Q L (fst st) line)]\<rparr>, snd st)"
    using outsider_line Cons.prems by simp
  then have "\<forall>l \<in> set lines. outsider Q L (fst (handleLine Q L k line st)) l"
    using Cons.prems by simp
  from Cons.IH [OF this] show ?case by (simp add: a)
qed simp

text \<open>C7: a client that sends only lines that are not \<open>pair\<close> requests with the current code and not
  envelopes that open under a session key gets back one error line for each, which says which check
  failed with one of eight fixed messages, and changes nothing else: the keys, the code, the replay
  guard, the other connections, the clock and the random generator are untouched.\<close>

theorem outsider_changes_nothing:
  assumes "\<forall>line \<in> set (requests (bufferOf s k @ received)). outsider Q L s line"
  shows "readClient Q L (Some k) received s e =
     ((setBuffer k (snd (splitLines (bufferOf s k @ received))) s)
        \<lparr>outbox := outbox s @ map (\<lambda>line. SocketWrite k
            (toJson Q (JObject (errorResponse (refusal Q L s line))) @ [10])) (requests (bufferOf s k @ received))\<rparr>, e) \<and>
     refusal Q L s ` set (requests (bufferOf s k @ received)) \<subseteq> set refusals"
proof -
  let ?u = "setBuffer k (bufferOf s k @ received) s" and ?lines = "requests (bufferOf s k @ received)"
  have "\<forall>line \<in> set ?lines. outsider Q L (fst (?u, e)) line"
    using assms by (simp add: setBuffer_def)
  from outsider_lines [OF this, of k]
  have "fold (handleLine Q L k) ?lines (?u, e) =
      (?u\<lparr>outbox := outbox s @ map (\<lambda>line. SocketWrite k (refusalLine Q L s line)) ?lines\<rparr>, e)"
    by (simp add: setBuffer_def)
  then show ?thesis
    using refusal_in_refusals by (auto simp: readClient_eq Let_def setBuffer_def outbox_buffers_commute)
qed

theorem outsider_changes_nothing_witness:
  "readClient ref_qt ref_ssl (Some 4) [65, 10] pairedDesk quietEnv =
     ((setBuffer 4 [] pairedDesk)\<lparr>outbox := outbox pairedDesk @ [SocketWrite 4
        (toJson ref_qt (JObject (errorResponse (qs ''invalid JSON request''))) @ [10])]\<rparr>, quietEnv)"
proof -
  have b: "bufferOf pairedDesk 4 = []"
    by (simp add: bufferOf_def hashValue_def pairedDesk_def openDesk_def desk_def newServer_def Let_def
        split: prod.split)
  have r: "requests [65, 10] = [[65]]" "snd (splitLines [65, 10]) = []"
    by (simp_all add: requests_def trimmed_def isSpace_def)
  have none: "fromJson ref_qt [65] = None" by (simp add: ref_qt_def ref_fromJson_def)
  then have "outsider ref_qt ref_ssl pairedDesk [65]" by (simp add: outsider_def)
  with none show ?thesis
    using outsider_changes_nothing [where s = pairedDesk and k = 4 and received = "[65, 10]"
        and Q = ref_qt and L = ref_ssl and e = quietEnv] by (simp add: b r refusal_def)
qed

section \<open>Challenges\<close>

definition challengePayload :: "qt \<Rightarrow> bytes \<Rightarrow> qint64 \<Rightarrow> json_object" where
  "challengePayload Q nonce timestamp =
     [(qs ''type'', JString (qs ''challenge'')), (qs ''challenge_id'', JString (hexText Q nonce)),
      (qs ''nonce'', JString (hexText Q nonce)), (qs ''timestamp'', JInteger timestamp)]"

lemma fillRandom_32:
  assumes "number_laws Q"
  shows "fst (fillRandom Q 32 e) = concat (map (\<lambda>i. hostBytes Q (rand e (draws e + i))) [0..<4])"
proof -
  have "length (hostBytes Q v) = 8" for v using assms by (simp add: number_laws_def)
  then show ?thesis
    by (simp add: fillRandom_step fillRandom_0 generate64_def upt_rec)
qed

lemma challenge_respond:
  assumes "decryptRequest Q L request s = Inr (d, p)" and "toString (jvalue p ''type'') = qs ''challenge''"
  shows "respond Q L request s e =
    (let nonce = fst (fillRandom Q 32 e); e1 = snd (fillRandom Q 32 e);
         payload = challengePayload Q nonce (clock e (ticks e)); e2 = snd (currentSecs e1)
     in (fst (encryptedResponse Q L d payload s e2), s, snd (encryptedResponse Q L d payload s e2)))"
proof -
  have "\<not> isPairRequest request" using assms(1) by (auto simp: decryptRequest_def split: if_splits)
  then show ?thesis
    using assms fillRandom_env(1,3) [of Q 32 e]
    by (auto simp: respond_def challengeResponse_def challengePayload_def currentSecs_def Let_def
        split: prod.split)
qed

text \<open>C36: a challenge request is answered with an envelope that opens, under the session key it was
  asked with, to a fresh challenge: a 32-byte nonce made of the next four values of the random
  generator and the current time. The server itself is not changed: it keeps no record of the
  nonces it has issued.\<close>

theorem challenge_is_fresh_and_not_recorded:
  assumes "qt_laws Q" and "gcm_laws L G" and "keys_ok s"
    and "decryptRequest Q L request s = Inr (d, p)" and "toString (jvalue p ''type'') = qs ''challenge''"
    and "respond Q L request s e = (response, s', e')"
  shows "s' = s \<and> (\<exists>received reply nonce. fromJson Q (toJson Q (JObject response)) = Some (JObject received) \<and>
     decryptRequest Q L received s = Inr (d, reply) \<and>
     toString (jvalue reply ''type'') = qs ''challenge'' \<and>
     unhexText Q (toString (jvalue reply ''nonce'')) = nonce \<and>
     nonce = concat (map (\<lambda>i. hostBytes Q (rand e (draws e + i))) [0..<4]) \<and> length nonce = 32 \<and>
     jvalue reply ''timestamp'' = JInteger (clock e (ticks e)))"
proof -
  have laws: "json_laws Q" "number_laws Q" "hex_laws Q" using assms(1) by (simp_all add: qt_laws_def)
  let ?n = "fst (fillRandom Q 32 e)" and ?e2 = "snd (currentSecs (snd (fillRandom Q 32 e)))"
  let ?payload = "challengePayload Q ?n (clock e (ticks e))"
  have out: "response = fst (encryptedResponse Q L d ?payload s ?e2)" and "s' = s"
    using challenge_respond [OF assms(4,5), of e] assms(6) by (auto simp: Let_def)
  obtain key where key: "sessionKeys s d = Some key" using decryptRequest_Inr [OF assms(4)] by blast
  then have len: "length key = 32" using assms(3) by (simp add: keys_ok_def)
  have "flat_object response" using flat_response [of Q L request s e] assms(6) by simp
  then obtain received where rec: "fromJson Q (toJson Q (JObject response)) = Some (JObject received)"
      "\<And>name. jvalue received name = jvalue response name"
    using json_roundtrip [OF laws(1)] by blast
  obtain reply where reply: "decryptRequest Q L received s = Inr (d, reply)"
      "\<And>name. jvalue reply name = jvalue ?payload name"
    by (rule response_opens [OF assms(1,2) key len, where e = ?e2 and ob = received and p = ?payload])
       (simp_all add: rec(2) out challengePayload_def flat_payloads)
  show ?thesis
    using \<open>s' = s\<close> rec(1) reply length_fillRandom [OF laws(2), of 32 e]
    by (auto simp: challengePayload_def hex_field.dec_enc [OF laws(3)] fillRandom_32 [OF laws(2)])
qed

definition challengeRequest :: json_object where
  "challengeRequest = [(qs ''type'', JString (qs ''challenge''))]"

theorem challenge_is_fresh_and_not_recorded_witness:
  "fst (snd (respond ref_qt ref_ssl (sealedRequest (replicate 32 5) challengeRequest) pairedDesk quietEnv)) = pairedDesk"
proof -
  obtain response s' e' where r:
      "respond ref_qt ref_ssl (sealedRequest (replicate 32 5) challengeRequest) pairedDesk quietEnv = (response, s', e')"
    by (metis prod_cases3)
  have flat: "flat_object challengeRequest" by (simp add: flat_object_def challengeRequest_def)
  obtain p where "decryptRequest ref_qt ref_ssl (sealedRequest (replicate 32 5) challengeRequest) pairedDesk = Inr (qs ''phone'', p)"
      "\<And>name. jvalue p name = jvalue challengeRequest name"
    by (rule sealed_object_opens [OF ref_qt_laws ref_gcm_laws pairedDesk_keys(1) _ _ flat
          sealedRequest_fields [folded seals_def]]) simp_all
  then have "decryptRequest ref_qt ref_ssl (sealedRequest (replicate 32 5) challengeRequest) pairedDesk = Inr (qs ''phone'', p)"
      and "toString (jvalue p ''type'') = qs ''challenge''" by (simp_all add: challengeRequest_def)
  from challenge_is_fresh_and_not_recorded [OF ref_qt_laws ref_gcm_laws pairedDesk_keys(2) this r]
  show ?thesis by (simp add: r)
qed

section \<open>Signed messages\<close>

text \<open>What a device signs determines the challenge: the nonce followed by the eight big-endian
  bytes of the timestamp is different for every other nonce or timestamp, and \<open>timestampBytes\<close>
  writes every 64-bit timestamp, negative ones included, in a form that reads back.\<close>

theorem signed_message_determines_challenge:
  "(nonce @ timestampBytes timestamp = nonce' @ timestampBytes timestamp' \<longleftrightarrow>
      nonce = nonce' \<and> timestamp = timestamp') \<and>
   length (timestampBytes timestamp) = 8 \<and> bigEndian (timestampBytes timestamp) = timestamp"
proof -
  have len: "length (timestampBytes u) = 8" for u by (simp add: timestampBytes_def)
  have "nonce = nonce' \<and> timestampBytes timestamp = timestampBytes timestamp'"
    if "nonce @ timestampBytes timestamp = nonce' @ timestampBytes timestamp'"
    using that append_eq_append_conv [of "timestampBytes timestamp" "timestampBytes timestamp'"]
    by (metis len append_eq_append_conv)
  with len big_endian.enc_eq_iff bigEndian_timestampBytes show ?thesis by blast
qed



section \<open>Discovery\<close>

lemma broadcast_fold:
  "readDatagrams Q datagrams s =
     s\<lparr>outbox := outbox s @ replicate (length (filter (asksForDiscovery Q) datagrams))
        (WriteDatagram (toJson Q (JObject (discoveryPacket Q s))) (port s))\<rparr>"
proof (induction datagrams arbitrary: s)
  case (Cons datagram datagrams)
  have "discoveryPacket Q (s\<lparr>outbox := X\<rparr>) = discoveryPacket Q s" for X
    by (simp add: discoveryPacket_def)
  with Cons show ?case by (simp add: broadcastDiscovery_def emit_def)
qed simp

text \<open>Discovery does not feed itself. The packet the server broadcasts, which its own socket
  receives back on the same port, parses as the packet and is not a question: a run of
  \<open>readDatagrams\<close> sends exactly one packet for every datagram that asks, none for its own, and
  changes nothing else.\<close>

theorem discovery_answers_questions_only:
  assumes "json_laws Q"
  shows "\<not> asksForDiscovery Q (toJson Q (JObject (discoveryPacket Q s))) \<and>
     readDatagrams Q (toJson Q (JObject (discoveryPacket Q s)) # datagrams) s =
     s\<lparr>outbox := outbox s @ replicate (length (filter (asksForDiscovery Q) datagrams))
        (WriteDatagram (toJson Q (JObject (discoveryPacket Q s))) (port s))\<rparr>"
proof -
  have "flat_object (discoveryPacket Q s)" by (simp add: flat_object_def discoveryPacket_def)
  then obtain ob where "fromJson Q (toJson Q (JObject (discoveryPacket Q s))) = Some (JObject ob)"
      "\<And>name. jvalue ob name = jvalue (discoveryPacket Q s) name"
    using json_roundtrip [OF assms] by blast
  then have "\<not> asksForDiscovery Q (toJson Q (JObject (discoveryPacket Q s)))"
    by (simp add: asksForDiscovery_def discoveryPacket_def)
  then show ?thesis by (simp add: broadcast_fold del: readDatagrams.simps)
qed

theorem discovery_answers_questions_only_witness:
  "readDatagrams ref_qt [toJson ref_qt (JObject (discoveryPacket ref_qt desk)),
     toJson ref_qt (JObject [(qs ''type'', JString (qs ''discover''))]), [1]] desk =
   desk\<lparr>outbox := outbox desk @ [WriteDatagram (toJson ref_qt (JObject (discoveryPacket ref_qt desk))) (port desk)]\<rparr>"
proof -
  have "flat_object [(qs ''type'', JString (qs ''discover''))]" by (simp add: flat_object_def)
  then have "asksForDiscovery ref_qt (toJson ref_qt (JObject [(qs ''type'', JString (qs ''discover''))]))"
    by (simp add: asksForDiscovery_def fromJson_ref_qt)
  moreover have "\<not> asksForDiscovery ref_qt [1]"
    by (simp add: asksForDiscovery_def ref_qt_def ref_fromJson_def)
  ultimately show ?thesis
    using discovery_answers_questions_only [OF ref_laws(1), where s = desk and datagrams =
        "[toJson ref_qt (JObject [(qs ''type'', JString (qs ''discover''))]), [1]]"]
    by (simp del: readDatagrams.simps)
qed

end
