(* ===== verification/Lifecycle.thy ===== *)
theory Lifecycle
  imports Clients
begin

text \<open>
  The server as a state machine: its slots and public methods as the steps of a relation that
  starts at construction, the invariant that all reachable states have, and what \<open>start\<close> and
  \<open>stop\<close> promise.
\<close>

section \<open>Milestones\<close>

text \<open>
  What a handled line achieves: a device is paired with a signing key, or a device is authorized
  by a signature over a nonce and a timestamp. \<open>milestones_announced\<close> (theory \<open>Traces\<close>) shows that
  these are the pairings and authorizations that the server announces in its log before it answers.
\<close>

datatype milestone =
    Paired qstring bytes
  | Granted qstring bytes qint64

definition milestonesOf :: "qt \<Rightarrow> openssl \<Rightarrow> bytes \<Rightarrow> server \<Rightarrow> env \<Rightarrow> milestone list" where
  "milestonesOf Q L line s e =
     (case fromJson Q line of
        Some (JObject request) \<Rightarrow>
          if isPairRequest request
          then if fst (pairResponse Q L request s e) = pairedReply Q s
               then [Paired (deviceIdOf request) (signingKeyOf Q request)] else []
          else (case decryptRequest Q L request s of
                  Inl _ \<Rightarrow> []
                | Inr (d, p) \<Rightarrow>
                    if toString (jvalue p ''type'') = qs ''verify'' \<and> fst (authorizeFields Q L d p s e)
                    then [Granted d (unhexText Q (toString (jvalue p ''nonce'')))
                           (toLongLong Q (jvalue p ''timestamp''))] else [])
      | _ \<Rightarrow> [])"

fun milestonesAlong :: "qt \<Rightarrow> openssl \<Rightarrow> socket \<Rightarrow> bytes list \<Rightarrow> server \<times> env \<Rightarrow> milestone list" where
  "milestonesAlong Q L k [] st = []"
| "milestonesAlong Q L k (line # lines) st =
     milestonesOf Q L line (fst st) (snd st) @ milestonesAlong Q L k lines (handleLine Q L k line st)"

definition readMilestones ::
  "qt \<Rightarrow> openssl \<Rightarrow> socket option \<Rightarrow> bytes \<Rightarrow> server \<Rightarrow> env \<Rightarrow> milestone list" where
  "readMilestones Q L sender received s e =
     (case sender of None \<Rightarrow> []
      | Some k \<Rightarrow> let stream = bufferOf s k @ received
                   in milestonesAlong Q L k (requests stream) (setBuffer k stream s, e))"

section \<open>The step relation\<close>

text \<open>
  One step is one call by the event loop or the window, with any outcome of the operating system,
  labelled with its milestones. \<open>elsewhere\<close> is other code of the process that reads the clock or
  the random generator.
\<close>

inductive server_step :: "qt \<Rightarrow> openssl \<Rightarrow> server \<times> env \<Rightarrow> milestone list \<Rightarrow> server \<times> env \<Rightarrow> bool" for Q L where
  started: "start Q newPort listenError bindError s e = (ok, s', e') \<Longrightarrow> server_step Q L (s, e) [] (s', e')"
| stopped: "distinct (map fst sockets) \<Longrightarrow> set (map fst sockets) = dom (buffers s) \<Longrightarrow>
     server_step Q L (s, e) [] (stop sockets s, e)"
| connected: "server_step Q L (s, e) [] (acceptConnections pending s, e)"
| received: "server_step Q L (s, e) (readMilestones Q L sender bytes s e) (readClient Q L sender bytes s e)"
| disconnected: "server_step Q L (s, e) [] (clientDisconnected sender s, e)"
| datagrams: "server_step Q L (s, e) [] (readDatagrams Q pending_datagrams s, e)"
| timeout: "discoveryTimer s \<Longrightarrow> server_step Q L (s, e) [] (broadcastDiscovery Q s, e)"
| payload: "pairingPayload Q host addresses s e = (shown, s', e') \<Longrightarrow> server_step Q L (s, e) [] (s', e')"
| elsewhere: "server_step Q L (s, e) [] (s, e\<lparr>ticks := ticks e + n, draws := draws e + m\<rparr>)"

inductive reachable :: "qt \<Rightarrow> openssl \<Rightarrow> milestone list \<Rightarrow> server \<times> env \<Rightarrow> bool" for Q L where
  constructed: "reachable Q L [] (newServer Q L e)"
| step: "reachable Q L trace st \<Longrightarrow> server_step Q L st new st' \<Longrightarrow> reachable Q L (trace @ new) st'"

section \<open>The invariant\<close>

definition keys_inv :: "server \<Rightarrow> bool" where
  "keys_inv s \<longleftrightarrow> dom (pairedKeys s) = dom (sessionKeys s) \<and> pairedKeys s [] = None \<and> keys_ok s \<and>
     (\<forall>d pk. pairedKeys s d = Some pk \<longrightarrow> length pk = 32)"

definition code_inv :: "server \<Rightarrow> bool" where
  "code_inv s \<longleftrightarrow> pairingCode s = [] \<or> 16 \<le> length (pairingCode s)"

definition sockets_inv :: "server \<Rightarrow> bool" where
  "sockets_inv s \<longleftrightarrow> udpBound s = listening s \<and> discoveryTimer s = listening s \<and>
     (listening s \<longrightarrow> length (publicKey (x25519KeyPair s)) = 32) \<and>
     length (privateKey (x25519KeyPair s)) = length (publicKey (x25519KeyPair s))"

definition buffers_inv :: "server \<Rightarrow> bool" where
  "buffers_inv s \<longleftrightarrow> (\<forall>k b. buffers s k = Some b \<longrightarrow> 10 \<notin> set b)"

definition server_inv :: "server \<Rightarrow> bool" where
  "server_inv s \<longleftrightarrow> keys_inv s \<and> code_inv s \<and> sockets_inv s \<and> buffers_inv s"

lemmas inv_defs = server_inv_def keys_inv_def keys_ok_def code_inv_def sockets_inv_def buffers_inv_def

lemma inv_cong:
  "pairedKeys s' = pairedKeys s \<Longrightarrow> sessionKeys s' = sessionKeys s \<Longrightarrow> pairingCode s' = pairingCode s \<Longrightarrow>
   x25519KeyPair s' = x25519KeyPair s \<Longrightarrow> listening s' = listening s \<Longrightarrow> udpBound s' = udpBound s \<Longrightarrow>
   discoveryTimer s' = discoveryTimer s \<Longrightarrow> buffers_inv s' \<Longrightarrow> server_inv s \<Longrightarrow> server_inv s'"
  by (simp add: server_inv_def keys_inv_def keys_ok_def code_inv_def sockets_inv_def)

lemma buffers_inv_same: "buffers s' = buffers s \<Longrightarrow> server_inv s \<Longrightarrow> buffers_inv s'"
  by (simp add: server_inv_def buffers_inv_def)

lemma buffers_inv_upd:
  "buffers s' = (buffers s)(k := ob) \<Longrightarrow> (\<And>b. ob = Some b \<Longrightarrow> 10 \<notin> set b) \<Longrightarrow> server_inv s \<Longrightarrow> buffers_inv s'"
  by (simp add: server_inv_def buffers_inv_def)

lemma inv_newServer: "server_inv (fst (newServer Q L e))"
  using generateX25519KeyPair_sizes [of L]
  by (auto simp: newServer_def inv_defs noKeyPair_def Let_def split: prod.splits if_splits)

lemma inv_pairedState:
  assumes "server_inv s" and "pairable Q request s now" and "length shared = 32"
  shows "server_inv (pairedState (deviceIdOf request) (signingKeyOf Q request) shared s)"
proof -
  have "keys_inv (pairedState (deviceIdOf request) (signingKeyOf Q request) shared s)"
  proof -
    have "[] \<noteq> deviceIdOf request" using assms(2) by (auto simp: pairable_def)
    then show ?thesis using assms by (simp add: server_inv_def keys_inv_def keys_ok_def pairable_def)
  qed
  then show ?thesis using assms(1) by (simp add: server_inv_def code_inv_def sockets_inv_def buffers_inv_def)
qed

lemma inv_processLine:
  assumes "server_inv s"
  shows "server_inv (fst (processLine Q L k line s e))"
proof (cases rule: processLine_cases [where Q = Q and L = L and k = k and line = line and s = s and e = e])
  case (paired request shared X)
  show ?thesis
    unfolding paired(6)
    by (rule inv_cong [OF _ _ _ _ _ _ _ buffers_inv_same inv_pairedState [OF assms paired(3,4)]])
       (use inv_pairedState [OF assms paired(3,4)] in simp_all)
next
  case (other g X)
  show ?thesis
    unfolding other by (rule inv_cong [OF _ _ _ _ _ _ _ buffers_inv_same assms]) (use assms in simp_all)
qed

lemma inv_setBuffer:
  assumes "server_inv s" and "10 \<notin> set b"
  shows "server_inv (setBuffer k b s)"
  by (rule inv_cong [OF _ _ _ _ _ _ _ buffers_inv_upd [where k = k and ob = "Some b"] assms(1)])
     (use assms in \<open>simp_all add: setBuffer_def\<close>)

lemma handleLine_fold_frame:
  "fold (handleLine Q L k) lines (setBuffer k b s, e) =
     storeBuffer k b (fold (handleLine Q L k) lines (setBuffer k b' s, e))"
proof -
  have store: "handleLine Q L k l (storeBuffer k b st) = storeBuffer k b (handleLine Q L k l st)" for l st
    by (rule reader.handle_store)
  have "fold (handleLine Q L k) lines (storeBuffer k b st) = storeBuffer k b (fold (handleLine Q L k) lines st)" for st
  proof (induction lines arbitrary: st)
    case (Cons l lines)
    then show ?case using store [of l st] by simp
  qed simp
  from this [of "(setBuffer k b' s, e)"] show ?thesis by (simp add: setBuffer_def)
qed

lemma inv_readClient:
  assumes "server_inv s"
  shows "server_inv (fst (readClient Q L sender bytes s e))"
proof (cases sender)
  case (Some k)
  let ?stream = "bufferOf s k @ bytes" and ?rest = "snd (splitLines (bufferOf s k @ bytes))"
  have "server_inv (fst st) \<Longrightarrow> server_inv (fst (fold (handleLine Q L k) lines st))" for lines st
    by (induction lines arbitrary: st) (simp_all add: inv_processLine)
  moreover have "server_inv (setBuffer k ?rest s)"
    using inv_setBuffer [OF assms] splitLines_rest by blast
  ultimately have "server_inv (fst (fold (handleLine Q L k) (requests ?stream) (setBuffer k ?rest s, e)))"
    by simp
  moreover have "readClient Q L sender bytes s e =
      fold (handleLine Q L k) (requests ?stream) (setBuffer k ?rest s, e)"
    using handleLine_fold_frame [of Q L k "requests ?stream" ?rest s e ?stream]
    by (simp add: Some readClient_eq Let_def)
  ultimately show ?thesis by simp
qed (simp add: readClient_def assms)

lemma inv_start:
  assumes "server_inv s"
  shows "server_inv (fst (snd (start Q newPort listenError bindError s e)))"
proof -
  obtain ok s' e' where r: "start Q newPort listenError bindError s e = (ok, s', e')" by (metis prod_cases3)
  have same: "pairedKeys s' = pairedKeys s" "sessionKeys s' = sessionKeys s" "buffers s' = buffers s"
      "x25519KeyPair s' = x25519KeyPair s"
    and code: "pairingCode s' = pairingCode s \<or> 16 \<le> length (pairingCode s')"
    and sockets: "udpBound s' = listening s' \<and> discoveryTimer s' = listening s'"
      "listening s' \<longrightarrow> length (publicKey (x25519KeyPair s)) = 32"
    if "udpBound s = listening s" "discoveryTimer s = listening s"
      "listening s \<longrightarrow> length (publicKey (x25519KeyPair s)) = 32"
    using r that by (auto simp: start_def broadcastDiscovery_def newPairingCode_def rightJustified_def Let_def
      split: prod.splits option.splits if_splits)
  have "sockets_inv s" "keys_inv s" "code_inv s" "buffers_inv s" using assms by (simp_all add: server_inv_def)
  note inv = this
  have "udpBound s = listening s" "discoveryTimer s = listening s"
      "listening s \<longrightarrow> length (publicKey (x25519KeyPair s)) = 32"
    using inv(1) by (simp_all add: sockets_inv_def)
  note start = same [OF this] code [OF this] sockets [OF this]
  have "code_inv s'" using inv(3) start(5) by (auto simp: code_inv_def)
  moreover have "sockets_inv s'" using inv(1) start(4,6,7) by (simp add: sockets_inv_def)
  moreover have "keys_inv s'" using inv(2) start(1,2) by (simp add: keys_inv_def keys_ok_def)
  moreover have "buffers_inv s'" using inv(4) start(3) by (simp add: buffers_inv_def)
  ultimately show ?thesis by (simp add: r server_inv_def)
qed

text \<open>The loop of \<open>stop\<close> only removes buffers and emits.\<close>

lemma stop_loop:
  "\<exists>B X. fold (\<lambda>(socket, atOnce) s. let s = emit (SocketDisconnect socket) s
       in if atOnce then clientDisconnected (Some socket) s else s) sockets s = s\<lparr>buffers := B, outbox := X\<rparr>"
proof (induction sockets arbitrary: s)
  case Nil
  then show ?case by (intro exI [of _ "buffers s"] exI [of _ "outbox s"]) simp
next
  case (Cons ks sockets)
  obtain k atOnce where ks: "ks = (k, atOnce)" by fastforce
  let ?s = "if atOnce then clientDisconnected (Some k) (emit (SocketDisconnect k) s)
    else emit (SocketDisconnect k) s"
  have "\<exists>B1 X1. ?s = s\<lparr>buffers := B1, outbox := X1\<rparr>"
  proof (cases atOnce)
    case True
    then show ?thesis
      by (intro exI [of _ "(buffers s)(k := None)"]
          exI [of _ "outbox s @ [SocketDisconnect k, LogMessage (qs ''client disconnected''), SocketDeleteLater k]"])
         (simp add: clientDisconnected_def emit_def)
  next
    case False
    then show ?thesis
      by (intro exI [of _ "buffers s"] exI [of _ "outbox s @ [SocketDisconnect k]"]) (simp add: emit_def)
  qed
  then obtain B1 X1 where "?s = s\<lparr>buffers := B1, outbox := X1\<rparr>" by blast
  with Cons [of ?s] show ?case by (auto simp: ks Let_def)
qed

lemma stop_eq:
  "\<exists>X. stop sockets s = s\<lparr>discoveryTimer := False, buffers := Map.empty, listening := False,
     udpBound := False, outbox := X\<rparr>"
proof -
  obtain B X where "fold (\<lambda>(socket, atOnce) s. let s = emit (SocketDisconnect socket) s
       in if atOnce then clientDisconnected (Some socket) s else s) sockets (s\<lparr>discoveryTimer := False\<rparr>) =
      s\<lparr>discoveryTimer := False, buffers := B, outbox := X\<rparr>"
    using stop_loop [of sockets "s\<lparr>discoveryTimer := False\<rparr>"] by auto
  then have "stop sockets s = emit (StatusChanged (qs ''Stopped'')) (s\<lparr>discoveryTimer := False,
      buffers := Map.empty, listening := False, udpBound := False, outbox := X\<rparr>)"
    by (simp add: stop_def)
  then show ?thesis
    by (intro exI [of _ "X @ [StatusChanged (qs ''Stopped'')]"]) (simp add: emit_def)
qed

lemma inv_stop: "server_inv s \<Longrightarrow> server_inv (stop sockets s)"
proof -
  assume inv: "server_inv s"
  obtain X where "stop sockets s = s\<lparr>discoveryTimer := False, buffers := Map.empty, listening := False,
      udpBound := False, outbox := X\<rparr>"
    using stop_eq [of sockets s] by blast
  with inv show ?thesis
    by (simp add: server_inv_def keys_inv_def keys_ok_def code_inv_def sockets_inv_def buffers_inv_def)
qed

lemma inv_acceptConnections: "server_inv s \<Longrightarrow> server_inv (acceptConnections pending s)"
proof (induction pending s rule: acceptConnections.induct)
  case (2 socket peer pending s)
  have "server_inv (emit (LogMessage (qs ''client connected from '' @ peer))
      (s\<lparr>buffers := (buffers s)(socket \<mapsto> [])\<rparr>))"
    by (rule inv_cong [OF _ _ _ _ _ _ _ buffers_inv_upd [where k = socket and ob = "Some []"] 2(2)])
       (use 2(2) in simp_all)
  from 2(1) [OF this] show ?case by simp
qed simp

lemma inv_clientDisconnected: "server_inv s \<Longrightarrow> server_inv (clientDisconnected sender s)"
proof (cases sender)
  case (Some k)
  assume inv: "server_inv s"
  show ?thesis
    by (rule inv_cong [OF _ _ _ _ _ _ _ buffers_inv_upd [where k = k and ob = None] inv])
       (use inv in \<open>simp_all add: clientDisconnected_def Some\<close>)
qed (simp add: clientDisconnected_def)

lemma inv_outbox: "server_inv s \<Longrightarrow> server_inv (s\<lparr>outbox := X\<rparr>)"
  by (rule inv_cong [OF _ _ _ _ _ _ _ buffers_inv_same]) simp_all

lemma refreshCode_state:
  "\<exists>code created. fst (refreshCode Q s e) = s\<lparr>pairingCode := code, pairingCreatedAt := created\<rparr> \<and>
     (code = pairingCode s \<or> 16 \<le> length code)"
proof -
  have "fst (refreshCode Q s e) = s \<or> (\<exists>code created. 16 \<le> length code \<and>
      fst (refreshCode Q s e) = s\<lparr>pairingCode := code, pairingCreatedAt := created\<rparr>)"
  proof -
    obtain stale e1 where b: "(if pairingCode s = [] then (True, e) else let (now, e) = currentSecs e
        in (sint (now - pairingCreatedAt s) > 300, e)) = (stale, e1)" by fastforce
    obtain code e2 where c: "newPairingCode Q e1 = (code, e2)" by fastforce
    have "16 \<le> length code" using c by (auto simp: newPairingCode_def rightJustified_def split: prod.splits)
    then show ?thesis by (auto simp: refreshCode_def b c Let_def split: prod.split)
  qed
  then show ?thesis
  proof
    assume "fst (refreshCode Q s e) = s"
    then show ?thesis by (intro exI [of _ "pairingCode s"] exI [of _ "pairingCreatedAt s"]) simp
  qed blast
qed

lemma inv_refreshCode: "server_inv s \<Longrightarrow> server_inv (fst (refreshCode Q s e))"
proof -
  assume inv: "server_inv s"
  obtain code created where
      "fst (refreshCode Q s e) = s\<lparr>pairingCode := code, pairingCreatedAt := created\<rparr>"
      "code = pairingCode s \<or> 16 \<le> length code"
    using refreshCode_state by blast
  moreover from this inv have "code_inv (fst (refreshCode Q s e))"
    by (auto simp: server_inv_def code_inv_def)
  ultimately show ?thesis
    using inv by (simp add: server_inv_def keys_inv_def keys_ok_def sockets_inv_def buffers_inv_def)
qed

lemma pairingPayload_state:
  "pairingPayload Q host addresses s e = (shown, s', e') \<Longrightarrow> refreshCode Q s e = (s', e')"
  by (auto simp: pairingPayload_def Let_def split: prod.splits)

lemma inv_step: "server_step Q L st new st' \<Longrightarrow> server_inv (fst st) \<Longrightarrow> server_inv (fst st')"
proof (induction rule: server_step.induct)
  case (started newPort listenError bindError s e ok s' e')
  then show ?case using inv_start [of s Q newPort listenError bindError e] by simp
next
  case (payload host addresses s e shown s' e')
  with inv_refreshCode [of s Q e] pairingPayload_state [OF payload(1)] show ?case by simp
qed (simp_all add: inv_stop inv_acceptConnections inv_readClient inv_clientDisconnected inv_outbox
      broadcast_fold broadcastDiscovery_def emit_def)

lemma reachable_inv: "reachable Q L trace st \<Longrightarrow> server_inv (fst st)"
  by (induction rule: reachable.induct) (simp_all add: inv_newServer inv_step)

section \<open>Properties\<close>

text \<open>C6: in every state the server can reach from its construction, by any sequence of calls, client
  bytes and outcomes of the operating system: the devices with a signing key are those with a
  session key, every key has 32 bytes and no device has the empty id; the pairing code is cleared
  or has at least 16 characters; UDP socket and discovery timer run exactly while TCP listens, and
  only with a valid key pair; no connection buffer holds a newline.\<close>

theorem server_invariant:
  assumes "reachable Q L trace (s, e)"
  shows "dom (pairedKeys s) = dom (sessionKeys s) \<and> [] \<notin> dom (pairedKeys s) \<and>
     (\<forall>key \<in> ran (sessionKeys s). length key = 32) \<and> (\<forall>pk \<in> ran (pairedKeys s). length pk = 32) \<and>
     (pairingCode s = [] \<or> 16 \<le> length (pairingCode s)) \<and>
     udpBound s = isRunning s \<and> discoveryTimer s = isRunning s \<and>
     (isRunning s \<longrightarrow> length (publicKey (x25519KeyPair s)) = 32 \<and> length (privateKey (x25519KeyPair s)) = 32) \<and>
     (\<forall>b \<in> ran (buffers s). 10 \<notin> set b)"
proof -
  have inv: "keys_inv s" "code_inv s" "sockets_inv s" "buffers_inv s"
    using reachable_inv [OF assms] by (simp_all add: server_inv_def)
  have "pairedKeys s [] = None" using inv(1) by (simp add: keys_inv_def)
  then have "[] \<notin> dom (pairedKeys s)" by (simp add: domIff)
  moreover have "\<forall>key \<in> ran (sessionKeys s). length key = 32" "\<forall>pk \<in> ran (pairedKeys s). length pk = 32"
    using inv(1) by (auto simp: keys_inv_def keys_ok_def ran_def)
  moreover have "\<forall>b \<in> ran (buffers s). 10 \<notin> set b" using inv(4) by (auto simp: buffers_inv_def ran_def)
  ultimately show ?thesis
    using inv by (simp add: keys_inv_def code_inv_def sockets_inv_def isRunning_def)
qed

lemma desk_reachable: "reachable ref_qt ref_ssl [] (desk, quietEnv\<lparr>draws := 1\<rparr>)"
proof -
  have "newServer ref_qt ref_ssl quietEnv = (desk, quietEnv\<lparr>draws := 1\<rparr>)"
    by (simp add: desk_def newServer_def generate64_def quietEnv_def)
  with reachable.constructed [of ref_qt ref_ssl quietEnv] show ?thesis by simp
qed

theorem server_invariant_witness:
  "\<exists>s' e'. start ref_qt 43295 None None desk (quietEnv\<lparr>draws := 1\<rparr>) = (True, s', e') \<and>
     isRunning s' \<and> udpBound s' \<and> length (privateKey (x25519KeyPair s')) = 32"
proof -
  obtain ok s' e' where r: "start ref_qt 43295 None None desk (quietEnv\<lparr>draws := 1\<rparr>) = (ok, s', e')"
    by (metis prod_cases3)
  have idle: "\<not> listening desk" by (simp add: desk_def newServer_def split: prod.split)
  have "length (publicKey (x25519KeyPair desk)) = 32"
    using reachable_inv [OF desk_reachable] desk_facts(1) by (simp add: server_inv_def sockets_inv_def)
  then have run: "ok" "isRunning s'"
    using r idle by (auto simp: start_def isRunning_def broadcastDiscovery_def Let_def split: prod.splits)
  have "reachable ref_qt ref_ssl ([] @ []) (s', e')"
    by (rule reachable.step [OF desk_reachable]) (rule server_step.started [OF r])
  from server_invariant [OF this] run r show ?thesis by simp
qed

text \<open>\<open>start\<close> returns whether the server is running. A running server is left as it is; otherwise
  the port is set, and the result is true exactly if the key pair is valid and both sockets could
  be opened: then UDP socket and timer run, one packet is broadcast and there is a new code of at
  least 16 characters stamped with the current time. On failure no socket and no timer is left.\<close>

theorem start_reports_running:
  "let (ok, s', e') = start Q newPort listenError bindError s e in
     ok = isRunning s' \<and> (isRunning s \<longrightarrow> s' = s \<and> e' = e) \<and>
     (\<not> isRunning s \<longrightarrow> port s' = newPort \<and>
        ok = (length (publicKey (x25519KeyPair s)) = 32 \<and> listenError = None \<and> bindError = None) \<and>
        (ok \<longrightarrow> udpBound s' \<and> discoveryTimer s' \<and> 16 \<le> length (pairingCode s') \<and>
           pairingCreatedAt s' = clock e (ticks e) \<and>
           WriteDatagram (toJson Q (JObject (discoveryPacket Q s'))) newPort \<in> set (outbox s')) \<and>
        (\<not> ok \<longrightarrow> udpBound s' = udpBound s \<and> discoveryTimer s' = discoveryTimer s))"
proof (cases "listening s")
  case False
  obtain code e1 where c: "newPairingCode Q e = (code, e1)" by fastforce
  then have e1: "clock e1 = clock e" "ticks e1 = ticks e" and len: "16 \<le> length code"
    by (auto simp: newPairingCode_def generate64_def rightJustified_def)
  have packet: "discoveryPacket Q (s'\<lparr>outbox := X\<rparr>) = discoveryPacket Q s'" for X s'
    by (simp add: discoveryPacket_def)
  show ?thesis
    using False e1 len
    by (cases listenError; cases bindError)
       (simp_all add: start_def c currentSecs_def isRunning_def broadcastDiscovery_def emit_def packet Let_def)
qed (simp add: start_def isRunning_def)

theorem start_reports_running_witness:
  "\<exists>s' e'. start ref_qt 43295 None None desk quietEnv = (True, s', e') \<and> udpBound s' \<and>
     16 \<le> length (pairingCode s') \<and> port s' = 43295 \<and> pairingCreatedAt s' = 1000"
proof -
  obtain ok s' e' where r: "start ref_qt 43295 None None desk quietEnv = (ok, s', e')"
    by (metis prod_cases3)
  have "\<not> isRunning desk" by (simp add: desk_def newServer_def isRunning_def split: prod.split)
  moreover have "length (publicKey (x25519KeyPair desk)) = 32"
    using reachable_inv [OF desk_reachable] desk_facts(1) by (simp add: server_inv_def sockets_inv_def)
  ultimately show ?thesis
    using start_reports_running [of ref_qt 43295 None None desk quietEnv] r by (auto simp: quietEnv_def)
qed

fun disconnects :: "event list \<Rightarrow> socket list" where
  "disconnects [] = []"
| "disconnects (SocketDisconnect k # es) = k # disconnects es"
| "disconnects (_ # es) = disconnects es"

lemma disconnects_append [simp]: "disconnects (xs @ ys) = disconnects xs @ disconnects ys"
  by (induction xs rule: disconnects.induct) simp_all

lemma stop_loop_disconnects:
  "disconnects (outbox (fold (\<lambda>(socket, atOnce) s. let s = emit (SocketDisconnect socket) s
       in if atOnce then clientDisconnected (Some socket) s else s) sockets s)) =
   disconnects (outbox s) @ map fst sockets"
proof (induction sockets arbitrary: s)
  case (Cons ks sockets)
  then show ?case by (cases ks) (simp add: clientDisconnected_def Let_def)
qed simp

text \<open>\<open>stop\<close> closes everything and forgets no device. It disconnects every connection once, in
  the order of the hash, whether or not a connection closes while the loop still runs; afterwards
  there is no buffer, socket or timer, the keys, the code and the replay guard are as before, and
  the server can be started again.\<close>

theorem stop_closes_everything:
  "let s' = stop sockets s in
     \<not> isRunning s' \<and> \<not> udpBound s' \<and> \<not> discoveryTimer s' \<and> buffers s' = Map.empty \<and>
     disconnects (outbox s') = disconnects (outbox s) @ map fst sockets \<and>
     pairedKeys s' = pairedKeys s \<and> sessionKeys s' = sessionKeys s \<and> replayGuard s' = replayGuard s \<and>
     pairingCode s' = pairingCode s \<and>
     fst (start Q newPort None None s' e) = (length (publicKey (x25519KeyPair s)) = 32)"
proof -
  obtain X where s': "stop sockets s = s\<lparr>discoveryTimer := False, buffers := Map.empty, listening := False,
      udpBound := False, outbox := X\<rparr>"
    using stop_eq by blast
  have "disconnects (outbox (stop sockets s)) = disconnects (outbox s) @ map fst sockets"
    by (simp add: stop_def Let_def stop_loop_disconnects [unfolded Let_def])
  moreover have "fst (start Q newPort None None (stop sockets s) e) = (length (publicKey (x25519KeyPair s)) = 32)"
    by (simp add: s' start_def Let_def split: prod.split)
  ultimately show ?thesis by (simp add: s' isRunning_def Let_def)
qed

end
