(* ===== verification/Traces.thy ===== *)
theory Traces
  imports Lifecycle
begin

text \<open>
  Properties of whole runs of the server: every authorization in a run goes back to a pairing and
  a signature, and one signed challenge is honoured a bounded number of times.
\<close>

section \<open>What a line does to the guard and the clock\<close>

text \<open>The clock of an environment is the same function, read at the same or a later tick.\<close>

definition later :: "env \<Rightarrow> env \<Rightarrow> bool" where
  "later e e' \<longleftrightarrow> clock e' = clock e \<and> ticks e \<le> ticks e'"

lemma later_refl [simp]: "later e e"
  by (simp add: later_def)

lemma later_trans: "later e e' \<Longrightarrow> later e' e'' \<Longrightarrow> later e e''"
  by (auto simp: later_def)

lemma later_steps [simp]:
  "later e (snd (currentSecs e))" "later e (snd (fillRandom Q n e))"
  "later e (snd (encryptedResponse Q L d p s e))" "later e (e\<lparr>ticks := ticks e + n, draws := m\<rparr>)"
  "later e (snd (snd (accept Q nonce t g e)))"
  by (simp_all add: later_def env_simps encryptedResponse_env)

lemma authorize_guard:
  assumes "authorize Q L d n t sg s e = (ok, err, s', e')"
  obtains (checked) b where "accept Q n t (replayGuard s) e = (b, replayGuard s', e')" "ok \<longrightarrow> b"
    | (unpaired) "s' = s" "e' = e" "\<not> ok"
proof (cases "pairedKeys s d")
  case None
  then show ?thesis using assms unpaired by (simp add: authorize_eq)
next
  case (Some pk)
  obtain b g e1 where "accept Q n t (replayGuard s) e = (b, g, e1)" by (metis prod_cases3)
  then show ?thesis using assms checked by (auto simp: authorize_eq Some split: if_splits)
qed

lemma processLine_guard:
  obtains (checked) n t b e1 where
      "accept Q n t (replayGuard s) e = (b, replayGuard (fst (processLine Q L k line s e)), e1)"
      "later e1 (snd (processLine Q L k line s e))"
      "milestonesOf Q L line s e = [] \<or> b \<and> (\<exists>d. milestonesOf Q L line s e = [Granted d n t])"
    | (idle) "replayGuard (fst (processLine Q L k line s e)) = replayGuard s"
      "later e (snd (processLine Q L k line s e))"
      "\<forall>d n t. Granted d n t \<notin> set (milestonesOf Q L line s e)"
proof (cases "\<exists>request. fromJson Q line = Some (JObject request)")
  case True
  then obtain request where r: "fromJson Q line = Some (JObject request)" by blast
  have out: "replayGuard (fst (processLine Q L k line s e)) = replayGuard (fst (snd (respond Q L request s e)))"
    "snd (processLine Q L k line s e) = snd (snd (respond Q L request s e))"
    by (simp_all add: processLine_def r split: prod.split)
  show ?thesis
  proof (cases "isPairRequest request")
    case True
    then have p: "respond Q L request s e = pairResponse Q L request s e" by (simp add: respond_def)
    have "\<forall>d n t. Granted d n t \<notin> set (milestonesOf Q L line s e)"
      using True by (simp add: milestonesOf_def r)
    moreover have "replayGuard (fst (snd (respond Q L request s e))) = replayGuard s \<and>
        later e (snd (snd (respond Q L request s e)))"
      unfolding p
      by (cases rule: pairResponse_cases [where Q = Q and L = L and request = request and s = s and e = e])
         auto
    ultimately show ?thesis using idle out by simp
  next
    case nopair: False
    show ?thesis
    proof (cases "decryptRequest Q L request s")
      case (Inl err)
      then show ?thesis using idle out nopair by (simp add: milestonesOf_def respond_def r)
    next
      case (Inr dp)
      then obtain d p where dp: "decryptRequest Q L request s = Inr (d, p)" by (cases dp) simp
      show ?thesis
      proof (cases "toString (jvalue p ''type'') = qs ''verify''")
        case True
        obtain ok err s' e' where a: "authorizeFields Q L d p s e = (ok, err, s', e')" by (metis prod_cases4)
        have res: "respond Q L request s e = verifyResponse Q L d p s e"
          using True dp nopair by (simp add: respond_def Let_def)
        have guard: "replayGuard (fst (processLine Q L k line s e)) = replayGuard s'"
          and time: "later e' (snd (processLine Q L k line s e))"
          by (simp_all add: out res verifyResponse_eq [OF a])
        have ms: "milestonesOf Q L line s e = (if ok then [Granted d (unhexText Q (toString (jvalue p ''nonce'')))
            (toLongLong Q (jvalue p ''timestamp''))] else [])"
          using True nopair by (simp add: milestonesOf_def r dp a)
        from a show ?thesis
        proof (cases rule: authorize_guard)
          case (checked b)
          then show ?thesis using that(1) guard time ms by simp
        next
          case unpaired
          then show ?thesis using idle guard time ms by simp
        qed
      next
        case False
        have ms: "milestonesOf Q L line s e = []" using False nopair by (simp add: milestonesOf_def r dp)
        show ?thesis
        proof (cases "toString (jvalue p ''type'') = qs ''challenge''")
          case True
          let ?e1 = "snd (fillRandom Q 32 e)"
          have "later e (snd (encryptedResponse Q L d q s (snd (currentSecs ?e1))))" for q
            by (meson later_steps(1-3) later_trans)
          then show ?thesis
            using idle out ms by (simp add: challenge_respond [OF dp True] Let_def)
        next
          case no: False
          have "fst (snd (respond Q L request s e)) = s \<and> later e (snd (snd (respond Q L request s e)))"
            using False no dp nopair
            by (auto simp: respond_def Let_def split: prod.split) (metis later_steps(3) snd_conv)
          then show ?thesis using idle out ms by simp
        qed
      qed
    qed
  qed
next
  case False
  then have "milestonesOf Q L line s e = []"
    by (auto simp: milestonesOf_def split: option.split json.split)
  then show ?thesis using idle by (simp add: processLine_not_object [OF False])
qed

text \<open>Every step but a read leaves keys and guard alone.\<close>

lemma other_steps:
  assumes "server_step Q L st new st'"
  obtains (read) s e sender bytes where "st = (s, e)" "new = readMilestones Q L sender bytes s e"
      "st' = readClient Q L sender bytes s e"
    | (other) "new = []" "pairedKeys (fst st') = pairedKeys (fst st)"
      "replayGuard (fst st') = replayGuard (fst st)" "later (snd st) (snd st')"
  using assms
proof (cases rule: server_step.cases)
  case (started newPort listenError bindError s e ok s' e')
  have "pairedKeys s' = pairedKeys s \<and> replayGuard s' = replayGuard s \<and> later e e'"
    using started(4)
    by (auto simp: start_def newPairingCode_def generate64_def currentSecs_def later_def broadcastDiscovery_def
        Let_def split: if_splits option.splits)
  then show ?thesis using other started by simp
next
  case (stopped sockets s e)
  then show ?thesis using other stop_eq [of sockets s] by auto
next
  case (connected s e pending)
  have "pairedKeys (acceptConnections pending s) = pairedKeys s \<and>
      replayGuard (acceptConnections pending s) = replayGuard s"
    by (induction pending s rule: acceptConnections.induct) simp_all
  then show ?thesis using other connected by simp
next
  case (received s e sender bytes)
  then show ?thesis using read by blast
next
  case (disconnected s e sender)
  then show ?thesis using other by (simp add: clientDisconnected_def split: option.split)
next
  case (datagrams s e pending)
  then show ?thesis using other by (simp add: broadcast_fold)
next
  case (timeout s e)
  then show ?thesis using other by (simp add: broadcastDiscovery_def)
next
  case (payload host addresses s e shown s' e')
  then have r: "refreshCode Q s e = (s', e')" using pairingPayload_state by blast
  have "later e (snd (refreshCode Q s e))"
    by (auto simp: refreshCode_def newPairingCode_def generate64_def currentSecs_def later_def Let_def)
  then show ?thesis using other payload r refreshCode_state [of Q s e] by auto
next
  case (elsewhere s e n m)
  then show ?thesis using other by simp
qed

section \<open>Every authorization goes back to a pairing\<close>

fun pairStep :: "milestone \<Rightarrow> (qstring \<rightharpoonup> bytes) \<Rightarrow> (qstring \<rightharpoonup> bytes)" where
  "pairStep (Paired d pk) keys = keys(d \<mapsto> pk)"
| "pairStep (Granted d n t) keys = keys"

definition pairings :: "milestone list \<Rightarrow> (qstring \<rightharpoonup> bytes)" where
  "pairings trace = fold pairStep trace Map.empty"

text \<open>Each grant is covered by a signature under the key of the pairings before it.\<close>

fun accountable :: "(bytes \<Rightarrow> bytes \<Rightarrow> bytes \<Rightarrow> bool) \<Rightarrow> (qstring \<rightharpoonup> bytes) \<Rightarrow> milestone list \<Rightarrow> bool" where
  "accountable valid keys [] \<longleftrightarrow> True"
| "accountable valid keys (Paired d pk # ms) \<longleftrightarrow> accountable valid (keys(d \<mapsto> pk)) ms"
| "accountable valid keys (Granted d n t # ms) \<longleftrightarrow>
     (\<exists>pk sig. keys d = Some pk \<and> valid pk (n @ timestampBytes t) sig \<and> length sig = 64) \<and> accountable valid keys ms"

lemma accountable_append:
  "accountable valid keys (xs @ ys) \<longleftrightarrow> accountable valid keys xs \<and> accountable valid (fold pairStep xs keys) ys"
  by (induction valid keys xs rule: accountable.induct) (simp_all del: fun_upd_apply)

lemma processLine_milestones:
  assumes "ed25519_laws L valid"
  shows "pairedKeys (fst (processLine Q L k line s e)) = fold pairStep (milestonesOf Q L line s e) (pairedKeys s)
     \<and> accountable valid (pairedKeys s) (milestonesOf Q L line s e)"
proof (cases "\<exists>request. fromJson Q line = Some (JObject request)")
  case True
  then obtain request where r: "fromJson Q line = Some (JObject request)" by blast
  have out: "pairedKeys (fst (processLine Q L k line s e)) = pairedKeys (fst (snd (respond Q L request s e)))"
    by (simp add: processLine_def r split: prod.split)
  show ?thesis
  proof (cases "isPairRequest request")
    case True
    then have p: "respond Q L request s e = pairResponse Q L request s e" by (simp add: respond_def)
    show ?thesis
      unfolding out p milestonesOf_def
      by (cases rule: pairResponse_cases [where Q = Q and L = L and request = request and s = s and e = e])
         (simp_all add: r True errorResponse_def pairedReply_def)
  next
    case False
    then obtain g X where "fst (snd (respond Q L request s e)) = s\<lparr>replayGuard := g, outbox := X\<rparr>"
      by (rule respond_not_pair)
    moreover have "milestonesOf Q L line s e = [] \<or> (\<exists>d n t sg. milestonesOf Q L line s e = [Granted d n t] \<and>
        fst (authorize Q L d n t sg s e))"
      using False by (auto simp: milestonesOf_def r split: sum.split)
    ultimately show ?thesis
      unfolding out by (auto simp: authorize_iff [OF assms] maySign_def)
  qed
next
  case False
  then have "milestonesOf Q L line s e = []"
    by (auto simp: milestonesOf_def split: option.split json.split)
  then show ?thesis by (simp add: processLine_not_object [OF False])
qed

text \<open>
  The milestones are what the server itself announces while it handles the line: the messages of its
  log, after which it writes the answer.
\<close>

fun announcement :: "milestone \<Rightarrow> event" where
  "announcement (Paired d pk) = LogMessage (qs ''paired device '' @ d)"
| "announcement (Granted d n t) = LogMessage (qs ''device '' @ d @ qs '' authorized'')"

fun announces :: "event \<Rightarrow> bool" where
  "announces (LogMessage m) \<longleftrightarrow> take 14 m = qs ''paired device '' \<or> take 7 m = qs ''device ''"
| "announces _ \<longleftrightarrow> False"

lemma announces_log: "announces (LogMessage (qs ''paired device '' @ d))"
    "announces (LogMessage (qs ''device '' @ d))" "\<not> announces (LogMessage (qs ''authorization rejected: '' @ d))"
  by (simp_all add: qs_def)

lemma milestones_announced:
  "\<exists>evs answer. outbox (fst (processLine Q L k line s e)) = outbox s @ evs @ [SocketWrite k answer] \<and>
     filter announces evs = map announcement (milestonesOf Q L line s e)"
proof (cases "\<exists>request. fromJson Q line = Some (JObject request)")
  case True
  then obtain request where r: "fromJson Q line = Some (JObject request)" by blast
  have "\<exists>evs. outbox (fst (snd (respond Q L request s e))) = outbox s @ evs \<and>
      filter announces evs = map announcement (milestonesOf Q L line s e)"
  proof (cases "isPairRequest request")
    case True
    then have p: "respond Q L request s e = pairResponse Q L request s e" by (simp add: respond_def)
    show ?thesis
      unfolding p milestonesOf_def
      by (cases rule: pairResponse_cases [where Q = Q and L = L and request = request and s = s and e = e])
         (simp_all add: r True errorResponse_def pairedReply_def pairedState_def announces_log)
  next
    case False
    show ?thesis
    proof (cases "decryptRequest Q L request s")
      case (Inr dp)
      obtain d p where dp: "dp = (d, p)" by (cases dp)
      obtain ok err s1 e1 where a: "authorizeFields Q L d p s e = (ok, err, s1, e1)" by (metis prod_cases4)
      then obtain g where "s1 = s\<lparr>replayGuard := g\<rparr>" using authorize_keys by blast
      with a False Inr show ?thesis
        by (auto simp: respond_def milestonesOf_def r dp verifyResponse_eq verdictLog_def Let_def announces_log
            simp del: announces.simps split: prod.split)
    qed (use False in \<open>simp add: respond_def milestonesOf_def r\<close>)
  qed
  then show ?thesis by (auto simp: processLine_def r writeLine_def split: prod.split)
next
  case False
  then have "milestonesOf Q L line s e = []"
    by (auto simp: milestonesOf_def split: option.split json.split)
  then show ?thesis by (simp add: processLine_not_object [OF False] writeLine_def)
qed

lemma lines_milestones:
  assumes "ed25519_laws L valid"
  shows "pairedKeys (fst (fold (handleLine Q L k) lines st)) = fold pairStep (milestonesAlong Q L k lines st) (pairedKeys (fst st))
     \<and> accountable valid (pairedKeys (fst st)) (milestonesAlong Q L k lines st)"
proof (induction lines arbitrary: st)
  case (Cons line lines)
  from processLine_milestones [OF assms, of Q k line "fst st" "snd st"] Cons [of "handleLine Q L k line st"]
  show ?case by (simp add: accountable_append)
qed simp

lemma readClient_milestones:
  assumes "ed25519_laws L valid"
  shows "pairedKeys (fst (readClient Q L sender bytes s e)) = fold pairStep (readMilestones Q L sender bytes s e) (pairedKeys s)
     \<and> accountable valid (pairedKeys s) (readMilestones Q L sender bytes s e)"
proof (cases sender)
  case (Some k)
  have keys: "pairedKeys (setBuffer k b s) = pairedKeys s" for b s by (simp add: setBuffer_def)
  show ?thesis
    using lines_milestones [OF assms, of Q k "requests (bufferOf s k @ bytes)" "(setBuffer k (bufferOf s k @ bytes) s, e)"]
    by (simp add: Some readClient_eq readMilestones_def Let_def keys)
qed (simp add: readClient_def readMilestones_def)

lemma reachable_keys:
  assumes "ed25519_laws L valid" and "reachable Q L trace st"
  shows "pairedKeys (fst st) = pairings trace \<and> accountable valid Map.empty trace"
  using assms(2)
proof (induction rule: reachable.induct)
  case (constructed e)
  then show ?case by (simp add: newServer_def pairings_def Let_def split: prod.split)
next
  case (step trace st new st')
  from step(2) show ?case
  proof (cases rule: other_steps)
    case (read s e sender bytes)
    then show ?thesis
      using readClient_milestones [OF assms(1), of Q sender bytes s e] step(3)
      by (simp add: pairings_def accountable_append)
  next
    case other
    then show ?thesis using step(3) by simp
  qed
qed

section \<open>How often one challenge is honoured\<close>

definition grantsOf :: "bytes \<Rightarrow> qint64 \<Rightarrow> milestone list \<Rightarrow> nat" where
  "grantsOf nonce timestamp trace = length (filter (\<lambda>m. \<exists>d. m = Granted d nonce timestamp) trace)"

lemma grantsOf_simps [simp]:
  "grantsOf n t [] = 0" "grantsOf n t (xs @ ys) = grantsOf n t xs + grantsOf n t ys"
  by (simp_all add: grantsOf_def)

text \<open>\<open>spent j\<close>: the guard has let the pair pass \<open>j\<close> times.\<close>

definition spent :: "qt \<Rightarrow> bytes \<Rightarrow> qint64 \<Rightarrow> nat \<Rightarrow> ReplayGuard \<Rightarrow> env \<Rightarrow> bool" where
  "spent Q nonce timestamp j g e \<longleftrightarrow>
     sane_clock e \<and> guard_ok g e \<and> stage j (replayToken Q nonce timestamp) timestamp g \<and> j \<le> 3"

lemma spent_later: "spent Q n t j g e \<Longrightarrow> later e e' \<Longrightarrow> spent Q n t j g e'"
proof -
  assume sp: "spent Q n t j g e" and e': "later e e'"
  then have "sane_clock e" by (simp add: spent_def)
  then have "sint (clock e (ticks e)) \<le> sint (clock e (ticks e'))"
    using e' by (intro sane_clock_range(3)) (simp_all add: later_def)
  then have "guard_ok g e'" using sp e' by (auto simp: spent_def guard_ok_def later_def)
  then show ?thesis using sp e' by (simp add: spent_def later_def sane_clock_def)
qed

lemma spent_line:
  assumes "spent Q nonce timestamp j (replayGuard s) e" and "\<bar>sint timestamp\<bar> < 2 ^ 62"
  shows "\<exists>j'. j + grantsOf nonce timestamp (milestonesOf Q L line s e) \<le> j' \<and>
     spent Q nonce timestamp j' (replayGuard (fst (processLine Q L k line s e))) (snd (processLine Q L k line s e))"
proof (cases rule: processLine_guard [where Q = Q and L = L and k = k and line = line and s = s and e = e])
  case (checked n t b e1)
  let ?hit = "b \<and> n = nonce \<and> t = timestamp" and ?g = "replayGuard (fst (processLine Q L k line s e))"
  have sp: "sane_clock e" "guard_ok (replayGuard s) e" "j \<le> 3"
      "stage j (replayToken Q nonce timestamp) timestamp (replayGuard s)"
    using assms(1) by (simp_all add: spent_def)
  note st = accept_stage [OF sp(1,2,4) assms(2) checked(1)]
  have "sane_clock e1"
    using sp(1) accept_env(1) [where Q = Q and n = n and t = t and g = "replayGuard s" and e = e]
    by (simp add: checked(1) sane_clock_def)
  then have "spent Q nonce timestamp (if ?hit then Suc j else j) ?g e1"
    using st sp(3) by (cases "j = 3") (auto simp: spent_def)
  then have "spent Q nonce timestamp (if ?hit then Suc j else j) ?g (snd (processLine Q L k line s e))"
    using checked(2) by (rule spent_later)
  moreover have "grantsOf nonce timestamp (milestonesOf Q L line s e) \<le> (if ?hit then 1 else 0)"
    using checked(3) by (auto simp: grantsOf_def)
  ultimately show ?thesis by (intro exI [of _ "if ?hit then Suc j else j"]) auto
next
  case idle
  then have "grantsOf nonce timestamp (milestonesOf Q L line s e) = 0"
    by (auto simp: grantsOf_def filter_empty_conv)
  then show ?thesis using idle spent_later [OF assms(1)] by auto
qed

lemma spent_lines:
  assumes "\<bar>sint timestamp\<bar> < 2 ^ 62"
  shows "spent Q nonce timestamp j (replayGuard (fst st)) (snd st) \<Longrightarrow>
   \<exists>j'. j + grantsOf nonce timestamp (milestonesAlong Q L k lines st) \<le> j' \<and>
     spent Q nonce timestamp j' (replayGuard (fst (fold (handleLine Q L k) lines st)))
       (snd (fold (handleLine Q L k) lines st))"
proof (induction lines arbitrary: j st)
  case (Cons line lines)
  from spent_line [OF Cons.prems assms, of L line k] obtain j1 where
      "j + grantsOf nonce timestamp (milestonesOf Q L line (fst st) (snd st)) \<le> j1"
      "spent Q nonce timestamp j1 (replayGuard (fst (handleLine Q L k line st))) (snd (handleLine Q L k line st))"
    by blast
  moreover from this(2) Cons.IH obtain j' where
      "j1 + grantsOf nonce timestamp (milestonesAlong Q L k lines (handleLine Q L k line st)) \<le> j'"
      "spent Q nonce timestamp j' (replayGuard (fst (fold (handleLine Q L k) lines (handleLine Q L k line st))))
         (snd (fold (handleLine Q L k) lines (handleLine Q L k line st)))" by blast
  ultimately show ?case by (intro exI [of _ j']) simp
qed auto

lemma processLine_clock: "clock (snd (processLine Q L k line s e)) = clock e"
proof (cases rule: processLine_guard [where Q = Q and L = L and k = k and line = line and s = s and e = e])
  case (checked n t b e1)
  then show ?thesis
    using accept_env(1) [where Q = Q and n = n and t = t and g = "replayGuard s" and e = e]
    by (simp add: later_def)
qed (simp add: later_def)

lemma lines_clock: "clock (snd (fold (handleLine Q L k) lines st)) = clock (snd st)"
  by (induction lines arbitrary: st) (simp_all add: processLine_clock)

lemma reachable_spent:
  assumes "\<bar>sint timestamp\<bar> < 2 ^ 62" and "reachable Q L trace st"
  shows "sane_clock (snd st) \<Longrightarrow>
    \<exists>j. grantsOf nonce timestamp trace \<le> j \<and> spent Q nonce timestamp j (replayGuard (fst st)) (snd st)"
  using assms(2)
proof (induction rule: reachable.induct)
  case (constructed e)
  then have "sane_clock (snd (newServer Q L e))" by simp
  moreover have "replayGuard (fst (newServer Q L e)) = newReplayGuard"
    by (simp add: newServer_def split: prod.split)
  ultimately have "spent Q nonce timestamp 0 (replayGuard (fst (newServer Q L e))) (snd (newServer Q L e))"
    using sane_clock_range(1) by (simp add: spent_def stage_def guard_ok_def newReplayGuard_def)
  then show ?case by auto
next
  case (step trace st new st')
  from step(2) show ?case
  proof (cases rule: other_steps)
    case (read s e sender bytes)
    show ?thesis
    proof (cases sender)
      case None
      then show ?thesis using read step(3,4) by (simp add: readClient_def readMilestones_def)
    next
      case (Some k)
      let ?lines = "requests (bufferOf s k @ bytes)" and ?u = "(setBuffer k (bufferOf s k @ bytes) s, e)"
      have guard: "replayGuard (setBuffer k b s) = replayGuard s" for b s by (simp add: setBuffer_def)
      have st': "replayGuard (fst st') = replayGuard (fst (fold (handleLine Q L k) ?lines ?u))"
          "snd st' = snd (fold (handleLine Q L k) ?lines ?u)"
          "new = milestonesAlong Q L k ?lines ?u"
        by (simp_all add: read Some readClient_eq readMilestones_def Let_def guard)
      have "sane_clock e"
      proof -
        have "clock (snd (fold (handleLine Q L k) ?lines ?u)) = clock e"
          using lines_clock [of Q L k ?lines ?u] by simp
        with step(4) show ?thesis by (simp add: st'(2) sane_clock_def)
      qed
      then obtain j where j: "grantsOf nonce timestamp trace \<le> j" "spent Q nonce timestamp j (replayGuard s) e"
        using step(3) read(1) by auto
      then have "spent Q nonce timestamp j (replayGuard (fst ?u)) (snd ?u)" by (simp add: guard)
      from spent_lines [OF assms(1) this] obtain j' where
          "j + grantsOf nonce timestamp (milestonesAlong Q L k ?lines ?u) \<le> j'"
          "spent Q nonce timestamp j' (replayGuard (fst st')) (snd st')"
        unfolding st'(1,2) by blast
      with j(1) show ?thesis by (intro exI [of _ j']) (simp add: st'(3))
    qed
  next
    case other
    then have "sane_clock (snd st)" using step(4) by (simp add: later_def sane_clock_def)
    with step(3) obtain j where "grantsOf nonce timestamp trace \<le> j"
        "spent Q nonce timestamp j (replayGuard (fst st)) (snd st)" by blast
    with other spent_later show ?thesis by auto
  qed
qed

section \<open>A run\<close>

text \<open>A complete run for the witnesses: construction, payload, pairing, authorization.\<close>

lemma line_received:
  assumes "json_laws Q" and "bufferOf s k = []"
  shows "readMilestones Q L (Some k) (toJson Q (JObject ob) @ [10]) s e =
       milestonesOf Q L (toJson Q (JObject ob)) (setBuffer k (toJson Q (JObject ob) @ [10]) s) e" (is ?marks)
    and "readClient Q L (Some k) (toJson Q (JObject ob) @ [10]) s e =
       storeBuffer k [] (processLine Q L k (toJson Q (JObject ob))
         (setBuffer k (toJson Q (JObject ob) @ [10]) s) e)" (is ?state)
proof -
  have "requests (toJson Q (JObject ob) @ [10]) = [toJson Q (JObject ob)]"
    and "snd (splitLines (toJson Q (JObject ob) @ [10])) = []"
    using requests_written [OF assms(1), of "[ob]" "[]"] by (simp_all add: requests_def)
  then show ?marks ?state
    by (simp_all add: readMilestones_def readClient_eq assms(2) Let_def)
qed

abbreviation demoKey :: bytes where
  "demoKey \<equiv> ref_dh (privateKey (x25519KeyPair desk)) (replicate 32 2)"

definition demoTrace :: "milestone list" where
  "demoTrace = [Paired (qs ''phone'') (replicate 32 1), Granted (qs ''phone'') [8, 9] 1000]"

lemma demo_pairing:
  obtains s e where "reachable ref_qt ref_ssl [Paired (qs ''phone'') (replicate 32 1)] (s, e)"
    "clock e = (\<lambda>_. 1000)" "sessionKeys s (qs ''phone'') = Some demoKey"
    "pairedKeys s (qs ''phone'') = Some (replicate 32 1)" "replayGuard s = newReplayGuard" "bufferOf s 4 = []"
proof -
  let ?e0 = "quietEnv\<lparr>draws := 1\<rparr>"
  obtain shown s1 e1 where p: "pairingPayload ref_qt [] [] desk ?e0 = (shown, s1, e1)"
    by (metis prod_cases3)
  have env: "clock e1 = (\<lambda>_. 1000)"
    and s1: "\<exists>code. s1 = desk\<lparr>pairingCode := code, pairingCreatedAt := 1000\<rparr>"
    using p by (auto simp: pairingPayload_def refreshCode_def desk_facts newPairingCode_def generate64_def
        currentSecs_def quietEnv_def Let_def)
  have desk: "buffers desk = Map.empty" "replayGuard desk = newReplayGuard"
    by (simp_all add: desk_def newServer_def split: prod.split)
  from s1 obtain code where code: "s1 = desk\<lparr>pairingCode := code, pairingCreatedAt := 1000\<rparr>" by blast
  have r1: "reachable ref_qt ref_ssl ([] @ []) (s1, e1)"
    by (rule reachable.step [OF desk_reachable]) (rule server_step.payload [OF p])
  let ?ob = "phoneRequest code" and ?line = "toJson ref_qt (JObject (phoneRequest code))"
  let ?u = "setBuffer 4 (?line @ [10]) s1"
  have pairable: "pairable ref_qt ?ob ?u (clock e1 (ticks e1))"
    by (simp add: pairable_def phoneRequest_fields env setBuffer_def code)
  have key: "length (privateKey (x25519KeyPair ?u)) = 32" by (simp add: setBuffer_def code desk_facts)
  have agreed: "ref_agree (privateKey (x25519KeyPair ?u)) (deviceKeyOf ref_qt ?ob) = Some demoKey"
    by (simp add: ref_agree_def phoneRequest_fields) (simp add: setBuffer_def code)
  have b: "bufferOf s1 4 = []" by (simp add: bufferOf_def hashValue_def code desk)
  have marks: "readMilestones ref_qt ref_ssl (Some 4) (?line @ [10]) s1 e1 =
      [Paired (qs ''phone'') (replicate 32 1)]"
    using pairResponse_accepts [OF ref_x25519_laws key pairable]
    by (simp add: line_received [OF ref_laws(1) b] milestonesOf_def phoneRequest_fields
        agreed [unfolded phoneRequest_fields])
  have step: "reachable ref_qt ref_ssl [Paired (qs ''phone'') (replicate 32 1)]
      (readClient ref_qt ref_ssl (Some 4) (?line @ [10]) s1 e1)"
    using reachable.step [OF r1 server_step.received [of ref_qt ref_ssl s1 e1 "Some 4" "?line @ [10]"]]
    by (simp add: marks)
  have res: "readClient ref_qt ref_ssl (Some 4) (?line @ [10]) s1 e1 =
      storeBuffer 4 [] (writeLine ref_qt 4 (pairedReply ref_qt ?u)
         (pairedState (qs ''phone'') (replicate 32 1) demoKey ?u), snd (currentSecs e1))"
    using pair_line_accepted [OF ref_x25519_laws key phoneRequest_fields(1,2) pairable agreed, of 4]
    by (simp add: line_received [OF ref_laws(1) b] phoneRequest_fields)
  obtain s2 e2 where r2: "readClient ref_qt ref_ssl (Some 4) (?line @ [10]) s1 e1 = (s2, e2)" by fastforce
  then have s2: "s2 = setBuffer 4 [] (writeLine ref_qt 4 (pairedReply ref_qt ?u)
         (pairedState (qs ''phone'') (replicate 32 1) demoKey ?u))" "e2 = snd (currentSecs e1)"
    using res by simp_all
  show thesis
    by (rule that [of s2 e2])
       (use step r2 in simp, simp_all add: s2 env env_simps setBuffer_def code desk bufferOf_def hashValue_def)
qed

lemma demo_run: "\<exists>s e. reachable ref_qt ref_ssl demoTrace (s, e) \<and> clock e = (\<lambda>_. 1000)"
proof -
  obtain s e where s: "reachable ref_qt ref_ssl [Paired (qs ''phone'') (replicate 32 1)] (s, e)"
    "clock e = (\<lambda>_. 1000)" "sessionKeys s (qs ''phone'') = Some demoKey"
    "pairedKeys s (qs ''phone'') = Some (replicate 32 1)" "replayGuard s = newReplayGuard" "bufferOf s 4 = []"
    by (rule demo_pairing)
  let ?p = "verifyPayload goodSignature" and ?ob = "sealedRequest demoKey (verifyPayload goodSignature)"
  let ?line = "toJson ref_qt (JObject (sealedRequest demoKey (verifyPayload goodSignature)))"
  let ?u = "setBuffer 4 (?line @ [10]) s"
  have u: "sessionKeys ?u (qs ''phone'') = Some demoKey" "pairedKeys ?u (qs ''phone'') = Some (replicate 32 1)"
      "replayGuard ?u = newReplayGuard"
    using s(3-5) by (simp_all add: setBuffer_def)
  have len: "length demoKey = 32" by (simp add: desk_facts)
  obtain p' where p': "decryptRequest ref_qt ref_ssl ?ob ?u = Inr (qs ''phone'', p')"
      "\<And>name. jvalue p' name = jvalue ?p name"
    by (rule sealed_object_opens [OF ref_qt_laws ref_gcm_laws u(1) len _ verifyPayload_fields(1)
          sealedRequest_fields [of demoKey ?p, folded seals_def]]) simp_all
  have "maySign ref_valid ref_qt ?u e (qs ''phone'') [8, 9] 1000 goodSignature"
    by (rule maySign_good) (simp_all add: u s(2))
  then have ok: "fst (authorizeFields ref_qt ref_ssl (qs ''phone'') p' ?u e)"
    by (simp add: authorize_iff [OF ref_ed25519_laws] p'(2) verifyPayload_fields)
  have parse: "fromJson ref_qt ?line = Some (JObject ?ob)"
    by (rule fromJson_ref_qt) (simp add: sealedRequest_def flat_secureEnvelope)
  have "\<not> isPairRequest ?ob" using sealedRequest_fields [of demoKey ?p] by (simp add: envelopeFields_def)
  then have marks: "readMilestones ref_qt ref_ssl (Some 4) (?line @ [10]) s e = [Granted (qs ''phone'') [8, 9] 1000]"
    using ok by (simp add: line_received [OF ref_laws(1) s(6)] milestonesOf_def parse p' verifyPayload_fields)
  have "reachable ref_qt ref_ssl demoTrace (readClient ref_qt ref_ssl (Some 4) (?line @ [10]) s e)"
    using reachable.step [OF s(1) server_step.received [of ref_qt ref_ssl s e "Some 4" "?line @ [10]"]]
    by (simp add: marks demoTrace_def)
  moreover have "clock (snd (readClient ref_qt ref_ssl (Some 4) (?line @ [10]) s e)) = clock e"
    by (simp add: line_received [OF ref_laws(1) s(6)] processLine_clock)
  ultimately show ?thesis using s(2) by (metis prod.collapse)
qed

section \<open>Properties\<close>

text \<open>C1: agreement. In every run of the server from its construction, each time a device is
  authorized for a nonce and a timestamp, that device was paired earlier in the run, and a 64-byte
  signature of exactly this nonce and timestamp is valid under the signing key of its last pairing
  before; and the signing keys the server holds are those of the last pairings of the run.\<close>

theorem authorization_agrees_with_pairing:
  assumes "ed25519_laws L valid" and "reachable Q L trace (s, e)"
  shows "pairedKeys s = pairings trace \<and>
     (\<forall>before d nonce timestamp after. trace = before @ Granted d nonce timestamp # after \<longrightarrow>
        (\<exists>pk sig. pairings before d = Some pk \<and> Paired d pk \<in> set before \<and>
           valid pk (nonce @ timestampBytes timestamp) sig \<and> length sig = 64))"
proof -
  have keys: "pairedKeys s = pairings trace" "accountable valid Map.empty trace"
    using reachable_keys [OF assms] by simp_all
  have paired: "fold pairStep ms keys d = Some pk \<Longrightarrow> keys d = Some pk \<or> Paired d pk \<in> set ms" for ms keys d pk
  proof (induction ms arbitrary: keys)
    case (Cons m ms)
    have "fold pairStep ms (pairStep m keys) d = Some pk" using Cons.prems by simp
    from Cons.IH [OF this] show ?case by (cases m) (auto split: if_splits)
  qed simp
  have "\<exists>pk sig. pairings before d = Some pk \<and> Paired d pk \<in> set before \<and>
      valid pk (nonce @ timestampBytes timestamp) sig \<and> length sig = 64"
    if "trace = before @ Granted d nonce timestamp # after" for before d nonce timestamp after
  proof -
    have "accountable valid (pairings before) (Granted d nonce timestamp # after)"
      using keys(2) by (simp only: that accountable_append pairings_def)
    then obtain pk sig where "pairings before d = Some pk" "valid pk (nonce @ timestampBytes timestamp) sig"
        "length sig = 64" by auto
    moreover from this(1) have "Paired d pk \<in> set before"
      using paired [of before Map.empty d pk] by (simp add: pairings_def)
    ultimately show ?thesis by blast
  qed
  with keys(1) show ?thesis by blast
qed

text \<open>C5: in every run of the server, under a clock that never runs backwards and for timestamps
  within \<open>2^62\<close> of zero, one nonce and timestamp is authorized at most three times, over all
  devices and connections and whatever else the run contains.\<close>

theorem challenge_honoured_at_most_thrice:
  assumes "reachable Q L trace (s, e)" and "sane_clock e" and "\<bar>sint timestamp\<bar> < 2 ^ 62"
  shows "length (filter (\<lambda>m. \<exists>d. m = Granted d nonce timestamp) trace) \<le> 3"
proof -
  obtain j where "grantsOf nonce timestamp trace \<le> j" "spent Q nonce timestamp j (replayGuard s) e"
    using reachable_spent [OF assms(3,1)] assms(2) by auto
  then show ?thesis by (simp add: grantsOf_def spent_def)
qed

theorem authorization_agrees_with_pairing_witness:
  "\<exists>s e. reachable ref_qt ref_ssl demoTrace (s, e) \<and> pairedKeys s (qs ''phone'') = Some (replicate 32 1) \<and>
     (\<exists>sig. ref_valid (replicate 32 1) ([8, 9] @ timestampBytes 1000) sig \<and> length sig = 64)"
proof -
  obtain s e where run: "reachable ref_qt ref_ssl demoTrace (s, e)" using demo_run by blast
  have trace: "demoTrace = [Paired (qs ''phone'') (replicate 32 1)] @ Granted (qs ''phone'') [8, 9] 1000 # []"
    and last: "pairings demoTrace (qs ''phone'') = Some (replicate 32 1)"
    and first: "pairings [Paired (qs ''phone'') (replicate 32 1)] (qs ''phone'') = Some (replicate 32 1)"
    by (simp_all add: demoTrace_def pairings_def)
  from authorization_agrees_with_pairing [OF ref_ed25519_laws run] trace
  have "pairedKeys s = pairings demoTrace" and "\<exists>pk sig. pairings [Paired (qs ''phone'') (replicate 32 1)]
      (qs ''phone'') = Some pk \<and> ref_valid pk ([8, 9] @ timestampBytes 1000) sig \<and> length sig = 64"
    by blast+
  then show ?thesis using run first last by auto
qed

theorem challenge_honoured_at_most_thrice_witness:
  "length (filter (\<lambda>m. \<exists>d. m = Granted d [8, 9] 1000) demoTrace) \<le> 3 \<and>
   Granted (qs ''phone'') [8, 9] 1000 \<in> set demoTrace"
proof -
  obtain s e where "reachable ref_qt ref_ssl demoTrace (s, e)" and "clock e = (\<lambda>_. 1000)"
    using demo_run by blast
  then show ?thesis
    using challenge_honoured_at_most_thrice [of ref_qt ref_ssl demoTrace s e 1000 "[8, 9]"]
    by (simp add: sane_clock_def demoTrace_def)
qed

end
