(* ===== verification/Pam.thy ===== *)
theory Pam
  imports Prelude
begin

text \<open>
  \<open>linux-pam/pam_openbiounlock.c\<close>: the PAM module. A system call takes its outcome from
  the record \<open>sys\<close>, one outcome per call in the order of the calls, so a run is determined by
  what the kernel answers; \<open>sent\<close> and \<open>consumed\<close> record the bytes that went over the
  socket. The three loops can run for ever, so they are partial functions whose \<open>None\<close> is
  not returning.

  A C string is the list of its bytes without the terminating zero.
\<close>

section \<open>System calls\<close>

text \<open>
  An outcome is the returned number, the value left in \<open>errno\<close> where that number is negative,
  and the data: \<open>revents\<close> of \<open>poll\<close>, the byte of \<open>read\<close>.
\<close>

record sys =
  errno :: int
  pollOutcome :: "nat \<Rightarrow> int \<times> int \<times> 16 word"
  pollCalls :: nat
  writeOutcome :: "nat \<Rightarrow> int \<times> int"
  writeCalls :: nat
  readOutcome :: "nat \<Rightarrow> int \<times> int \<times> byte"
  readCalls :: nat
  sent :: bytes
  consumed :: bytes

definition EINTR :: int where "EINTR = 4"
definition POLLIN :: "16 word" where "POLLIN = 1"
definition POLLOUT :: "16 word" where "POLLOUT = 4"

unbundle bit_operations_syntax

definition poll_call :: "sys \<Rightarrow> int \<times> 16 word \<times> sys" where
  "poll_call s = (case pollOutcome s (pollCalls s) of (result, code, revents) \<Rightarrow>
     (result, revents, s\<lparr>pollCalls := Suc (pollCalls s), errno := (if result < 0 then code else errno s)\<rparr>))"

text \<open>\<open>write\<close> takes at most the bytes it is given.\<close>

definition write_call :: "bytes \<Rightarrow> sys \<Rightarrow> int \<times> sys" where
  "write_call data s = (case writeOutcome s (writeCalls s) of (result, code) \<Rightarrow>
     let n = min result (int (length data))
     in (n, s\<lparr>writeCalls := Suc (writeCalls s), errno := (if n < 0 then code else errno s),
              sent := sent s @ take (nat n) data\<rparr>))"

definition read_call :: "sys \<Rightarrow> int \<times> byte \<times> sys" where
  "read_call s = (case readOutcome s (readCalls s) of (result, code, b) \<Rightarrow>
     let n = min result 1
     in (n, b, s\<lparr>readCalls := Suc (readCalls s), errno := (if n < 0 then code else errno s),
                 consumed := consumed s @ (if n = 1 then [b] else [])\<rparr>))"

section \<open>The loops\<close>

partial_function (option) wait_for_io :: "16 word \<Rightarrow> sys \<Rightarrow> (int \<times> sys) option" where
  "wait_for_io events s =
     (case poll_call s of (result, revents, s) \<Rightarrow>
        if result < 0 \<and> errno s = EINTR then wait_for_io events s
        else Some (if result = 1 \<and> revents AND events \<noteq> 0 then 0 else -1, s))"

partial_function (option) write_all :: "bytes \<Rightarrow> nat \<Rightarrow> sys \<Rightarrow> (int \<times> sys) option" where
  "write_all data offset s =
     (if offset < length data
      then Option.bind (wait_for_io POLLOUT s) (\<lambda>(ready, s).
        if ready \<noteq> 0 then Some (-1, s)
        else case write_call (drop offset data) s of (written, s) \<Rightarrow>
          if written \<le> 0
          then if errno s = EINTR then write_all data offset s else Some (-1, s)
          else write_all data (offset + nat written) s)
      else Some (0, s))"

text \<open>
  \<open>read_line\<close> with the bytes stored so far, \<open>buffer[0..length)\<close>. The result is the return
  value and the stored bytes; on success the zero is stored behind them.
\<close>

partial_function (option) read_line :: "nat \<Rightarrow> bytes \<Rightarrow> sys \<Rightarrow> (int \<times> bytes \<times> sys) option" where
  "read_line capacity buffer s =
     (if length buffer + 1 < capacity
      then Option.bind (wait_for_io POLLIN s) (\<lambda>(ready, s).
        if ready \<noteq> 0 then Some (-1, buffer, s)
        else case read_call s of (received, b, s) \<Rightarrow>
          if received = 0 then Some (-1, buffer, s)
          else if received < 0
          then if errno s = EINTR then read_line capacity buffer s else Some (-1, buffer, s)
          else if b = 10 then Some (0, buffer, s)
          else read_line capacity (buffer @ [b]) s)
      else Some (-1, buffer, s))"

section \<open>Request and response\<close>

text \<open>\<open>strstr\<close>: the suffix of the first string that the needle starts, \<open>None\<close> for NULL.\<close>

fun strstr :: "bytes \<Rightarrow> bytes \<Rightarrow> bytes option" where
  "strstr [] needle = (if needle = [] then Some [] else None)"
| "strstr (c # cs) needle =
     (if take (length needle) (c # cs) = needle then Some (c # cs) else strstr cs needle)"

definition typeNeedle :: bytes where
  "typeNeedle = byteLit ''\"type\":\"authorized\"''"

definition verdictNeedle :: bytes where
  "verdictNeedle = byteLit ''\"authorized\":true''"

definition response_is_authorized :: "bytes \<Rightarrow> bool" where
  "response_is_authorized buffer =
     (let response = takeWhile (\<lambda>c. c \<noteq> 0) buffer
      in strstr response typeNeedle \<noteq> None \<and> strstr response verdictNeedle \<noteq> None)"

definition authorizeRequest :: "bytes \<Rightarrow> bytes" where
  "authorizeRequest username =
     byteLit ''{\"type\":\"authorize\",\"user\":\"'' @ username @ byteLit ''\"}'' @ [10]"

section \<open>The entry points\<close>

text \<open>What the static \<open>socket_path\<close> is when the module is loaded.\<close>

definition default_socket_path :: bytes where
  "default_socket_path = byteLit ''/var/run/openbiounlock.sock''"

datatype pam_code = PAM_SUCCESS | PAM_AUTH_ERR | PAM_SERVICE_ERR

text \<open>The option loop: \<open>socket\<close> followed by a path sets the path, the last one wins.\<close>

fun parse_options :: "bytes list \<Rightarrow> bytes \<Rightarrow> bytes" where
  "parse_options (a # b # rest) path =
     (if a = byteLit ''socket'' then parse_options rest b else parse_options (b # rest) path)"
| "parse_options _ path = path"

text \<open>
  \<open>user\<close> is the name \<open>pam_get_user\<close> returns (\<open>None\<close> for an error or NULL), \<open>socket_fd\<close> the
  result of \<open>socket\<close>, \<open>connect_to\<close> that of \<open>connect\<close> for a path, which \<open>strncpy\<close> has cut to
  the 107 bytes \<open>sun_path\<close> holds. The static \<open>socket_path\<close> is passed in and out: it keeps
  its value between calls.
\<close>

definition pam_sm_authenticate ::
  "bytes option \<Rightarrow> bytes list \<Rightarrow> int \<Rightarrow> (bytes \<Rightarrow> int) \<Rightarrow> bytes \<Rightarrow> sys \<Rightarrow> (pam_code \<times> bytes \<times> sys) option" where
  "pam_sm_authenticate user argv socket_fd connect_to socket_path s =
     (case user of None \<Rightarrow> Some (PAM_AUTH_ERR, socket_path, s)
      | Some username \<Rightarrow>
          let socket_path = parse_options argv socket_path in
          if socket_fd < 0 then Some (PAM_AUTH_ERR, socket_path, s)
          else if connect_to (take 107 socket_path) \<noteq> 0 then Some (PAM_AUTH_ERR, socket_path, s)
          else let request = authorizeRequest username in
          if length request \<ge> 512 then Some (PAM_AUTH_ERR, socket_path, s)
          else Option.bind (write_all request 0 s) (\<lambda>(result, s).
            if result \<noteq> 0 then Some (PAM_AUTH_ERR, socket_path, s)
            else Option.bind (read_line 1024 [] s) (\<lambda>(result, response, s).
              if result \<noteq> 0 then Some (PAM_AUTH_ERR, socket_path, s)
              else Some (if response_is_authorized response then PAM_SUCCESS else PAM_AUTH_ERR,
                         socket_path, s))))"

definition pam_sm_setcred :: pam_code where "pam_sm_setcred = PAM_SUCCESS"
definition pam_sm_acct_mgmt :: pam_code where "pam_sm_acct_mgmt = PAM_SUCCESS"
definition pam_sm_open_session :: pam_code where "pam_sm_open_session = PAM_SUCCESS"
definition pam_sm_close_session :: pam_code where "pam_sm_close_session = PAM_SUCCESS"
definition pam_sm_chauthtok :: pam_code where "pam_sm_chauthtok = PAM_SERVICE_ERR"

section \<open>What returned calls did\<close>

lemmas wait_induct = wait_for_io.raw_induct [rotated, consumes 1, case_names call]
lemmas write_induct = write_all.raw_induct [rotated, consumes 1, case_names round]
lemmas read_induct = read_line.raw_induct [rotated, consumes 1, case_names round]

lemma poll_call_frame:
  "poll_call s = (result, revents, s') \<Longrightarrow> sent s' = sent s \<and> consumed s' = consumed s \<and>
   writeOutcome s' = writeOutcome s \<and> readOutcome s' = readOutcome s \<and> pollOutcome s' = pollOutcome s \<and>
   writeCalls s' = writeCalls s \<and> readCalls s' = readCalls s \<and> pollCalls s' = Suc (pollCalls s)"
  by (auto simp: poll_call_def split: prod.splits)

text \<open>Waiting moves no byte and makes no other call than \<open>poll\<close>.\<close>

definition only_polled :: "sys \<Rightarrow> sys \<Rightarrow> bool" where
  "only_polled s s' \<longleftrightarrow> sent s' = sent s \<and> consumed s' = consumed s \<and> writeOutcome s' = writeOutcome s \<and>
     readOutcome s' = readOutcome s \<and> pollOutcome s' = pollOutcome s \<and> writeCalls s' = writeCalls s \<and>
     readCalls s' = readCalls s"

lemma wait_for_io_returned:
  "wait_for_io events s = Some y \<Longrightarrow> (fst y = 0 \<or> fst y = -1) \<and> only_polled s (snd y)"
proof (induction rule: wait_induct)
  case (call f events s y)
  obtain result revents s1 where p: "poll_call s = (result, revents, s1)" by (metis prod_cases3)
  then have step: "only_polled s s1" using poll_call_frame by (simp add: only_polled_def)
  show ?case
  proof (cases "result < 0 \<and> errno s1 = EINTR")
    case True
    with call(2) p have "f events s1 = Some y" by simp
    from call(1) [OF this] step show ?thesis by (simp add: only_polled_def)
  next
    case False
    with call(2) p step show ?thesis by (auto split: if_splits)
  qed
qed

lemma wait_for_io_frame:
  "wait_for_io events s = Some (r, s') \<Longrightarrow> (r = 0 \<or> r = -1) \<and> only_polled s s'"
  using wait_for_io_returned by fastforce

lemma write_call_facts:
  "write_call data s = (n, s') \<Longrightarrow> n \<le> int (length data) \<and> sent s' = sent s @ take (nat n) data \<and>
   consumed s' = consumed s \<and> writeCalls s' = Suc (writeCalls s) \<and> writeOutcome s' = writeOutcome s \<and>
   readOutcome s' = readOutcome s \<and> pollOutcome s' = pollOutcome s \<and> readCalls s' = readCalls s \<and>
   pollCalls s' = pollCalls s"
  by (auto simp: write_call_def Let_def split: prod.splits)

lemma read_call_facts:
  "read_call s = (n, b, s') \<Longrightarrow> n \<le> 1 \<and> consumed s' = consumed s @ (if n = 1 then [b] else []) \<and>
   sent s' = sent s \<and> readCalls s' = Suc (readCalls s) \<and> readOutcome s' = readOutcome s \<and>
   pollOutcome s' = pollOutcome s"
  by (auto simp: read_call_def Let_def split: prod.splits)

text \<open>One round of \<open>write_all\<close>.\<close>

lemma write_round_cases:
  assumes "(if offset < length data
      then Option.bind (wait_for_io POLLOUT s) (\<lambda>(ready, s).
        if ready \<noteq> 0 then Some (-1, s)
        else case write_call (drop offset data) s of (written, s) \<Rightarrow>
          if written \<le> 0
          then if errno s = EINTR then f data offset s else Some (-1, s)
          else f data (offset + nat written) s)
      else Some (0, s)) = Some y"
  obtains (finished) "length data \<le> offset" "y = (0, s)"
    | (failed) s1 where "y = (-1, s1)" "sent s1 = sent s" "consumed s1 = consumed s"
    | (again) n s1 where "f data (offset + n) s1 = Some y" "offset + n \<le> length data"
        "sent s1 = sent s @ take n (drop offset data)" "consumed s1 = consumed s"
proof (cases "offset < length data")
  case True
  with assms obtain ready s0 where w: "wait_for_io POLLOUT s = Some (ready, s0)"
    by (cases "wait_for_io POLLOUT s") auto
  then have s0: "sent s0 = sent s" "consumed s0 = consumed s"
    using wait_for_io_frame [OF w] by (simp_all add: only_polled_def)
  obtain n s1 where c: "write_call (drop offset data) s0 = (n, s1)" by fastforce
  note s1 = write_call_facts [OF c]
  have y: "(if ready \<noteq> 0 then Some (-1, s0) else if n \<le> 0 then if errno s1 = EINTR then f data offset s1
      else Some (-1, s1) else f data (offset + nat n) s1) = Some y"
    using assms True w c by (simp cong: if_cong)
  consider "ready \<noteq> 0" | "ready = 0" "n \<le> 0" "errno s1 = EINTR" | "ready = 0" "n \<le> 0" "errno s1 \<noteq> EINTR"
    | "ready = 0" "0 < n" by linarith
  then show thesis
  proof cases
    case 1
    then show ?thesis using failed [of s0] y s0 by simp
  next
    case 2
    then show ?thesis using again [of 0 s1] y s1 s0 True by simp
  next
    case 3
    then show ?thesis using failed [of s1] y s1 s0 by simp
  next
    case 4
    then have "offset + nat n \<le> length data" using s1 True by auto
    with 4 show ?thesis using again [of "nat n" s1] y s1 s0 by simp
  qed
qed (use assms finished in auto)

text \<open>\<open>write_all\<close> sends a prefix of what is left, all of it if it reports success.\<close>

lemma write_all_returned:
  "write_all data offset s = Some y \<Longrightarrow> offset \<le> length data \<longrightarrow>
     consumed (snd y) = consumed s \<and>
     (fst y = 0 \<and> sent (snd y) = sent s @ drop offset data \<or>
      fst y = -1 \<and> (\<exists>k. sent (snd y) = sent s @ take k (drop offset data)))"
proof (induction rule: write_induct)
  case (round f data offset s y)
  from round(2) show ?case
  proof (cases rule: write_round_cases)
    case finished
    then show ?thesis by simp
  next
    case (failed s1)
    then show ?thesis by (auto intro: exI [of _ 0])
  next
    case (again n s1)
    have split: "take n (drop offset data) @ drop (offset + n) data = drop offset data"
      by (metis add.commute append_take_drop_id drop_drop)
    have more: "take n (drop offset data) @ take k (drop (offset + n) data) = take (n + k) (drop offset data)" for k
      using take_add [of n k "drop offset data"] by (simp add: add.commute)
    from round(1) [OF again(1)] again(2-4) show ?thesis
      by (auto simp: split more)
  qed
qed

lemma write_all_sends:
  "write_all data 0 s = Some (r, s') \<Longrightarrow> consumed s' = consumed s \<and>
     (r = 0 \<and> sent s' = sent s @ data \<or> r = -1 \<and> (\<exists>k. sent s' = sent s @ take k data))"
  using write_all_returned [of data 0 s "(r, s')"] by simp

text \<open>One round of \<open>read_line\<close>.\<close>

lemma read_round_cases:
  assumes "(if length buffer + 1 < capacity
      then Option.bind (wait_for_io POLLIN s) (\<lambda>(ready, s).
        if ready \<noteq> 0 then Some (-1, buffer, s)
        else case read_call s of (received, b, s) \<Rightarrow>
          if received = 0 then Some (-1, buffer, s)
          else if received < 0
          then if errno s = EINTR then f capacity buffer s else Some (-1, buffer, s)
          else if b = 10 then Some (0, buffer, s)
          else f capacity (buffer @ [b]) s)
      else Some (-1, buffer, s)) = Some y"
  obtains (failed) s1 where "y = (-1, buffer, s1)" "sent s1 = sent s" "consumed s1 = consumed s"
    | (finished) s1 where "y = (0, buffer, s1)" "length buffer + 1 < capacity" "sent s1 = sent s"
        "consumed s1 = consumed s @ [10]"
    | (retry) s1 where "f capacity buffer s1 = Some y" "sent s1 = sent s" "consumed s1 = consumed s"
    | (again) b s1 where "f capacity (buffer @ [b]) s1 = Some y" "b \<noteq> 10" "length buffer + 1 < capacity"
        "sent s1 = sent s" "consumed s1 = consumed s @ [b]"
proof (cases "length buffer + 1 < capacity")
  case True
  with assms obtain ready s0 where w: "wait_for_io POLLIN s = Some (ready, s0)"
    by (cases "wait_for_io POLLIN s") auto
  then have s0: "sent s0 = sent s" "consumed s0 = consumed s"
    using wait_for_io_frame [OF w] by (simp_all add: only_polled_def)
  obtain n b s1 where c: "read_call s0 = (n, b, s1)" by (metis prod_cases3)
  note s1 = read_call_facts [OF c]
  have y: "(if ready \<noteq> 0 then Some (-1, buffer, s0) else if n = 0 then Some (-1, buffer, s1)
      else if n < 0 then if errno s1 = EINTR then f capacity buffer s1 else Some (-1, buffer, s1)
      else if b = 10 then Some (0, buffer, s1) else f capacity (buffer @ [b]) s1) = Some y"
    using assms True w c by (simp cong: if_cong)
  consider "ready \<noteq> 0" | "ready = 0" "n = 0" | "ready = 0" "n < 0" "errno s1 = EINTR"
    | "ready = 0" "n < 0" "errno s1 \<noteq> EINTR" | "ready = 0" "n = 1" "b = 10" | "ready = 0" "n = 1" "b \<noteq> 10"
    using s1 by linarith
  then show thesis
  proof cases
    case 1
    then show ?thesis using failed [of s0] y s0 by simp
  next
    case 2
    then show ?thesis using failed [of s1] y s1 s0 by simp
  next
    case 3
    then show ?thesis using retry [of s1] y s1 s0 by simp
  next
    case 4
    then show ?thesis using failed [of s1] y s1 s0 by simp
  next
    case 5
    then show ?thesis using finished [of s1] y s1 s0 True by simp
  next
    case 6
    then show ?thesis using again [of b s1] y s1 s0 True by simp
  qed
qed (use assms failed in auto)

lemma read_line_returned:
  "read_line capacity buffer s = Some y \<Longrightarrow> 10 \<notin> set buffer \<longrightarrow> length buffer \<le> capacity - 1 \<longrightarrow>
     (\<exists>more. fst (snd y) = buffer @ more \<and> 10 \<notin> set more \<and> sent (snd (snd y)) = sent s \<and>
        length (buffer @ more) \<le> capacity - 1 \<and>
        (fst y = 0 \<and> consumed (snd (snd y)) = consumed s @ more @ [10] \<and> length (buffer @ more) + 1 < capacity \<or>
         fst y = -1 \<and> consumed (snd (snd y)) = consumed s @ more))"
proof (induction rule: read_induct)
  case (round f capacity buffer s y)
  from round(2) show ?case
  proof (cases rule: read_round_cases)
    case (failed s1)
    then show ?thesis by auto
  next
    case (finished s1)
    then show ?thesis by auto
  next
    case (retry s1)
    from round(1) [OF retry(1)] retry(2,3) show ?thesis by simp
  next
    case (again b s1)
    from round(1) [OF again(1)] again(2-5) show ?thesis
      by (auto intro: exI [of _ "b # more" for more])
  qed
qed

lemma read_line_reads:
  assumes "read_line capacity [] s = Some (r, line, s')"
  shows "10 \<notin> set line \<and> length line \<le> capacity - 1 \<and> sent s' = sent s \<and>
     (r = 0 \<and> consumed s' = consumed s @ line @ [10] \<and> length line + 1 < capacity \<or>
      r = -1 \<and> consumed s' = consumed s @ line)"
  using read_line_returned [OF assms] by simp

section \<open>Returning\<close>

text \<open>
  The kernel behaves if interruptions end at some time and a \<open>write\<close> of a non-empty buffer
  takes a byte or fails.
\<close>

definition interruptions_end :: "nat \<Rightarrow> sys \<Rightarrow> bool" where
  "interruptions_end N s \<longleftrightarrow> (\<forall>n. fst (writeOutcome s n) \<noteq> 0) \<and>
     (\<forall>n \<ge> N. (fst (pollOutcome s n) < 0 \<longrightarrow> fst (snd (pollOutcome s n)) \<noteq> EINTR) \<and>
              (fst (writeOutcome s n) < 0 \<longrightarrow> snd (writeOutcome s n) \<noteq> EINTR) \<and>
              (fst (readOutcome s n) < 0 \<longrightarrow> fst (snd (readOutcome s n)) \<noteq> EINTR))"

lemma interruptions_end_cong:
  "writeOutcome s' = writeOutcome s \<Longrightarrow> readOutcome s' = readOutcome s \<Longrightarrow> pollOutcome s' = pollOutcome s \<Longrightarrow>
   interruptions_end N s' = interruptions_end N s"
  by (simp add: interruptions_end_def)

lemma wait_for_io_returns: "interruptions_end N s \<Longrightarrow> \<exists>r s'. wait_for_io events s = Some (r, s')"
proof (induction "N - pollCalls s" arbitrary: s rule: less_induct)
  case less
  obtain result revents s1 where p: "poll_call s = (result, revents, s1)" by (metis prod_cases3)
  note s1 = poll_call_frame [OF p]
  show ?case
  proof (cases "result < 0 \<and> errno s1 = EINTR")
    case True
    then have "fst (pollOutcome s (pollCalls s)) < 0 \<and> fst (snd (pollOutcome s (pollCalls s))) = EINTR"
      using p by (auto simp: poll_call_def split: prod.splits)
    then have "\<not> N \<le> pollCalls s" using less(2) unfolding interruptions_end_def by blast
    then have "\<exists>r s'. wait_for_io events s1 = Some (r, s')"
      using less s1 interruptions_end_cong [of s1 s N] by (intro less(1)) auto
    then show ?thesis using True p by (subst wait_for_io.simps) simp
  next
    case False
    then show ?thesis using p by (subst wait_for_io.simps) auto
  qed
qed

lemma write_all_returns:
  "interruptions_end N s \<Longrightarrow> \<exists>r s'. write_all data offset s = Some (r, s') \<and> interruptions_end N s'"
proof (induction "(length data - offset) + (N - writeCalls s)" arbitrary: offset s rule: less_induct)
  case less
  show ?case
  proof (cases "offset < length data")
    case True
    obtain ready s0 where w: "wait_for_io POLLOUT s = Some (ready, s0)"
      using wait_for_io_returns [OF less(2)] by blast
    then have s0: "only_polled s s0" using wait_for_io_frame by blast
    obtain n s1 where c: "write_call (drop offset data) s0 = (n, s1)" by fastforce
    note s1 = write_call_facts [OF c]
    have ends: "interruptions_end N s1" "interruptions_end N s0"
      using less(2) s0 s1 interruptions_end_cong [of s1 s N] interruptions_end_cong [of s0 s N]
      by (simp_all add: only_polled_def)
    have calls: "writeCalls s1 = Suc (writeCalls s)" using s0 s1 by (simp add: only_polled_def)
    have "\<not> N \<le> writeCalls s" if "n \<le> 0" "errno s1 = EINTR"
    proof -
      have "fst (writeOutcome s0 (writeCalls s0)) \<noteq> 0"
        using less(2) s0 unfolding interruptions_end_def only_polled_def by metis
      then have "fst (writeOutcome s0 (writeCalls s0)) < 0 \<and> snd (writeOutcome s0 (writeCalls s0)) = EINTR"
        using c that True by (auto simp: write_call_def Let_def min_def split: prod.splits if_splits)
      then show ?thesis
        using less(2) s0 unfolding interruptions_end_def only_polled_def by metis
    qed
    then have retry: "\<exists>r s'. write_all data offset s1 = Some (r, s') \<and> interruptions_end N s'" if "n \<le> 0" "errno s1 = EINTR"
      using that ends calls by (intro less(1)) auto
    have advance: "\<exists>r s'. write_all data (offset + nat n) s1 = Some (r, s') \<and> interruptions_end N s'" if "0 < n"
      using that ends calls True by (intro less(1)) auto
    show ?thesis
      using retry advance True w c ends by (subst write_all.simps) (auto simp: not_le cong: if_cong)
  qed (subst write_all.simps, use less(2) in simp)
qed

lemma read_line_returns:
  "interruptions_end N s \<Longrightarrow> \<exists>r line s'. read_line capacity buffer s = Some (r, line, s')"
proof (induction "(capacity - length buffer) + (N - readCalls s)" arbitrary: buffer s rule: less_induct)
  case less
  show ?case
  proof (cases "length buffer + 1 < capacity")
    case True
    obtain ready s0 where w: "wait_for_io POLLIN s = Some (ready, s0)"
      using wait_for_io_returns [OF less(2)] by blast
    then have s0: "only_polled s s0" using wait_for_io_frame by blast
    obtain n b s1 where c: "read_call s0 = (n, b, s1)" by (metis prod_cases3)
    have frame: "writeOutcome s1 = writeOutcome s0"
      using c by (auto simp: read_call_def Let_def split: prod.splits)
    note s1 = read_call_facts [OF c]
    have ends: "interruptions_end N s1"
      using less(2) s0 s1 frame interruptions_end_cong [of s1 s N] by (simp add: only_polled_def)
    have calls: "readCalls s1 = Suc (readCalls s)" using s0 s1 by (simp add: only_polled_def)
    have "\<not> N \<le> readCalls s" if "n < 0" "errno s1 = EINTR"
    proof -
      have "fst (readOutcome s0 (readCalls s0)) < 0 \<and> fst (snd (readOutcome s0 (readCalls s0))) = EINTR"
        using c that by (auto simp: read_call_def Let_def min_def split: prod.splits if_splits)
      then show ?thesis
        using less(2) s0 unfolding interruptions_end_def only_polled_def by metis
    qed
    then have retry: "\<exists>r line s'. read_line capacity buffer s1 = Some (r, line, s')" if "n < 0" "errno s1 = EINTR"
      using that ends calls by (intro less(1)) auto
    have advance: "\<exists>r line s'. read_line capacity (buffer @ [b]) s1 = Some (r, line, s')"
      using ends calls True by (intro less(1)) auto
    show ?thesis
      using retry advance True w c by (subst read_line.simps) (auto cong: if_cong)
  qed (subst read_line.simps, simp)
qed

section \<open>A cooperative kernel\<close>

text \<open>Every poll is ready, every write takes something, and \<open>reply\<close> is what comes in.\<close>

definition ready_kernel :: "sys \<Rightarrow> bool" where
  "ready_kernel s \<longleftrightarrow> (\<forall>n. pollOutcome s n = (1, 0, 5)) \<and> (\<forall>n. 0 < fst (writeOutcome s n))"

definition delivers :: "bytes \<Rightarrow> sys \<Rightarrow> bool" where
  "delivers reply s \<longleftrightarrow> (\<forall>i < length reply. readOutcome s (readCalls s + i) = (1, 0, reply ! i))"

lemma ready_wait:
  "ready_kernel s \<Longrightarrow> events = POLLIN \<or> events = POLLOUT \<Longrightarrow>
   wait_for_io events s = Some (0, s\<lparr>pollCalls := Suc (pollCalls s)\<rparr>)"
  by (subst wait_for_io.simps) (auto simp: poll_call_def ready_kernel_def POLLIN_def POLLOUT_def)

lemma ready_write_all:
  "ready_kernel s \<Longrightarrow> offset \<le> length data \<Longrightarrow> \<exists>s'. write_all data offset s = Some (0, s') \<and>
     ready_kernel s' \<and> readOutcome s' = readOutcome s \<and> readCalls s' = readCalls s"
proof (induction "length data - offset" arbitrary: offset s rule: less_induct)
  case less
  show ?case
  proof (cases "offset < length data")
    case True
    let ?s0 = "s\<lparr>pollCalls := Suc (pollCalls s)\<rparr>"
    obtain n s1 where c: "write_call (drop offset data) ?s0 = (n, s1)" by fastforce
    note s1 = write_call_facts [OF c]
    have n: "0 < n" "nat n \<le> length data - offset"
      using c less(2) True s1 by (auto simp: write_call_def ready_kernel_def Let_def split: prod.splits)
        (metis fst_conv)
    have ready: "ready_kernel s1" using s1 less(2) by (simp add: ready_kernel_def)
    have "\<exists>s'. write_all data (offset + nat n) s1 = Some (0, s') \<and>
        ready_kernel s' \<and> readOutcome s' = readOutcome s1 \<and> readCalls s' = readCalls s1"
      by (rule less(1)) (use n True ready in auto)
    then show ?thesis
      using True c n s1 ready_wait [OF less(2)] by (subst write_all.simps) (auto cong: if_cong)
  qed (subst write_all.simps, use less(2) in simp)
qed

lemma ready_read_line:
  "ready_kernel s \<Longrightarrow> delivers (line @ [10]) s \<Longrightarrow> 10 \<notin> set line \<Longrightarrow> length (buffer @ line) + 1 < capacity \<Longrightarrow>
   \<exists>s'. read_line capacity buffer s = Some (0, buffer @ line, s')"
proof (induction line arbitrary: buffer s)
  case Nil
  let ?s0 = "s\<lparr>pollCalls := Suc (pollCalls s)\<rparr>"
  have "readOutcome s (readCalls s) = (1, 0, 10)" using Nil(2) by (simp add: delivers_def)
  then obtain s1 where "read_call ?s0 = (1, 10, s1)" by (simp add: read_call_def)
  then show ?case
    using Nil ready_wait [OF Nil(1)] by (subst read_line.simps) (simp cong: if_cong)
next
  case (Cons b line)
  let ?s0 = "s\<lparr>pollCalls := Suc (pollCalls s)\<rparr>"
  let ?s1 = "?s0\<lparr>readCalls := Suc (readCalls s), consumed := consumed s @ [b]\<rparr>"
  have out: "readOutcome s (readCalls s + i) = (1, 0, ((b # line) @ [10]) ! i)" if "i < length line + 2" for i
    using Cons.prems(2) that by (simp add: delivers_def)
  have "read_call ?s0 = (1, b, ?s1)" using out [of 0] by (simp add: read_call_def)
  moreover have "delivers (line @ [10]) ?s1"
    using out [of "Suc i" for i] by (auto simp: delivers_def)
  moreover have "ready_kernel ?s1" using Cons.prems(1) by (simp add: ready_kernel_def)
  ultimately show ?case
    using Cons.IH [of ?s1 "buffer @ [b]"] Cons.prems ready_wait [OF Cons.prems(1)]
    by (subst read_line.simps) (simp cong: if_cong)
qed

section \<open>The daemon's replies\<close>

text \<open>
  The responses of the daemon (\<open>daemon/src/server.rs\<close>) as \<open>serde_json\<close> writes them: the tag
  first, then the fields in order; a string with its quotes, backslashes and control characters
  escaped, other bytes of its UTF-8 form as they are.
\<close>

datatype daemon_response =
    RPaired bool
  | RChallenge bytes bytes nat
  | RAuthorized bool
  | RError bytes

definition hexDigit :: "8 word \<Rightarrow> byte" where
  "hexDigit n = (if n < 10 then 48 + n else 87 + n)"

definition escapeByte :: "byte \<Rightarrow> bytes" where
  "escapeByte b =
     (if b = 34 then [92, 34] else if b = 92 then [92, 92]
      else if b = 8 then [92, 98] else if b = 9 then [92, 116] else if b = 10 then [92, 110]
      else if b = 12 then [92, 102] else if b = 13 then [92, 114]
      else if b < 32 then [92, 117, 48, 48, hexDigit (b div 16), hexDigit (b mod 16)]
      else [b])"

definition escaped :: "bytes \<Rightarrow> bytes" where
  "escaped s = concat (map escapeByte s)"

fun decimal :: "nat \<Rightarrow> bytes" where
  "decimal n = (if n < 10 then [48 + of_nat n] else decimal (n div 10) @ [48 + of_nat (n mod 10)])"

declare decimal.simps [simp del]

fun daemonReply :: "daemon_response \<Rightarrow> bytes" where
  "daemonReply (RPaired accepted) =
     byteLit ''{\"type\":\"paired\",\"accepted\":'' @ byteLit (if accepted then ''true}'' else ''false}'')"
| "daemonReply (RChallenge challenge_id nonce timestamp) =
     byteLit ''{\"type\":\"challenge\",\"challenge_id\":\"'' @ escaped challenge_id @
     byteLit ''\",\"nonce\":\"'' @ escaped nonce @ byteLit ''\",\"timestamp\":'' @ decimal timestamp @ byteLit ''}''"
| "daemonReply (RAuthorized authorized) =
     byteLit ''{\"type\":\"authorized\",\"authorized\":'' @ byteLit (if authorized then ''true}'' else ''false}'')"
| "daemonReply (RError message) =
     byteLit ''{\"type\":\"error\",\"message\":\"'' @ escaped message @ byteLit ''\"}''"

lemma strstr_None_iff:
  "strstr hay needle = None \<longleftrightarrow> (\<forall>pre post. hay = pre @ post \<longrightarrow> take (length needle) post \<noteq> needle)"
proof (induction hay)
  case (Cons c cs)
  have "(\<forall>pre post. c # cs = pre @ post \<longrightarrow> take (length needle) post \<noteq> needle) \<longleftrightarrow>
      take (length needle) (c # cs) \<noteq> needle \<and>
      (\<forall>pre post. cs = pre @ post \<longrightarrow> take (length needle) post \<noteq> needle)"
    by (auto simp: Cons_eq_append_conv)
  then show ?case using Cons by simp
qed auto

text \<open>Text without a quote and a backslash that stands before a quote reaches over an escaped string
  only as a whole: the first bare quote behind an escaped string is the closing one.\<close>

lemma escapeByte_cases:
  obtains (raw) "escapeByte b = [b]" "b \<noteq> 34" "b \<noteq> 92" | (escape) rest where "escapeByte b = 92 # rest"
proof -
  have "escapeByte b = [b] \<and> b \<noteq> 34 \<and> b \<noteq> 92 \<or> (\<exists>rest. escapeByte b = 92 # rest)"
    by (simp add: escapeByte_def)
  then show thesis using raw escape by blast
qed

lemma word_then_quote:
  "34 \<notin> set w \<Longrightarrow> 92 \<notin> set w \<Longrightarrow> escaped s @ 34 # r = w @ 34 # z \<Longrightarrow> z = r"
proof (induction s arbitrary: w)
  case Nil
  then show ?case by (cases w) (auto simp: escaped_def)
next
  case (Cons b s)
  have e: "escaped (b # s) = escapeByte b @ escaped s" by (simp add: escaped_def)
  show ?case
  proof (cases b rule: escapeByte_cases)
    case raw
    with Cons show ?thesis by (cases w) (auto simp: e)
  next
    case (escape rest)
    with Cons.prems show ?thesis by (cases w) (auto simp: e)
  qed
qed

lemma strstr_iff: "strstr hay needle \<noteq> None \<longleftrightarrow> (\<exists>pre post. hay = pre @ needle @ post)"
proof -
  have "take (length needle) post = needle \<longleftrightarrow> (\<exists>rest. post = needle @ rest)" for post
    by (metis append_eq_conv_conj append_take_drop_id)
  then show ?thesis unfolding strstr_None_iff by blast
qed

lemma strstr_prefix: "strstr (pre @ post) needle = None \<Longrightarrow> strstr pre needle = None"
  using strstr_iff [of pre needle] strstr_iff [of "pre @ post" needle] by fastforce

lemma strstr_no_quote: "34 \<notin> set hay \<Longrightarrow> strstr hay (34 # needle) = None"
  using strstr_iff [of hay "34 # needle"] by fastforce

lemma append_quote_skip:
  "34 \<notin> set e \<Longrightarrow> (e :: bytes) @ x = pre @ 34 # y \<Longrightarrow> \<exists>pre'. x = pre' @ 34 # y"
proof (induction e arbitrary: pre)
  case (Cons c e)
  then show ?case by (cases pre) auto
qed auto

lemma escapeByte_quote: "escapeByte b = [92, 34] \<or> 34 \<notin> set (escapeByte b)"
proof -
  have digit: "hexDigit n \<noteq> 34" if "n < 16" for n
  proof
    assume "hexDigit n = 34"
    then have "unat (hexDigit n) = 34" by simp
    moreover have "unat n < 16" using that unat_mono by fastforce
    then have "unat (hexDigit n) = (if n < 10 then 48 + unat n else 87 + unat n)"
      by (simp add: hexDigit_def unat_plus_simple [THEN iffD1] no_olen_add_nat)
    ultimately show False by (simp split: if_splits)
  qed
  have "unat b < 2 ^ LENGTH(8)" by (rule unsigned_less)
  then have bound: "unat b < 256" by simp
  have "b div 16 < 16" "b mod 16 < 16"
    by (simp_all add: word_less_nat_alt unat_div unat_mod bound div_less_iff_less_mult)
  then show ?thesis using digit by (auto simp: escapeByte_def)
qed

lemma needle_over_escaped:
  assumes "34 \<notin> set w" and "92 \<notin> set w"
  shows "escaped s @ 34 # r = pre @ 34 # w @ 34 # z \<Longrightarrow>
    (\<exists>pre'. 34 # r = pre' @ 34 # w @ 34 # z) \<or> z = r"
proof (induction s arbitrary: pre)
  case Nil
  then show ?case by (auto simp: escaped_def)
next
  case (Cons b s)
  have e: "escapeByte b @ escaped s @ 34 # r = pre @ 34 # w @ 34 # z"
    using Cons.prems by (simp add: escaped_def)
  show ?case
  proof (cases "34 \<in> set (escapeByte b)")
    case False
    from append_quote_skip [OF False e] Cons.IH show ?thesis by blast
  next
    case True
    then have "escapeByte b = [92, 34]" using escapeByte_quote by blast
    with e consider (quote) "escaped s @ 34 # r = w @ 34 # z" | (later) pre' where "escaped s @ 34 # r = pre' @ 34 # w @ 34 # z"
      by (cases pre; cases "tl pre") auto
    then show ?thesis
    proof cases
      case quote
      then show ?thesis using word_then_quote assms by blast
    next
      case later
      then show ?thesis using Cons.IH by blast
    qed
  qed
qed

text \<open>The needle does not start in an escaped string unless what follows it completes the needle.\<close>

lemma escaped_None:
  assumes "34 \<notin> set w" and "92 \<notin> set w" and "take (length z) r \<noteq> z"
    and "strstr (34 # r) (34 # w @ 34 # z) = None"
  shows "strstr (34 # escaped s @ 34 # r) (34 # w @ 34 # z) = None"
proof -
  have tail: "r \<noteq> z @ post" for post using assms(3) by auto
  have "34 # escaped s @ 34 # r \<noteq> pre @ (34 # w @ 34 # z) @ post" for pre post
  proof
    assume a: "34 # escaped s @ 34 # r = pre @ (34 # w @ 34 # z) @ post"
    show False
    proof (cases pre)
      case Nil
      with a have "escaped s @ 34 # r = w @ 34 # (z @ post)" by simp
      then show False using word_then_quote [OF assms(1,2)] tail by metis
    next
      case (Cons c pre')
      with a have "escaped s @ 34 # r = pre' @ 34 # w @ 34 # (z @ post)" by simp
      from needle_over_escaped [OF assms(1,2) this] tail
      obtain pre'' where "34 # r = pre'' @ (34 # w @ 34 # z) @ post" by auto
      then show False using assms(4) strstr_iff [of "34 # r" "34 # w @ 34 # z"] by blast
    qed
  qed
  then show ?thesis using strstr_iff [of "34 # escaped s @ 34 # r" "34 # w @ 34 # z"] by auto
qed

lemma typeNeedle_split: "typeNeedle = 34 # byteLit ''type'' @ 34 # byteLit '':\"authorized\"''"
  by (simp add: typeNeedle_def byteLit_def)

lemma type_word: "34 \<notin> set (byteLit ''type'')" "92 \<notin> set (byteLit ''type'')"
  by (simp_all add: byteLit_def)

lemma decimal_no_quote: "34 \<notin> set (decimal n)"
proof (induction n rule: decimal.induct)
  case (1 n)
  have digit: "(34 :: byte) \<noteq> 48 + of_nat m" if "m < 10" for m
  proof
    assume "(34 :: byte) = 48 + of_nat m"
    then have "(34 :: byte) = of_nat (48 + m)" by simp
    then have "unat (34 :: byte) = unat (of_nat (48 + m) :: byte)" by (rule arg_cong)
    then show False using that by (simp add: unat_of_nat del: of_nat_add)
  qed
  show ?case
    using 1 digit [of n] digit [of "n mod 10"] by (subst decimal.simps) auto
qed

text \<open>One step of the search for the type, by the character that differs.\<close>

lemma strstr_skip: "c \<noteq> 34 \<Longrightarrow> strstr (c # cs) typeNeedle = strstr cs typeNeedle"
  by (simp add: typeNeedle_def byteLit_def)

lemma strstr_quote: "c \<noteq> 116 \<Longrightarrow> strstr (34 # c # cs) typeNeedle = strstr (c # cs) typeNeedle"
  by (subst strstr.simps) (simp add: typeNeedle_def byteLit_def del: strstr.simps)

lemma strstr_type:
  "c \<noteq> 97 \<Longrightarrow> strstr (34 # 116 # 121 # 112 # 101 # 34 # 58 # 34 # c # cs) typeNeedle =
     strstr (116 # 121 # 112 # 101 # 34 # 58 # 34 # c # cs) typeNeedle"
  by (subst strstr.simps) (simp add: typeNeedle_def byteLit_def del: strstr.simps)

lemma strstr_quote_t: "c \<noteq> 121 \<Longrightarrow> strstr (34 # 116 # c # cs) typeNeedle = strstr (116 # c # cs) typeNeedle"
  by (subst strstr.simps) (simp add: typeNeedle_def byteLit_def del: strstr.simps)

lemmas strstr_steps = strstr_skip strstr_quote strstr_quote_t strstr_type

lemma reply_without_type:
  assumes "\<And>b. r \<noteq> RAuthorized b"
  shows "strstr (daemonReply r) typeNeedle = None"
proof (cases r)
  case (RPaired b)
  then show ?thesis by (cases b) (simp_all add: typeNeedle_def byteLit_def)
next
  case (RError m)
  have "strstr (34 # escaped m @ 34 # [125]) typeNeedle = None"
    unfolding typeNeedle_split by (rule escaped_None [OF type_word]) (simp_all add: byteLit_def)
  then show ?thesis
    by (simp add: RError byteLit_def strstr_steps del: strstr.simps)
next
  case (RChallenge i n ts)
  let ?rest = "byteLit '',\"timestamp\":'' @ decimal ts @ byteLit ''}''"
  let ?mid = "byteLit '',\"nonce\":'' @ 34 # escaped n @ 34 # ?rest"
  have "strstr (decimal ts @ byteLit ''}'') typeNeedle = None"
    unfolding typeNeedle_split by (rule strstr_no_quote) (simp add: decimal_no_quote byteLit_def)
  then have "strstr (34 # ?rest) typeNeedle = None"
    by (simp add: byteLit_def strstr_steps del: strstr.simps)
  then have "strstr (34 # escaped n @ 34 # ?rest) typeNeedle = None"
    unfolding typeNeedle_split by (intro escaped_None [OF type_word]) (simp_all add: byteLit_def)
  then have "strstr (34 # ?mid) typeNeedle = None"
    by (simp add: byteLit_def strstr_steps del: strstr.simps)
  then have "strstr (34 # escaped i @ 34 # ?mid) typeNeedle = None"
    unfolding typeNeedle_split by (intro escaped_None [OF type_word]) (simp_all add: byteLit_def)
  then show ?thesis
    by (simp add: RChallenge byteLit_def strstr_steps del: strstr.simps)
qed (use assms in simp)

section \<open>A granted login\<close>

lemma pam_grants:
  assumes "length (authorizeRequest username) < 512" and "0 \<le> socket_fd"
    and "connect_to (take 107 (parse_options argv path)) = 0"
    and "ready_kernel s" and "delivers (daemonReply (RAuthorized True) @ [10]) s"
  shows "\<exists>s'. pam_sm_authenticate (Some username) argv socket_fd connect_to path s =
    Some (PAM_SUCCESS, parse_options argv path, s') \<and>
    consumed s' = consumed s @ daemonReply (RAuthorized True) @ [10]"
proof -
  obtain s1 where w: "write_all (authorizeRequest username) 0 s = Some (0, s1)" "ready_kernel s1"
      "readOutcome s1 = readOutcome s" "readCalls s1 = readCalls s"
    using ready_write_all [OF assms(4), of 0 "authorizeRequest username"] by auto
  then have "delivers (daemonReply (RAuthorized True) @ [10]) s1" using assms(5) by (simp only: delivers_def)
  from ready_read_line [OF w(2) this, of "[]" 1024]
  obtain s2 where r: "read_line 1024 [] s1 = Some (0, daemonReply (RAuthorized True), s2)"
    by (auto simp: byteLit_def)
  moreover have "consumed s2 = consumed s @ daemonReply (RAuthorized True) @ [10]"
    using read_line_reads [OF r] write_all_sends [OF w(1)] by (simp del: daemonReply.simps)
  moreover have "response_is_authorized (daemonReply (RAuthorized True))"
    by (simp add: response_is_authorized_def typeNeedle_def verdictNeedle_def byteLit_def)
  ultimately show ?thesis
    using assms(1-3) w(1) by (simp add: pam_sm_authenticate_def Let_def del: daemonReply.simps)
qed

text \<open>A kernel that takes seven bytes a write and delivers the authorized line.\<close>

definition demoKernel :: sys where
  "demoKernel = \<lparr>errno = 0, pollOutcome = (\<lambda>_. (1, 0, 5)), pollCalls = 0, writeOutcome = (\<lambda>_. (7, 0)),
     writeCalls = 0, readOutcome = (\<lambda>n. (1, 0, (daemonReply (RAuthorized True) @ [10]) ! n)), readCalls = 0,
     sent = [], consumed = []\<rparr>"

lemma demoKernel_ready: "ready_kernel demoKernel" "delivers (daemonReply (RAuthorized True) @ [10]) demoKernel"
  by (simp_all add: demoKernel_def ready_kernel_def delivers_def del: daemonReply.simps)

section \<open>Properties\<close>

text \<open>The calls of a successful authentication.\<close>

lemma pam_success_calls:
  assumes "pam_sm_authenticate user argv socket_fd connect_to path s = Some (PAM_SUCCESS, path', s')"
  obtains username s1 line where "user = Some username" and "0 \<le> socket_fd"
    and "connect_to (take 107 (parse_options argv path)) = 0" and "length (authorizeRequest username) < 512"
    and "write_all (authorizeRequest username) 0 s = Some (0, s1)" and "read_line 1024 [] s1 = Some (0, line, s')"
    and "response_is_authorized line" and "path' = parse_options argv path"
proof -
  obtain username where user: "user = Some username"
    using assms by (cases user) (simp_all add: pam_sm_authenticate_def)
  let ?path = "parse_options argv path" and ?request = "authorizeRequest username"
  have guards: "0 \<le> socket_fd" "connect_to (take 107 ?path) = 0" "length ?request < 512"
    using assms by (auto simp: pam_sm_authenticate_def user Let_def split: if_splits)
  obtain r1 s1 where w: "write_all ?request 0 s = Some (r1, s1)"
    using assms guards by (cases "write_all ?request 0 s") (auto simp: pam_sm_authenticate_def user Let_def)
  have r1: "r1 = 0" using assms guards w by (auto simp: pam_sm_authenticate_def user Let_def split: if_splits)
  obtain r2 line s2 where r: "read_line 1024 [] s1 = Some (r2, line, s2)"
    using assms guards w r1 by (cases "read_line 1024 [] s1") (auto simp: pam_sm_authenticate_def user Let_def)
  have res: "r2 = 0" "path' = ?path" "s' = s2" "response_is_authorized line"
    using assms guards w r1 r by (auto simp: pam_sm_authenticate_def user Let_def split: if_splits)
  show thesis
    by (rule that [OF user guards]) (use w r1 r res in simp_all)
qed

lemma authorized_reply:
  "response_is_authorized (daemonReply (RAuthorized b)) \<longleftrightarrow> b"
  by (cases b) (simp_all add: response_is_authorized_def typeNeedle_def verdictNeedle_def byteLit_def)

text \<open>C19: a login is granted only on the daemon's word. If \<open>pam_sm_authenticate\<close> returns
  \<open>PAM_SUCCESS\<close>, the user was known, the socket of the configured path was connected, the complete
  request for this user and nothing else was sent, and of the answer exactly one line was consumed,
  of at most 1022 bytes, so that it and its terminating zero fit the buffer, which contains the
  authorized type and the verdict true.\<close>

theorem pam_success_needs_authorized_line:
  assumes "pam_sm_authenticate user argv socket_fd connect_to path s = Some (PAM_SUCCESS, path', s')"
  shows "path' = parse_options argv path \<and> connect_to (take 107 path') = 0 \<and>
     (\<exists>username line. user = Some username \<and> length (authorizeRequest username) < 512 \<and>
        sent s' = sent s @ authorizeRequest username \<and>
        consumed s' = consumed s @ line @ [10] \<and> 10 \<notin> set line \<and> length line \<le> 1022 \<and>
        response_is_authorized line)"
proof -
  obtain username s1 line where guards: "user = Some username" "0 \<le> socket_fd"
      "connect_to (take 107 (parse_options argv path)) = 0" "length (authorizeRequest username) < 512"
      and w: "write_all (authorizeRequest username) 0 s = Some (0, s1)" and r: "read_line 1024 [] s1 = Some (0, line, s')"
      and res: "response_is_authorized line" "path' = parse_options argv path"
    by (rule pam_success_calls [OF assms])
  then show ?thesis using write_all_sends [OF w] read_line_reads [OF r] by auto
qed

theorem pam_success_needs_authorized_line_witness:
  "\<exists>line s'. pam_sm_authenticate (Some [98]) [] 3 (\<lambda>_. 0) [47] demoKernel = Some (PAM_SUCCESS, [47], s') \<and>
     sent s' = authorizeRequest [98] \<and> consumed s' = line @ [10] \<and> response_is_authorized line"
proof -
  obtain s' where run: "pam_sm_authenticate (Some [98]) [] 3 (\<lambda>_. 0) [47] demoKernel = Some (PAM_SUCCESS, [47], s')"
    using pam_grants [OF _ _ _ demoKernel_ready, where username = "[98]" and socket_fd = 3 and argv = "[]"
        and connect_to = "\<lambda>_. 0" and path = "[47]"]
    by (auto simp: authorizeRequest_def)
  from pam_success_needs_authorized_line [OF run] run show ?thesis by (auto simp: demoKernel_def)
qed

text \<open>C21: the module cannot hang for ever on interruptions. If from some call on the kernel reports no
  more \<open>EINTR\<close> and \<open>write\<close> never takes zero bytes, \<open>pam_sm_authenticate\<close> returns, with success or
  an authentication error, whatever the daemon sends.\<close>

theorem pam_returns:
  assumes "interruptions_end N s"
  shows "\<exists>code path' s'. pam_sm_authenticate user argv socket_fd connect_to path s = Some (code, path', s') \<and>
     (code = PAM_SUCCESS \<or> code = PAM_AUTH_ERR)"
proof (cases user)
  case (Some username)
  obtain r1 s1 where w: "write_all (authorizeRequest username) 0 s = Some (r1, s1)" "interruptions_end N s1"
    using write_all_returns [OF assms] by blast
  obtain r2 line s2 where "read_line 1024 [] s1 = Some (r2, line, s2)"
    using read_line_returns [OF w(2)] by blast
  with w(1) show ?thesis by (simp add: pam_sm_authenticate_def Some Let_def)
qed (simp add: pam_sm_authenticate_def)

theorem pam_returns_witness:
  "\<exists>code path' s'. pam_sm_authenticate (Some [98]) [] 3 (\<lambda>_. 0) [47] demoKernel = Some (code, path', s')"
proof -
  have "interruptions_end 0 demoKernel" by (simp add: interruptions_end_def demoKernel_def)
  from pam_returns [OF this] show ?thesis by blast
qed

text \<open>It can hang on a \<open>write\<close> that takes no byte. The retry looks at \<open>errno\<close> although the
  call did not fail: with \<open>EINTR\<close> left in it by an earlier call, a socket that polls writable and
  takes zero bytes is tried for ever.\<close>

theorem write_all_spins_on_stale_errno:
  assumes "errno s = EINTR" and "\<forall>n. pollOutcome s n = (1, 0, POLLOUT)" and "\<forall>n. writeOutcome s n = (0, 0)"
    and "offset < length data"
  shows "write_all data offset s = None"
proof -
  have "write_all data offset s = Some y \<Longrightarrow> \<not> (errno s = EINTR \<and> (\<forall>n. pollOutcome s n = (1, 0, POLLOUT)) \<and>
      (\<forall>n. writeOutcome s n = (0, 0)) \<and> offset < length data)" for y
  proof (induction rule: write_induct)
    case (round f data offset s y)
    show ?case
    proof
      assume stuck: "errno s = EINTR \<and> (\<forall>n. pollOutcome s n = (1, 0, POLLOUT)) \<and>
        (\<forall>n. writeOutcome s n = (0, 0)) \<and> offset < length data"
      let ?s0 = "s\<lparr>pollCalls := Suc (pollCalls s)\<rparr>"
      let ?s1 = "?s0\<lparr>writeCalls := Suc (writeCalls s)\<rparr>"
      have "wait_for_io POLLOUT s = Some (0, ?s0)"
        using stuck by (subst wait_for_io.simps) (simp add: poll_call_def POLLOUT_def)
      moreover have "write_call (drop offset data) ?s0 = (0, ?s1)"
        using stuck by (simp add: write_call_def)
      ultimately have "f data offset ?s1 = Some y"
        using round(2) stuck by (simp cong: if_cong)
      from round(1) [OF this] stuck show False by simp
    qed
  qed
  with assms show ?thesis by (cases "write_all data offset s") auto
qed

theorem write_all_spins_on_stale_errno_witness:
  "write_all [1] 0 (demoKernel\<lparr>errno := EINTR, pollOutcome := \<lambda>_. (1, 0, POLLOUT), writeOutcome := \<lambda>_. (0, 0)\<rparr>) = None"
  by (rule write_all_spins_on_stale_errno) simp_all

text \<open>C23: the text search is right on everything the daemon answers. Of the daemon's responses, with
  any identifiers, times and error texts in them, the module accepts exactly
  \<open>{"type":"authorized","authorized":true}\<close>; an error message cannot smuggle the accepted text in,
  because a quote inside a string is escaped.\<close>

theorem only_authorized_reply_accepted:
  "response_is_authorized (daemonReply reply) \<longleftrightarrow> reply = RAuthorized True"
proof (cases "\<exists>b. reply = RAuthorized b")
  case True
  then obtain b where "reply = RAuthorized b" by blast
  then show ?thesis using authorized_reply [of b] by simp
next
  case False
  then have "strstr (daemonReply reply) typeNeedle = None" by (intro reply_without_type) blast
  moreover have "daemonReply reply = takeWhile (\<lambda>c. c \<noteq> 0) (daemonReply reply) @
      dropWhile (\<lambda>c. c \<noteq> 0) (daemonReply reply)" by simp
  ultimately have "strstr (takeWhile (\<lambda>c. c \<noteq> 0) (daemonReply reply)) typeNeedle = None"
    using strstr_prefix by metis
  with False show ?thesis by (auto simp: response_is_authorized_def Let_def)
qed

text \<open>C22: a login the daemon authorizes is granted: for a known user whose request fits 511 bytes, a
  connected socket, a kernel that is ready and takes data in pieces of any size, and the line
  \<open>{"type":"authorized","authorized":true}\<close> coming in, the result is \<open>PAM_SUCCESS\<close>.\<close>

theorem pam_grants_authorized_reply:
  assumes "length (authorizeRequest username) < 512" and "0 \<le> socket_fd"
    and "connect_to (take 107 (parse_options argv path)) = 0"
    and "ready_kernel s" and "delivers (daemonReply (RAuthorized True) @ [10]) s"
  shows "\<exists>s'. pam_sm_authenticate (Some username) argv socket_fd connect_to path s =
    Some (PAM_SUCCESS, parse_options argv path, s')"
  using pam_grants [of username socket_fd connect_to argv path s] assms by blast

theorem pam_grants_authorized_reply_witness:
  "\<exists>s'. pam_sm_authenticate (Some [98, 111, 98]) [byteLit ''socket'', [47]] 3 (\<lambda>p. if p = [47] then 0 else -1) [] demoKernel =
    Some (PAM_SUCCESS, [47], s')"
  using pam_grants_authorized_reply [OF _ _ _ demoKernel_ready, where username = "[98, 111, 98]" and socket_fd = 3
      and argv = "[byteLit ''socket'', [47]]" and connect_to = "\<lambda>p. if p = [47] then 0 else -1" and path = "[]"]
  by (simp add: authorizeRequest_def)

end
