(* ===== verification/Daemon.thy ===== *)
theory Daemon
  imports Pam Envelope Framing
begin

text \<open>
  The daemon that the PAM module asks (\<open>daemon/src/server.rs\<close>, \<open>crypto.rs\<close>, \<open>store.rs\<close>): the
  vault of device keys, the signature check, and the connections as tasks that share the table of
  pending authorizations and the vault. The runtime has several threads, so the steps of the
  connections interleave in any order; a step is one access to what they share: a region in which
  the lock is held, one call of the vault, one reading of the system clock, one wait for a
  notification. The clock is part of the state and is set by steps of its own, to any value.
\<close>

section \<open>Requests and libraries\<close>

text \<open>\<open>enum Request\<close>; texts are their UTF-8 bytes.\<close>

datatype daemon_request =
    Request_Pair bytes bytes bytes
  | Request_Authorize bytes
  | Request_Challenge
  | Request_Verify bytes bytes bytes quint64 bytes

text \<open>
  The crates the daemon calls: \<open>hex\<close>, \<open>ed25519_dalek\<close> (whether a key decodes to a point, and whether
  a signature of a payload is valid), and \<open>serde_json\<close>, with the error text of a line that is no
  request.
\<close>

record rust =
  hexEncode :: "bytes \<Rightarrow> bytes"
  hexDecode :: "bytes \<Rightarrow> bytes option"
  keyDecodes :: "bytes \<Rightarrow> bool"
  verifies :: "bytes \<Rightarrow> bytes \<Rightarrow> bytes \<Rightarrow> bool"
  parseRequest :: "bytes \<Rightarrow> bytes + daemon_request"

definition rust_laws :: "rust \<Rightarrow> bool" where
  "rust_laws P \<longleftrightarrow> (\<forall>b. hexDecode P (hexEncode P b) = Some b) \<and>
     (\<forall>b. 10 \<notin> set (hexEncode P b) \<and> 13 \<notin> set (hexEncode P b)) \<and>
     (\<forall>b. b \<noteq> [] \<longrightarrow> hexEncode P b \<noteq> [])"

section \<open>crypto.rs\<close>

definition is_fresh :: "quint64 \<Rightarrow> quint64 \<Rightarrow> bool" where
  "is_fresh timestamp now \<longleftrightarrow> (if timestamp < now then now - timestamp else timestamp - now) \<le> 30"

definition verify_signature :: "rust \<Rightarrow> bytes \<Rightarrow> bytes \<Rightarrow> quint64 \<Rightarrow> bytes \<Rightarrow> quint64 \<Rightarrow> bool" where
  "verify_signature P public_key nonce timestamp signature now \<longleftrightarrow>
     (if length nonce \<noteq> 32 \<or> \<not> is_fresh timestamp now then False
      else if length public_key \<noteq> 32 \<or> \<not> keyDecodes P public_key then False
      else if length signature \<noteq> 64 then False
      else verifies P public_key (nonce @ timestampBytes timestamp) signature)"

section \<open>store.rs\<close>

text \<open>\<open>str::lines\<close>: a carriage return before a newline is cut off, a last empty line is none.\<close>

definition stripCR :: "bytes \<Rightarrow> bytes" where
  "stripCR l = (if l \<noteq> [] \<and> last l = 13 then butlast l else l)"

definition str_lines :: "bytes \<Rightarrow> bytes list" where
  "str_lines v = (let (ls, rest) = splitLines v in map stripCR ls @ (if rest = [] then [] else [rest]))"

definition key_line :: "rust \<Rightarrow> bytes \<Rightarrow> bytes option" where
  "key_line P line = (case hexDecode P line of None \<Rightarrow> None
     | Some b \<Rightarrow> if length b = 32 then Some b else None)"

text \<open>
  \<open>password\<close> is what \<open>get_password\<close> returns, \<open>None\<close> for any error of it. The result \<open>None\<close> is an
  encoding error.
\<close>

definition load_public_keys :: "rust \<Rightarrow> bytes option \<Rightarrow> bytes list option" where
  "load_public_keys P password = (case password of None \<Rightarrow> Some []
     | Some v \<Rightarrow> those (map (key_line P) (filter (\<lambda>line. line \<noteq> []) (str_lines v))))"

fun join :: "bytes list \<Rightarrow> bytes" where
  "join [] = []"
| "join [l] = l"
| "join (l # ls) = l @ 10 # join ls"

text \<open>The keys of the vault; \<open>unwrap_or_default\<close> makes none of an encoding error.\<close>

definition stored_keys :: "rust \<Rightarrow> bytes option \<Rightarrow> bytes list" where
  "stored_keys P password = (case load_public_keys P password of Some keys \<Rightarrow> keys | None \<Rightarrow> [])"

text \<open>
  \<open>got\<close> is what \<open>get_password\<close> returned, \<open>writable\<close> whether \<open>set_password\<close> succeeds, and
  \<open>password\<close> what the vault holds at that moment. The results are whether the call succeeded and
  the password stored afterwards.
\<close>

definition add_public_key :: "rust \<Rightarrow> bytes \<Rightarrow> bytes option \<Rightarrow> bool \<Rightarrow> bytes option \<Rightarrow> bool \<times> bytes option" where
  "add_public_key P key got writable password =
     (case load_public_keys P got of
        None \<Rightarrow> (False, password)
      | Some keys \<Rightarrow>
          let keys = (if key \<in> set keys then keys else keys @ [key]);
              v = join (map (hexEncode P) keys)
          in if writable then (True, Some v) else (False, password))"

section \<open>Where the daemon listens\<close>

text \<open>The addresses that \<open>main\<close> (\<open>main.rs\<close>) passes to the listeners, on Unix and elsewhere.\<close>

datatype listener = Tcp bytes | UnixSocket bytes | NamedPipe bytes

definition listeners :: "bool \<Rightarrow> listener list" where
  "listeners unix = [Tcp (byteLit ''127.0.0.1:45821''),
     if unix then UnixSocket (byteLit ''/var/run/openbiounlock.sock'')
     else NamedPipe ([92, 92, 46, 92] @ byteLit ''pipe'' @ [92] @ byteLit ''OpenBioUnlockPipe'')]"

section \<open>The shared state\<close>

text \<open>
  A connection that handles an \<open>authorize\<close> request has drawn a challenge and read the clock
  (\<open>Drawn\<close>), has inserted its entry (\<open>Entering\<close>), waits for the entry's \<open>Notify\<close> (\<open>Waiting\<close>), was
  woken (\<open>Woken\<close>) or is about to remove the entry and answer (\<open>Leaving\<close>). One that handles a
  \<open>pair\<close> request has read the vault and is about to write it (\<open>Storing\<close>). One that handles a
  \<open>verify\<close> request tries the keys it has read from the vault (\<open>Checking\<close>) or has found a key for the
  signature and is about to look at the entry (\<open>Matching\<close>). Every other connection is \<open>Idle\<close> between
  two lines. The \<open>Notify\<close> of an entry is that of the connection that inserted it. \<open>system_time\<close> is
  what \<open>now()\<close> returns.
\<close>

record pending_auth =
  auth_nonce :: bytes
  auth_timestamp :: quint64
  authorized :: bool
  notify :: nat

datatype task =
    Idle
  | Drawn bytes bytes quint64
  | Entering bytes
  | Waiting bytes
  | Woken bytes
  | Leaving bytes bool
  | Storing bytes "bytes option"
  | Checking bytes bytes quint64 bytes "bytes list"
  | Matching bytes bytes quint64 bytes bytes

record daemon =
  pending :: "bytes \<rightharpoonup> pending_auth"
  tasks :: "nat \<Rightarrow> task"
  password :: "bytes option"
  system_time :: quint64

definition new_state :: "bytes option \<Rightarrow> quint64 \<Rightarrow> daemon" where
  "new_state v t0 = \<lparr>pending = Map.empty, tasks = (\<lambda>_. Idle), password = v, system_time = t0\<rparr>"

text \<open>\<open>notify_waiters\<close> wakes the tasks that wait and leaves nothing for one that does not wait yet.\<close>

definition notify_waiters :: "nat \<Rightarrow> (nat \<Rightarrow> task) \<Rightarrow> nat \<Rightarrow> task" where
  "notify_waiters n ts = (case ts n of Waiting challenge_id \<Rightarrow> ts(n := Woken challenge_id) | _ \<Rightarrow> ts)"

section \<open>The parts of the requests\<close>

definition pairCheck :: "rust \<Rightarrow> bool \<Rightarrow> bytes \<Rightarrow> bytes \<Rightarrow> daemon_response + bytes" where
  "pairCheck P opened public_key pairing_code =
     (if pairing_code = [] then Inl (RError (byteLit ''pairing code is required''))
      else case (if opened then hexDecode P public_key else None) of
        None \<Rightarrow> Inl (RError (byteLit ''pairing key is invalid or vault is unavailable''))
      | Some key \<Rightarrow>
          if length key \<noteq> 32 then Inl (RError (byteLit ''public key must be 32 bytes'')) else Inr key)"

text \<open>\<open>chosen\<close> is the entry the hash map lists first.\<close>

definition challengeReply :: "rust \<Rightarrow> bytes \<Rightarrow> daemon \<Rightarrow> daemon_response" where
  "challengeReply P chosen s = (case pending s chosen of
       Some entry \<Rightarrow> RChallenge chosen (hexEncode P (auth_nonce entry)) (unat (auth_timestamp entry))
     | None \<Rightarrow> RError (byteLit ''no workstation authentication request is pending''))"

text \<open>\<open>unwrap_or_default\<close>.\<close>

definition decoded :: "rust \<Rightarrow> bytes \<Rightarrow> bytes" where
  "decoded P t = (case hexDecode P t of Some b \<Rightarrow> b | None \<Rightarrow> [])"

text \<open>The keys that a \<open>verify\<close> request tries, in their order.\<close>

definition verifyKeys :: "rust \<Rightarrow> bool \<Rightarrow> bytes option \<Rightarrow> bytes list" where
  "verifyKeys P opened got = (if opened then stored_keys P got else [])"

text \<open>What it does under the lock when one of them fits the signature.\<close>

definition verifyMatch :: "bytes \<Rightarrow> bytes \<Rightarrow> quint64 \<Rightarrow> daemon \<Rightarrow> bool \<times> daemon" where
  "verifyMatch challenge_id nonce timestamp s =
     (case pending s challenge_id of
        None \<Rightarrow> (False, s)
      | Some entry \<Rightarrow>
          if auth_nonce entry = nonce \<and> auth_timestamp entry = timestamp \<and> \<not> authorized entry
          then (True, s\<lparr>pending := (pending s)(challenge_id \<mapsto> entry\<lparr>authorized := True\<rparr>),
                        tasks := notify_waiters (notify entry) (tasks s)\<rparr>)
          else (False, s))"

section \<open>The steps\<close>

text \<open>
  What happens is recorded as events: an answer, a change of the clock, a drawn challenge with the
  time that was read, a new pending authorization, a signature check that succeeded, an accepted
  verification with its nonce, time, signature and key, the end of the 30 seconds of an
  authorization, its decision, and an enrolled key.
\<close>

datatype daemon_event =
    Replied nat daemon_response
  | Tick quint64
  | Drew nat bytes bytes quint64
  | Asked nat bytes bytes quint64
  | Checked bytes bytes quint64 bytes bytes
  | Verified bytes bytes quint64 bytes bytes
  | Expired nat bytes
  | Decided nat bytes bool
  | Enrolled bytes

text \<open>The challenge id a task works on.\<close>

fun task_id :: "task \<Rightarrow> bytes option" where
  "task_id Idle = None"
| "task_id (Entering challenge_id) = Some challenge_id"
| "task_id (Waiting challenge_id) = Some challenge_id"
| "task_id (Woken challenge_id) = Some challenge_id"
| "task_id (Leaving challenge_id b) = Some challenge_id"
| "task_id _ = None"

fun may_expire :: "task \<Rightarrow> bytes option" where
  "may_expire (Entering challenge_id) = Some challenge_id"
| "may_expire (Waiting challenge_id) = Some challenge_id"
| "may_expire (Woken challenge_id) = Some challenge_id"
| "may_expire _ = None"

inductive daemon_step :: "rust \<Rightarrow> daemon \<Rightarrow> daemon_event list \<Rightarrow> daemon \<Rightarrow> bool" for P where
  invalid: "tasks s c = Idle \<Longrightarrow> parseRequest P line = Inl m \<Longrightarrow>
    daemon_step P s [Replied c (RError (byteLit ''invalid request: '' @ m))] s"
| pair_refused: "tasks s c = Idle \<Longrightarrow> parseRequest P line = Inr (Request_Pair device public_key pairing_code) \<Longrightarrow>
    pairCheck P opened public_key pairing_code = Inl reply \<Longrightarrow> daemon_step P s [Replied c reply] s"
| pair: "tasks s c = Idle \<Longrightarrow> parseRequest P line = Inr (Request_Pair device public_key pairing_code) \<Longrightarrow>
    pairCheck P opened public_key pairing_code = Inr key \<Longrightarrow> got = (if readable then password s else None) \<Longrightarrow>
    daemon_step P s [] (s\<lparr>tasks := (tasks s)(c := Storing key got)\<rparr>)"
| store: "tasks s c = Storing key got \<Longrightarrow> add_public_key P key got writable (password s) = (ok, v) \<Longrightarrow>
    daemon_step P s ((if ok then [Enrolled key] else []) @ [Replied c (RPaired ok)])
      (s\<lparr>password := v, tasks := (tasks s)(c := Idle)\<rparr>)"
| no_random: "tasks s c = Idle \<Longrightarrow> parseRequest P line = Inr (Request_Authorize user) \<Longrightarrow>
    daemon_step P s [Replied c (RError m)] s"
| draw: "tasks s c = Idle \<Longrightarrow> parseRequest P line = Inr (Request_Authorize user) \<Longrightarrow> length nonce = 32 \<Longrightarrow>
    length raw = 32 \<Longrightarrow> challenge_id = hexEncode P raw \<Longrightarrow>
    daemon_step P s [Drew c challenge_id nonce (system_time s)]
      (s\<lparr>tasks := (tasks s)(c := Drawn challenge_id nonce (system_time s))\<rparr>)"
| ask: "tasks s c = Drawn challenge_id nonce now \<Longrightarrow>
    daemon_step P s [Asked c challenge_id nonce now]
      (s\<lparr>pending := (pending s)(challenge_id \<mapsto>
            \<lparr>auth_nonce = nonce, auth_timestamp = now, authorized = False, notify = c\<rparr>),
         tasks := (tasks s)(c := Entering challenge_id)\<rparr>)"
| tick: "daemon_step P s [Tick t] (s\<lparr>system_time := t\<rparr>)"
| wait: "tasks s c = Entering challenge_id \<Longrightarrow>
    daemon_step P s [] (s\<lparr>tasks := (tasks s)(c := Waiting challenge_id)\<rparr>)"
| recheck: "tasks s c = Woken challenge_id \<Longrightarrow>
    (case pending s challenge_id of Some entry \<Rightarrow> authorized entry | None \<Rightarrow> False) = b \<Longrightarrow>
    daemon_step P s [] (s\<lparr>tasks := (tasks s)(c := (if b then Leaving challenge_id True else Entering challenge_id))\<rparr>)"
| timeout: "may_expire (tasks s c) = Some challenge_id \<Longrightarrow>
    daemon_step P s [Expired c challenge_id] (s\<lparr>tasks := (tasks s)(c := Leaving challenge_id False)\<rparr>)"
| leave: "tasks s c = Leaving challenge_id b \<Longrightarrow>
    daemon_step P s [Decided c challenge_id b, Replied c (RAuthorized b)]
      (s\<lparr>pending := (pending s)(challenge_id := None), tasks := (tasks s)(c := Idle)\<rparr>)"
| challenge: "tasks s c = Idle \<Longrightarrow> parseRequest P line = Inr Request_Challenge \<Longrightarrow>
    (pending s chosen = None \<longrightarrow> pending s = Map.empty) \<Longrightarrow>
    daemon_step P s [Replied c (challengeReply P chosen s)] s"
| verify: "tasks s c = Idle \<Longrightarrow>
    parseRequest P line = Inr (Request_Verify challenge_id device nonce_text timestamp signature_text) \<Longrightarrow>
    got = (if readable then password s else None) \<Longrightarrow> keys = verifyKeys P opened got \<Longrightarrow>
    daemon_step P s [] (s\<lparr>tasks := (tasks s)(c :=
      Checking challenge_id (decoded P nonce_text) timestamp (decoded P signature_text) keys)\<rparr>)"
| check: "tasks s c = Checking challenge_id nonce timestamp signature (key # keys) \<Longrightarrow>
    verify_signature P key nonce timestamp signature (system_time s) \<Longrightarrow>
    daemon_step P s [Checked challenge_id nonce timestamp signature key]
      (s\<lparr>tasks := (tasks s)(c := Matching challenge_id nonce timestamp signature key)\<rparr>)"
| check_next: "tasks s c = Checking challenge_id nonce timestamp signature (key # keys) \<Longrightarrow>
    \<not> verify_signature P key nonce timestamp signature (system_time s) \<Longrightarrow>
    daemon_step P s [] (s\<lparr>tasks := (tasks s)(c := Checking challenge_id nonce timestamp signature keys)\<rparr>)"
| verify_refused: "tasks s c = Checking challenge_id nonce timestamp signature [] \<Longrightarrow>
    daemon_step P s [Replied c (RAuthorized False)] (s\<lparr>tasks := (tasks s)(c := Idle)\<rparr>)"
| match: "tasks s c = Matching challenge_id nonce timestamp signature key \<Longrightarrow>
    verifyMatch challenge_id nonce timestamp s = (b, s') \<Longrightarrow>
    daemon_step P s ((if b then [Verified challenge_id nonce timestamp signature key] else []) @ [Replied c (RAuthorized b)])
      (s'\<lparr>tasks := (tasks s')(c := Idle)\<rparr>)"

inductive daemon_run :: "rust \<Rightarrow> daemon \<Rightarrow> daemon_event list \<Rightarrow> daemon \<Rightarrow> bool" for P s0 where
  begun: "daemon_run P s0 [] s0"
| more: "daemon_run P s0 trace s \<Longrightarrow> daemon_step P s evs s' \<Longrightarrow> daemon_run P s0 (trace @ evs) s'"

text \<open>What the clock shows after a run that began at \<open>t0\<close>, and when an event of the run happened.\<close>

fun clock_at :: "quint64 \<Rightarrow> daemon_event list \<Rightarrow> quint64" where
  "clock_at t0 [] = t0"
| "clock_at t0 (Tick t # trace) = clock_at t trace"
| "clock_at t0 (ev # trace) = clock_at t0 trace"

definition happened_at :: "quint64 \<Rightarrow> daemon_event list \<Rightarrow> daemon_event \<Rightarrow> quint64 \<Rightarrow> bool" where
  "happened_at t0 trace ev now \<longleftrightarrow> (\<exists>before after. trace = before @ ev # after \<and> clock_at t0 before = now)"

end
