(* ===== verification/DaemonProofs.thy ===== *)
theory DaemonProofs
  imports Daemon Reference
begin

text \<open>
  The vault of the daemon as a list of keys, and the invariant of the interleaved connections: every
  event has what justifies it before it.
\<close>

section \<open>The vault\<close>

definition key_text :: "rust \<Rightarrow> bytes list \<Rightarrow> bytes" where
  "key_text P keys = join (map (hexEncode P) keys)"

lemma stripCR_id: "13 \<notin> set l \<Longrightarrow> stripCR l = l"
  by (auto simp: stripCR_def dest: last_in_set)

lemma str_lines_join:
  "\<forall>l \<in> set ls. 10 \<notin> set l \<and> 13 \<notin> set l \<and> l \<noteq> [] \<Longrightarrow> str_lines (join ls) = ls"
proof (induction ls rule: join.induct)
  case (2 l)
  then show ?case by (simp add: str_lines_def splitLines_no_newline)
next
  case (3 l l' ls)
  obtain ks r where "splitLines (join (l' # ls)) = (ks, r)" by fastforce
  with 3 show ?case by (simp add: str_lines_def splitLines_line stripCR_id)
qed (simp add: str_lines_def)

lemma load_key_text:
  assumes "rust_laws P" and "\<forall>k \<in> set keys. length k = 32"
  shows "load_public_keys P (Some (key_text P keys)) = Some keys"
proof -
  have nonempty: "hexEncode P k \<noteq> []" if "k \<in> set keys" for k
    using assms that unfolding rust_laws_def by (metis length_0_conv zero_neq_numeral)
  have "str_lines (key_text P keys) = map (hexEncode P) keys"
    unfolding key_text_def by (rule str_lines_join) (use assms(1) nonempty in \<open>auto simp: rust_laws_def\<close>)
  moreover have "filter (\<lambda>l. l \<noteq> []) (map (hexEncode P) keys) = map (hexEncode P) keys"
    by (rule filter_True) (use nonempty in auto)
  moreover have "those (map (key_line P) (map (hexEncode P) keys)) = Some keys"
    using assms by (induction keys) (simp_all add: key_line_def rust_laws_def)
  ultimately show ?thesis by (simp add: load_public_keys_def)
qed

text \<open>The password in the vault is the text of a list of 32-byte keys, or there is none.\<close>

definition vault_keys :: "rust \<Rightarrow> bytes option \<Rightarrow> bytes list \<Rightarrow> bool" where
  "vault_keys P v keys \<longleftrightarrow> (v = None \<and> keys = [] \<or> v = Some (key_text P keys)) \<and> (\<forall>k \<in> set keys. length k = 32)"

lemma load_vault_keys: "rust_laws P \<Longrightarrow> vault_keys P v keys \<Longrightarrow> load_public_keys P v = Some keys"
  unfolding vault_keys_def using load_key_text [of P keys] by (auto simp: load_public_keys_def)

text \<open>The vault after a key was added depends on what was read, not on what it held when written.\<close>

lemma add_vault_keys:
  assumes "rust_laws P" and "vault_keys P got keys" and "length key = 32"
    and "add_public_key P key got writable v = (ok, v')"
  shows "if writable then ok \<and> (\<exists>keys'. vault_keys P v' keys' \<and> set keys' = insert key (set keys)) else \<not> ok \<and> v' = v"
proof -
  note load = load_vault_keys [OF assms(1,2)]
  define new where "new = (if key \<in> set keys then keys else keys @ [key])"
  have new: "set new = insert key (set keys)" by (auto simp: new_def)
  have "\<forall>k \<in> set new. length k = 32" using assms(2,3) unfolding new by (auto simp: vault_keys_def)
  then have "vault_keys P (Some (key_text P new)) new" by (simp add: vault_keys_def)
  moreover have "(ok, v') = (if writable then (True, Some (key_text P new)) else (False, v))"
    using assms(4) load by (simp add: add_public_key_def Let_def new_def key_text_def split: if_splits)
  ultimately show ?thesis using new by auto
qed

lemma pairCheck_key:
  "pairCheck P opened public_key code = Inr key \<Longrightarrow> code \<noteq> [] \<and> opened \<and> hexDecode P public_key = Some key \<and> length key = 32"
  by (auto simp: pairCheck_def split: if_splits option.splits)

text \<open>Whatever the vault holds, the keys that are read from it have 32 bytes.\<close>

lemma those_set: "those xs = Some ys \<Longrightarrow> y \<in> set ys \<Longrightarrow> Some y \<in> set xs"
  by (induction xs arbitrary: ys) (auto split: option.splits)

lemma loaded_length:
  assumes "load_public_keys P v = Some keys" and "k \<in> set keys"
  shows "length k = 32"
proof (cases v)
  case (Some text')
  with assms have "Some k \<in> set (map (key_line P) (filter (\<lambda>line. line \<noteq> []) (str_lines text')))"
    by (intro those_set [of _ keys]) (simp_all add: load_public_keys_def)
  then show ?thesis by (auto simp: key_line_def split: option.splits if_splits)
qed (use assms in \<open>simp add: load_public_keys_def\<close>)

section \<open>The clock\<close>

lemma clock_at_append: "clock_at t0 (xs @ ys) = clock_at (clock_at t0 xs) ys"
  by (induction t0 xs rule: clock_at.induct) simp_all

lemma clock_at_no_tick: "\<forall>t. Tick t \<notin> set evs \<Longrightarrow> clock_at t0 evs = t0"
  by (induction t0 evs rule: clock_at.induct) auto

lemma step_tick: "daemon_step P s evs s' \<Longrightarrow> Tick t \<in> set evs \<Longrightarrow> evs = [Tick t]"
  by (induction rule: daemon_step.induct) (auto split: if_splits)

lemma match_time: "verifyMatch cid n t s = (b, s') \<Longrightarrow> system_time s' = system_time s"
  by (auto simp: verifyMatch_def split: option.splits if_splits)

lemma step_clock: "daemon_step P s evs s' \<Longrightarrow> system_time s' = clock_at (system_time s) evs"
  by (induction rule: daemon_step.induct) (simp_all add: match_time)

text \<open>In every run the clock of the daemon is that of its trace.\<close>

lemma run_clock: "daemon_run P s0 trace s \<Longrightarrow> system_time s = clock_at (system_time s0) trace"
  by (induction rule: daemon_run.induct) (simp_all add: step_clock clock_at_append)

section \<open>The invariant of the connections\<close>

definition proved :: "daemon_event set \<Rightarrow> bytes \<Rightarrow> bool" where
  "proved T cid \<longleftrightarrow> (\<exists>n t sg k. Verified cid n t sg k \<in> T)"

definition asked :: "daemon_event set \<Rightarrow> bytes \<Rightarrow> bytes \<Rightarrow> quint64 \<Rightarrow> bool" where
  "asked T cid n t \<longleftrightarrow> (\<exists>c. Asked c cid n t \<in> T \<and> Drew c cid n t \<in> T)"

text \<open>A key is known when it is one of \<open>K\<close>, the keys of the vault at the start, or was enrolled.\<close>

definition known :: "bytes set \<Rightarrow> daemon_event set \<Rightarrow> bytes \<Rightarrow> bool" where
  "known K T k \<longleftrightarrow> k \<in> K \<or> Enrolled k \<in> T"

definition enrolled_vault :: "rust \<Rightarrow> bytes set \<Rightarrow> daemon_event set \<Rightarrow> bytes option \<Rightarrow> bool" where
  "enrolled_vault P K T v \<longleftrightarrow> (\<forall>k \<in> set (stored_keys P v). known K T k)"

text \<open>What a task, an entry and an event need to have before them; \<open>now\<close> is the clock.\<close>

fun task_ok :: "rust \<Rightarrow> bytes set \<Rightarrow> daemon_event set \<Rightarrow> nat \<Rightarrow> task \<Rightarrow> bool" where
  "task_ok P K T c (Drawn cid n t) \<longleftrightarrow> Drew c cid n t \<in> T"
| "task_ok P K T c (Leaving cid b) \<longleftrightarrow> (b \<longrightarrow> proved T cid)"
| "task_ok P K T c (Storing key got) \<longleftrightarrow> length key = 32 \<and> enrolled_vault P K T got"
| "task_ok P K T c (Checking cid n t sg keys) \<longleftrightarrow> (\<forall>k \<in> set keys. known K T k)"
| "task_ok P K T c (Matching cid n t sg k) \<longleftrightarrow> Checked cid n t sg k \<in> T \<and> known K T k"
| "task_ok P K T c _ \<longleftrightarrow> True"

definition entry_ok :: "daemon_event set \<Rightarrow> bytes \<Rightarrow> pending_auth \<Rightarrow> bool" where
  "entry_ok T cid e \<longleftrightarrow> asked T cid (auth_nonce e) (auth_timestamp e) \<and> (authorized e \<longrightarrow> proved T cid)"

definition daemon_inv :: "rust \<Rightarrow> bytes set \<Rightarrow> daemon_event set \<Rightarrow> daemon \<Rightarrow> bool" where
  "daemon_inv P K T s \<longleftrightarrow> enrolled_vault P K T (password s) \<and>
     (\<forall>cid e. pending s cid = Some e \<longrightarrow> entry_ok T cid e) \<and> (\<forall>c. task_ok P K T c (tasks s c))"

fun justified :: "rust \<Rightarrow> bytes set \<Rightarrow> daemon_event set \<Rightarrow> quint64 \<Rightarrow> daemon_event \<Rightarrow> bool" where
  "justified P K T now (Decided c cid b) \<longleftrightarrow> (b \<longrightarrow> proved T cid)"
| "justified P K T now (Drew c cid n t) \<longleftrightarrow> t = now"
| "justified P K T now (Checked cid n t sg k) \<longleftrightarrow> verify_signature P k n t sg now"
| "justified P K T now (Verified cid n t sg k) \<longleftrightarrow> asked T cid n t \<and> Checked cid n t sg k \<in> T \<and> known K T k"
| "justified P K T now _ \<longleftrightarrow> True"

definition accounted :: "rust \<Rightarrow> bytes set \<Rightarrow> quint64 \<Rightarrow> daemon_event list \<Rightarrow> bool" where
  "accounted P K t0 trace \<longleftrightarrow>
     (\<forall>before ev after. trace = before @ ev # after \<longrightarrow> justified P K (set before) (clock_at t0 before) ev)"

lemma known_mono: "T \<subseteq> T' \<Longrightarrow> known K T k \<Longrightarrow> known K T' k"
  unfolding known_def by blast

lemma proved_mono: "T \<subseteq> T' \<Longrightarrow> proved T cid \<Longrightarrow> proved T' cid"
  unfolding proved_def by blast

lemma asked_mono: "T \<subseteq> T' \<Longrightarrow> asked T cid n t \<Longrightarrow> asked T' cid n t"
  unfolding asked_def by blast

lemma enrolled_mono: "T \<subseteq> T' \<Longrightarrow> enrolled_vault P K T v \<Longrightarrow> enrolled_vault P K T' v"
  unfolding enrolled_vault_def using known_mono by blast

lemma task_ok_mono: "T \<subseteq> T' \<Longrightarrow> task_ok P K T c t \<Longrightarrow> task_ok P K T' c t"
  by (cases t) (auto intro: proved_mono enrolled_mono known_mono)

lemma entry_ok_mono: "T \<subseteq> T' \<Longrightarrow> entry_ok T cid e \<Longrightarrow> entry_ok T' cid e"
  unfolding entry_ok_def by (meson asked_mono proved_mono)

lemma justified_mono: "T \<subseteq> T' \<Longrightarrow> justified P K T now ev \<Longrightarrow> justified P K T' now ev"
  by (cases ev) (auto intro: proved_mono asked_mono known_mono)

lemma daemon_inv_mono: "T \<subseteq> T' \<Longrightarrow> daemon_inv P K T s \<Longrightarrow> daemon_inv P K T' s"
  unfolding daemon_inv_def by (meson enrolled_mono entry_ok_mono task_ok_mono)

lemma accounted_append:
  assumes "accounted P K t0 trace" and "\<forall>ev \<in> set evs. justified P K (set trace) (clock_at t0 trace) ev"
    and single: "\<And>t. Tick t \<in> set evs \<Longrightarrow> evs = [Tick t]"
  shows "accounted P K t0 (trace @ evs)"
  unfolding accounted_def
proof (intro allI impI)
  fix before ev after
  assume eq: "trace @ evs = before @ ev # after"
  then obtain us where "trace = before @ us \<and> us @ evs = ev # after \<or> before = trace @ us \<and> evs = us @ ev # after"
    by (auto simp: append_eq_append_conv2)
  then consider us where "trace = before @ ev # us" | us where "before = trace @ us" "evs = us @ ev # after"
    by (cases us) auto
  then show "justified P K (set before) (clock_at t0 before) ev"
  proof cases
    case 1
    then show ?thesis using assms(1) unfolding accounted_def by blast
  next
    case 2
    have "Tick t \<notin> set us" for t using single [of t] 2(2) by (cases us) auto
    then have "clock_at t0 before = clock_at t0 trace" using 2(1) by (simp add: clock_at_append clock_at_no_tick)
    moreover have "justified P K (set trace) (clock_at t0 trace) ev" using assms(2) 2(2) by simp
    ultimately show ?thesis using justified_mono [of "set trace" "set before"] 2(1) by simp
  qed
qed

lemma notify_waiters_ok: "task_ok P K T c (ts c) \<Longrightarrow> task_ok P K T c (notify_waiters n ts c)"
  by (auto simp: notify_waiters_def split: task.split)

lemma daemon_inv_task:
  "daemon_inv P K T s \<Longrightarrow> task_ok P K T c t \<Longrightarrow> daemon_inv P K T (s\<lparr>tasks := (tasks s)(c := t)\<rparr>)"
  by (simp add: daemon_inv_def)

lemma daemon_inv_pending:
  "daemon_inv P K T s \<Longrightarrow> (\<And>e. entry = Some e \<Longrightarrow> entry_ok T cid e) \<Longrightarrow>
   daemon_inv P K T (s\<lparr>pending := (pending s)(cid := entry)\<rparr>)"
  by (simp add: daemon_inv_def)

lemma daemon_inv_password:
  "daemon_inv P K T s \<Longrightarrow> enrolled_vault P K T v \<Longrightarrow> daemon_inv P K T (s\<lparr>password := v\<rparr>)"
  by (simp add: daemon_inv_def)

lemma daemon_inv_notify:
  "daemon_inv P K T s \<Longrightarrow> daemon_inv P K T (s\<lparr>tasks := notify_waiters n (tasks s)\<rparr>)"
  by (simp add: daemon_inv_def notify_waiters_ok)

lemma daemon_inv_task_ok: "daemon_inv P K T s \<Longrightarrow> tasks s c = t \<Longrightarrow> task_ok P K T c t"
  unfolding daemon_inv_def by blast

lemma daemon_inv_entry: "daemon_inv P K T s \<Longrightarrow> pending s cid = Some e \<Longrightarrow> entry_ok T cid e"
  by (simp add: daemon_inv_def)

lemma enrolled_read: "daemon_inv P K T s \<Longrightarrow> enrolled_vault P K T (if readable then password s else None)"
  by (auto simp: daemon_inv_def enrolled_vault_def stored_keys_def load_public_keys_def)

text \<open>The two halves of a request that change what is shared.\<close>

lemma store_enrolled:
  assumes "rust_laws P" and "enrolled_vault P K T got" and "enrolled_vault P K T v" and "length key = 32"
    and "add_public_key P key got writable v = (ok, v')" and "ok \<longrightarrow> Enrolled key \<in> T"
  shows "enrolled_vault P K T v'"
proof (cases "load_public_keys P got")
  case None
  then show ?thesis using assms(3,5) by (simp add: add_public_key_def)
next
  case (Some keys)
  define new where "new = (if key \<in> set keys then keys else keys @ [key])"
  have result: "(ok, v') = (if writable then (True, Some (key_text P new)) else (False, v))"
    using assms(5) Some by (simp add: add_public_key_def Let_def new_def key_text_def split: if_splits)
  show ?thesis
  proof (cases writable)
    case True
    have "\<forall>k \<in> set new. length k = 32" using loaded_length [OF Some] assms(4) by (auto simp: new_def)
    then have "stored_keys P v' = new"
      using result True load_key_text [OF assms(1)] by (simp add: stored_keys_def)
    moreover have "\<forall>k \<in> set keys. known K T k" using assms(2) Some by (simp add: enrolled_vault_def stored_keys_def)
    ultimately show ?thesis using result True assms(6) by (auto simp: enrolled_vault_def known_def new_def)
  qed (use result assms(3) in simp)
qed

lemma verifyMatch_cases:
  assumes "verifyMatch cid n t s = (b, s')"
  obtains (refused) "\<not> b" "s' = s"
  | (accepted) e where "b" "pending s cid = Some e" "auth_nonce e = n" "auth_timestamp e = t" "\<not> authorized e"
      "s' = s\<lparr>pending := (pending s)(cid \<mapsto> e\<lparr>authorized := True\<rparr>), tasks := notify_waiters (notify e) (tasks s)\<rparr>"
  using assms by (auto simp: verifyMatch_def split: option.splits if_splits)

lemma match_inv:
  assumes "daemon_inv P K T s" and "verifyMatch cid n t s = (b, s')" and "b \<Longrightarrow> proved T cid"
  shows "daemon_inv P K T s' \<and> (b \<longrightarrow> asked T cid n t)"
  using assms(2)
proof (cases rule: verifyMatch_cases)
  case refused
  then show ?thesis using assms(1) by simp
next
  case (accepted e)
  have ok: "entry_ok T cid e" by (rule daemon_inv_entry [OF assms(1) accepted(2)])
  then have "entry_ok T cid (e\<lparr>authorized := True\<rparr>)" using assms(3) [OF accepted(1)] by (simp add: entry_ok_def)
  then have "daemon_inv P K T (s\<lparr>pending := (pending s)(cid \<mapsto> e\<lparr>authorized := True\<rparr>)\<rparr>)"
    by (intro daemon_inv_pending [OF assms(1)]) simp
  from daemon_inv_notify [OF this, of "notify e"] ok show ?thesis
    by (simp add: accepted entry_ok_def)
qed

text \<open>The steps that insert an entry, write the vault and accept a verification.\<close>

lemma ask_inv:
  assumes "daemon_inv P K T s" and "tasks s c = Drawn cid nonce now"
  shows "daemon_inv P K (T \<union> {Asked c cid nonce now})
    (s\<lparr>pending := (pending s)(cid \<mapsto> \<lparr>auth_nonce = nonce, auth_timestamp = now, authorized = False, notify = c\<rparr>),
       tasks := (tasks s)(c := Entering cid)\<rparr>)"
proof -
  let ?T = "T \<union> {Asked c cid nonce now}"
  have inv: "daemon_inv P K ?T s" by (rule daemon_inv_mono [OF _ assms(1)]) auto
  have "Drew c cid nonce now \<in> T" using daemon_inv_task_ok [OF assms] by simp
  then have "daemon_inv P K ?T (s\<lparr>pending := (pending s)(cid \<mapsto>
      \<lparr>auth_nonce = nonce, auth_timestamp = now, authorized = False, notify = c\<rparr>)\<rparr>)"
    by (intro daemon_inv_pending [OF inv]) (auto simp: entry_ok_def asked_def)
  from daemon_inv_task [OF this, of c "Entering cid"] show ?thesis by simp
qed

lemma store_inv:
  assumes "rust_laws P" and "daemon_inv P K T s" and "tasks s c = Storing key got"
    and "add_public_key P key got writable (password s) = (ok, v)" and "ok \<longrightarrow> Enrolled key \<in> T"
  shows "daemon_inv P K T (s\<lparr>password := v, tasks := (tasks s)(c := Idle)\<rparr>)"
proof -
  have "task_ok P K T c (Storing key got)" by (rule daemon_inv_task_ok [OF assms(2,3)])
  then have "enrolled_vault P K T v"
    using assms(2,5) by (intro store_enrolled [OF assms(1) _ _ _ assms(4)]) (auto simp: daemon_inv_def)
  from daemon_inv_task [OF daemon_inv_password [OF assms(2) this], of c Idle] show ?thesis by simp
qed

lemma leave_inv:
  assumes "daemon_inv P K T s"
  shows "daemon_inv P K T (s\<lparr>pending := (pending s)(cid := None), tasks := (tasks s)(c := Idle)\<rparr>)"
proof -
  have "daemon_inv P K T (s\<lparr>pending := (pending s)(cid := None)\<rparr>)" by (rule daemon_inv_pending [OF assms]) simp
  from daemon_inv_task [OF this, of c Idle] show ?thesis by simp
qed

lemma daemon_step_inv:
  assumes "rust_laws P" and "daemon_step P s evs s'" and "daemon_inv P K T s"
  shows "daemon_inv P K (T \<union> set evs) s'"
proof -
  have "daemon_inv P K (T \<union> set evs) s" by (rule daemon_inv_mono [OF _ assms(3)]) auto
  with assms(2) show ?thesis
  proof (induction rule: daemon_step.induct)
    case (pair s c line device public_key code opened key got readable)
    have "task_ok P K (T \<union> set []) c (Storing key got)"
      using enrolled_read [OF pair.prems] pairCheck_key [OF pair.hyps(3)] pair.hyps(4) by simp
    from daemon_inv_task [OF pair.prems this] show ?case .
  next
    case (store s c key got writable ok v)
    show ?case by (rule store_inv [OF assms(1) store.prems store.hyps]) simp
  next
    case (draw s c line user nonce raw challenge_id)
    from daemon_inv_task [OF draw.prems, of c "Drawn challenge_id nonce (system_time s)"] show ?case by simp
  next
    case (ask s c challenge_id nonce now)
    from ask_inv [OF ask.prems ask.hyps] show ?case by (simp add: Un_ac)
  next
    case (tick s t)
    then show ?case by (simp add: daemon_inv_def)
  next
    case (recheck s c challenge_id b)
    have "proved (T \<union> set []) challenge_id" if b
      using recheck.hyps(2) that daemon_inv_entry [OF recheck.prems] by (auto simp: entry_ok_def split: option.splits)
    then show ?case by (auto intro!: daemon_inv_task [OF recheck.prems, simplified])
  next
    case (leave s c challenge_id b)
    show ?case by (rule leave_inv [OF leave.prems])
  next
    case (verify s c line challenge_id device nonce_text t signature_text got readable keys opened)
    have "enrolled_vault P K (T \<union> set []) got" using enrolled_read [OF verify.prems, of readable] verify.hyps(3) by simp
    then have "task_ok P K (T \<union> set []) c (Checking challenge_id (decoded P nonce_text) t (decoded P signature_text) keys)"
      using verify.hyps(4) by (simp add: verifyKeys_def enrolled_vault_def)
    from daemon_inv_task [OF verify.prems this] show ?case .
  next
    case (check s c challenge_id nonce t signature key keys)
    have "task_ok P K (T \<union> set [Checked challenge_id nonce t signature key]) c (Matching challenge_id nonce t signature key)"
      using daemon_inv_task_ok [OF check.prems check.hyps(1)] by simp
    from daemon_inv_task [OF check.prems this] show ?case .
  next
    case (check_next s c challenge_id nonce t signature key keys)
    have "task_ok P K (T \<union> set []) c (Checking challenge_id nonce t signature keys)"
      using daemon_inv_task_ok [OF check_next.prems check_next.hyps(1)] by simp
    from daemon_inv_task [OF check_next.prems this] show ?case .
  next
    case (match s c cid nonce t signature key b s')
    have "daemon_inv P K (T \<union> set ((if b then [Verified cid nonce t signature key] else []) @ [Replied c (RAuthorized b)])) s'"
      using match_inv [OF match.prems match.hyps(2)] by (auto simp: proved_def)
    from daemon_inv_task [OF this] show ?case by simp
  qed (auto intro!: daemon_inv_task [simplified])
qed

lemma daemon_step_justified:
  assumes "daemon_step P s evs s'" and "daemon_inv P K T s" and "ev \<in> set evs"
  shows "justified P K T (system_time s) ev"
  using assms
proof (induction rule: daemon_step.induct)
  case (leave s c challenge_id b)
  then show ?case using daemon_inv_task_ok [OF leave.prems(1) leave.hyps] by auto
next
  case (match s c cid nonce t signature key b s')
  have known: "Checked cid nonce t signature key \<in> T \<and> known K T key"
    using daemon_inv_task_ok [OF match.prems(1) match.hyps(1)] by simp
  from match.hyps(2) show ?case
  proof (cases rule: verifyMatch_cases)
    case (accepted e)
    then show ?thesis using match.prems(2) known daemon_inv_entry [OF match.prems(1)] by (auto simp: entry_ok_def)
  qed (use match.prems(2) in simp)
qed (auto split: if_splits)

lemma daemon_run_inv:
  assumes "rust_laws P" and "daemon_run P (new_state v t0) trace s"
  shows "daemon_inv P (set (stored_keys P v)) (set trace) s \<and> accounted P (set (stored_keys P v)) t0 trace"
  using assms(2)
proof (induction rule: daemon_run.induct)
  case begun
  have "daemon_inv P (set (stored_keys P v)) {} (new_state v t0)"
    by (simp add: daemon_inv_def enrolled_vault_def new_state_def known_def)
  then show ?case by (simp add: accounted_def)
next
  case (more trace s evs s')
  have "system_time s = clock_at t0 trace" using run_clock [OF more.hyps(1)] by (simp add: new_state_def)
  with daemon_step_inv [OF assms(1) more.hyps(2)] daemon_step_justified [OF more.hyps(2)] more.IH step_tick [OF more.hyps(2)]
  show ?case by (auto intro!: accounted_append)
qed

end
