(* ===== verification/DaemonProperties.thy ===== *)
theory DaemonProperties
  imports DaemonProofs
begin

text \<open>
  What the daemon grants in every run, what its pairing does not check, and the wake-up that it can
  lose.
\<close>

section \<open>A run\<close>

text \<open>Lines: a pair request, an authorize request, the verify request that answers it, and a second pair
  request.\<close>

definition demoKey :: bytes where "demoKey = replicate 32 1"
definition otherKey :: bytes where "otherKey = replicate 32 2"
definition demoNonce :: bytes where "demoNonce = replicate 32 5"
definition demoId :: bytes where "demoId = ref_toHex (replicate 32 9)"

definition demoRust :: rust where
  "demoRust = \<lparr>hexEncode = ref_toHex, hexDecode = (\<lambda>t. Some (ref_fromHex t)), keyDecodes = (\<lambda>_. True),
     verifies = (\<lambda>k payload sg. sg = k @ k),
     parseRequest = (\<lambda>line. if line = [0] then Inr (Request_Pair [] (ref_toHex demoKey) [65])
       else if line = [1] then Inr (Request_Authorize [])
       else if line = [2] then Inr (Request_Verify demoId [] (ref_toHex demoNonce) 1000 (ref_toHex (demoKey @ demoKey)))
       else if line = [3] then Inr (Request_Pair [] (ref_toHex otherKey) [66])
       else Inl [])\<rparr>"

lemma ref_toHex_digits: "c \<in> set (ref_toHex b) \<Longrightarrow> c = 48 \<or> c = 49"
  by (auto simp: ref_toHex_def digits_def split: if_splits)

lemma demoRust_laws: "rust_laws demoRust"
proof -
  have "ref_toHex b \<noteq> []" if "b \<noteq> []" for b
    using that ref_hex_roundtrip [of b] by (metis ref_fromHex.simps)
  then show ?thesis
    using ref_toHex_digits by (fastforce simp: rust_laws_def demoRust_def ref_hex_roundtrip)
qed

definition demoVault :: "bytes option" where
  "demoVault = Some (key_text demoRust [demoKey])"

definition demoEntry :: pending_auth where
  "demoEntry = \<lparr>auth_nonce = demoNonce, auth_timestamp = 1000, authorized = False, notify = 1\<rparr>"

text \<open>The state of the run: the entry of the request and the task of connection 1.\<close>

definition demoState :: "pending_auth option \<Rightarrow> task \<Rightarrow> daemon" where
  "demoState entry t = \<lparr>pending = (\<lambda>cid. if cid = demoId then entry else None),
     tasks = (\<lambda>c. if c = 1 then t else Idle), password = demoVault, system_time = 1000\<rparr>"

text \<open>Connection 0 at work on the pair request, and on the two halves of the verify request.\<close>

definition demoStoring :: daemon where
  "demoStoring = (new_state None 1000)\<lparr>tasks := (\<lambda>_. Idle)(0 := Storing demoKey None)\<rparr>"

definition demoChecking :: "pending_auth option \<Rightarrow> task \<Rightarrow> daemon" where
  "demoChecking entry t = (demoState entry t)\<lparr>tasks := (tasks (demoState entry t))
     (0 := Checking demoId demoNonce 1000 (demoKey @ demoKey) [demoKey])\<rparr>"

definition demoMatching :: "pending_auth option \<Rightarrow> task \<Rightarrow> daemon" where
  "demoMatching entry t = (demoState entry t)\<lparr>tasks := (tasks (demoState entry t))
     (0 := Matching demoId demoNonce 1000 (demoKey @ demoKey) demoKey)\<rparr>"

text \<open>The events of the pair request, of the authorize request and of the verify request.\<close>

abbreviation demoPaired :: "daemon_event list" where
  "demoPaired \<equiv> [Enrolled demoKey, Replied 0 (RPaired True)]"

abbreviation demoAsked :: "daemon_event list" where
  "demoAsked \<equiv> [Drew 1 demoId demoNonce 1000, Asked 1 demoId demoNonce 1000]"

abbreviation demoChecked :: daemon_event where
  "demoChecked \<equiv> Checked demoId demoNonce 1000 (demoKey @ demoKey) demoKey"

abbreviation demoVerified :: "daemon_event list" where
  "demoVerified \<equiv> [Verified demoId demoNonce 1000 (demoKey @ demoKey) demoKey, Replied 0 (RAuthorized True)]"

lemma demo_decoded: "decoded demoRust (ref_toHex b) = b"
  by (simp add: decoded_def demoRust_def ref_hex_roundtrip)

lemma demo_pair: "daemon_step demoRust (new_state None 1000) [] demoStoring"
proof -
  have "pairCheck demoRust True (ref_toHex demoKey) [65] = Inr demoKey"
    by (simp add: pairCheck_def demoRust_def ref_hex_roundtrip demoKey_def)
  from daemon_step.pair [OF _ _ this refl, of "new_state None 1000" 0 "[0]" "[]" True] show ?thesis
    by (simp add: new_state_def demoRust_def demoStoring_def)
qed

lemma demo_store: "daemon_step demoRust demoStoring [Enrolled demoKey, Replied 0 (RPaired True)] (demoState None Idle)"
proof -
  have "add_public_key demoRust demoKey None True (password demoStoring) = (True, demoVault)"
    by (simp add: add_public_key_def load_public_keys_def demoVault_def key_text_def)
  moreover have "demoStoring\<lparr>password := demoVault, tasks := (tasks demoStoring)(0 := Idle)\<rparr> = demoState None Idle"
    by (auto simp: demoStoring_def new_state_def demoState_def)
  ultimately show ?thesis using daemon_step.store [of demoStoring 0 demoKey None demoRust True True demoVault]
    by (simp add: demoStoring_def)
qed

lemma demo_draw: "daemon_step demoRust (demoState None Idle) [Drew 1 demoId demoNonce 1000]
    (demoState None (Drawn demoId demoNonce 1000))"
  using daemon_step.draw [of "demoState None Idle" 1 demoRust "[1]" "[]" demoNonce "replicate 32 9" demoId]
  by (simp add: demoState_def demoRust_def demoNonce_def demoId_def fun_upd_def cong: if_cong)

lemma demo_ask: "daemon_step demoRust (demoState None (Drawn demoId demoNonce 1000)) [Asked 1 demoId demoNonce 1000]
    (demoState (Some demoEntry) (Entering demoId))"
  using daemon_step.ask [of "demoState None (Drawn demoId demoNonce 1000)" 1 demoId demoNonce 1000 demoRust]
  by (simp add: demoState_def demoEntry_def fun_upd_def cong: if_cong)

lemma demo_wait: "daemon_step demoRust (demoState e (Entering demoId)) [] (demoState e (Waiting demoId))"
  using daemon_step.wait [of "demoState e (Entering demoId)" 1 demoId demoRust]
  by (simp add: demoState_def fun_upd_def cong: if_cong)

lemma demo_load: "load_public_keys demoRust demoVault = Some [demoKey]"
  unfolding demoVault_def by (rule load_key_text [OF demoRust_laws]) (simp add: demoKey_def)

lemma demo_verify: "daemon_step demoRust (demoState entry t) [] (demoChecking entry t)"
proof -
  have "[demoKey] = verifyKeys demoRust True demoVault"
    by (simp add: verifyKeys_def stored_keys_def demo_load)
  from daemon_step.verify [OF _ _ _ this, of "demoState entry t" 0 "[2]" demoId "[]" "ref_toHex demoNonce" 1000
      "ref_toHex (demoKey @ demoKey)" True] show ?thesis
    by (simp add: demo_decoded demoChecking_def) (simp add: demoRust_def demoState_def)
qed

lemma demo_check: "daemon_step demoRust (demoChecking entry t) [demoChecked] (demoMatching entry t)"
proof -
  have "verify_signature demoRust demoKey demoNonce 1000 (demoKey @ demoKey) (system_time (demoChecking entry t))"
    by (simp add: verify_signature_def is_fresh_def demoRust_def demoKey_def demoNonce_def demoChecking_def demoState_def)
  moreover have "tasks (demoChecking entry t) 0 = Checking demoId demoNonce 1000 (demoKey @ demoKey) [demoKey]"
    by (simp add: demoChecking_def)
  ultimately show ?thesis using daemon_step.check by (fastforce simp: demoChecking_def demoMatching_def)
qed

lemma demo_match:
  "daemon_step demoRust (demoMatching (Some demoEntry) t)
     [Verified demoId demoNonce 1000 (demoKey @ demoKey) demoKey, Replied 0 (RAuthorized True)]
     (demoState (Some (demoEntry\<lparr>authorized := True\<rparr>)) (notify_waiters 1 (\<lambda>_. t) 1))"
proof -
  define s where "s = demoMatching (Some demoEntry) t"
  define s' where "s' = s\<lparr>pending := (pending s)(demoId \<mapsto> demoEntry\<lparr>authorized := True\<rparr>), tasks := notify_waiters 1 (tasks s)\<rparr>"
  have "verifyMatch demoId demoNonce 1000 s = (True, s')"
    by (simp add: verifyMatch_def s_def s'_def demoMatching_def demoState_def demoEntry_def)
  moreover have "s'\<lparr>tasks := (tasks s')(0 := Idle)\<rparr> = demoState (Some (demoEntry\<lparr>authorized := True\<rparr>)) (notify_waiters 1 (\<lambda>_. t) 1)"
    by (cases t) (auto simp: s_def s'_def demoMatching_def demoState_def notify_waiters_def)
  moreover have "tasks s 0 = Matching demoId demoNonce 1000 (demoKey @ demoKey) demoKey"
    by (simp add: s_def demoMatching_def)
  ultimately show ?thesis using daemon_step.match [of s 0 _ _ _ _ _ True s' demoRust] by (simp add: s_def)
qed

lemma demo_recheck: "daemon_step demoRust (demoState (Some (demoEntry\<lparr>authorized := True\<rparr>)) (Woken demoId)) []
    (demoState (Some (demoEntry\<lparr>authorized := True\<rparr>)) (Leaving demoId True))"
  using daemon_step.recheck [of "demoState (Some (demoEntry\<lparr>authorized := True\<rparr>)) (Woken demoId)" 1 demoId True demoRust]
  by (simp add: demoState_def fun_upd_def cong: if_cong)

lemma demo_leave: "daemon_step demoRust (demoState e (Leaving demoId b))
    [Decided 1 demoId b, Replied 1 (RAuthorized b)] (demoState None Idle)"
  using daemon_step.leave [of "demoState e (Leaving demoId b)" 1 demoId b demoRust]
  by (simp add: demoState_def fun_upd_def cong: if_cong)

text \<open>The run up to the pending request, and its two continuations.\<close>

lemma demo_asked:
  "daemon_run demoRust (new_state None 1000) (demoPaired @ demoAsked) (demoState (Some demoEntry) (Entering demoId))"
  using daemon_run.more [OF daemon_run.more [OF daemon_run.more [OF daemon_run.more [OF
      daemon_run.begun demo_pair] demo_store] demo_draw] demo_ask] by simp

lemma demo_waits:
  "daemon_run demoRust (new_state None 1000) (demoPaired @ demoAsked @ [demoChecked])
     (demoMatching (Some demoEntry) (Waiting demoId))"
  using daemon_run.more [OF daemon_run.more [OF daemon_run.more [OF demo_asked demo_wait] demo_verify] demo_check] by simp

lemma demo_granted:
  "daemon_run demoRust (new_state None 1000)
     (demoPaired @ demoAsked @ demoChecked # demoVerified @ [Decided 1 demoId True, Replied 1 (RAuthorized True)])
     (demoState None Idle)"
  using daemon_run.more [OF daemon_run.more [OF daemon_run.more [OF
      demo_waits demo_match [of "Waiting demoId"], simplified notify_waiters_def, simplified]
      demo_recheck] demo_leave] by simp

lemma demo_lost:
  "daemon_run demoRust (new_state None 1000) (demoPaired @ demoAsked @ demoChecked # demoVerified)
     (demoState (Some (demoEntry\<lparr>authorized := True\<rparr>)) (Waiting demoId))"
  using daemon_run.more [OF daemon_run.more [OF daemon_run.more [OF daemon_run.more [OF demo_asked demo_verify] demo_check]
      demo_match [of "Entering demoId"], simplified notify_waiters_def, simplified] demo_wait] by simp

section \<open>Who is authorized\<close>

lemma happened_later: "happened_at t0 before ev now \<Longrightarrow> happened_at t0 (before @ after) ev now"
  unfolding happened_at_def by fastforce

lemma happened_no_tick: "\<forall>t. Tick t \<notin> set trace \<Longrightarrow> happened_at t0 trace ev now \<Longrightarrow> now = t0"
  by (auto simp: happened_at_def clock_at_no_tick)

lemma accounted_happened:
  assumes "accounted P K t0 trace" and "trace = before @ after" and "ev \<in> set before"
  shows "\<exists>now T. T \<subseteq> set before \<and> happened_at t0 before ev now \<and> justified P K T now ev"
proof -
  obtain b1 b2 where "before = b1 @ ev # b2" using assms(3) by (meson split_list)
  moreover from this have "justified P K (set b1) (clock_at t0 b1) ev"
    using assms(1,2) unfolding accounted_def by (metis append_Cons append_assoc)
  ultimately show ?thesis unfolding happened_at_def by (intro exI [of _ "clock_at t0 b1"] exI [of _ "set b1"]) auto
qed

lemma granted_login:
  assumes "rust_laws P" and "daemon_run P (new_state v t0) trace s"
    and "trace = before @ Decided c cid True # after"
  shows "\<exists>nonce t signature key asker checked before1 between.
    before = before1 @ Verified cid nonce t signature key # between \<and>
    Asked asker cid nonce t \<in> set before1 \<and> happened_at t0 before1 (Drew asker cid nonce t) t \<and>
    happened_at t0 before1 (Checked cid nonce t signature key) checked \<and> is_fresh t checked \<and>
    verifies P key (nonce @ timestampBytes t) signature \<and>
    (key \<in> set (stored_keys P v) \<or> Enrolled key \<in> set before1)"
proof -
  let ?K = "set (stored_keys P v)"
  have acc: "accounted P ?K t0 trace" using daemon_run_inv [OF assms(1,2)] by simp
  then have "proved (set before) cid" using assms(3) unfolding accounted_def by fastforce
  then obtain n t sg k where "Verified cid n t sg k \<in> set before" by (auto simp: proved_def)
  then obtain b1 b2 where split: "before = b1 @ Verified cid n t sg k # b2" by (meson split_list)
  then have trace: "trace = b1 @ Verified cid n t sg k # (b2 @ Decided c cid True # after)" using assms(3) by simp
  with acc have "justified P ?K (set b1) (clock_at t0 b1) (Verified cid n t sg k)" unfolding accounted_def by blast
  then obtain c' where events: "Asked c' cid n t \<in> set b1" "Drew c' cid n t \<in> set b1" "Checked cid n t sg k \<in> set b1"
      and "k \<in> ?K \<or> Enrolled k \<in> set b1"
    by (auto simp: asked_def known_def)
  moreover have "happened_at t0 b1 (Drew c' cid n t) t"
    using accounted_happened [OF acc trace events(2)] by auto
  moreover obtain now where "happened_at t0 b1 (Checked cid n t sg k) now" "verify_signature P k n t sg now"
    using accounted_happened [OF acc trace events(3)] by auto
  moreover from this(2) have "is_fresh t now \<and> verifies P k (n @ timestampBytes t) sg"
    by (simp add: verify_signature_def split: if_splits)
  ultimately show ?thesis using split by blast
qed

text \<open>C14: in every run of the daemon, whatever the vault holds and the clock shows at its start and
  however its connections interleave and the clock is set, a login is granted only after a
  verification of its challenge. That verification has the nonce and the time that the clock showed
  when an authorization request drew this challenge; its signature is valid for the two, its time was
  at most 30 seconds away from the clock of the daemon when the signature was checked, and its key was
  in the vault at the start or was enrolled by a pair request before.\<close>

theorem login_needs_enrolled_signature:
  assumes "rust_laws P" and "daemon_run P (new_state v t0) trace s"
    and "trace = before @ Decided c cid True # after"
  shows "\<exists>nonce t signature key asker checked before1 between.
    before = before1 @ Verified cid nonce t signature key # between \<and>
    Asked asker cid nonce t \<in> set before1 \<and> happened_at t0 before1 (Drew asker cid nonce t) t \<and>
    happened_at t0 before1 (Checked cid nonce t signature key) checked \<and> is_fresh t checked \<and>
    verifies P key (nonce @ timestampBytes t) signature \<and>
    (key \<in> set (stored_keys P v) \<or> Enrolled key \<in> set before1)"
  by (rule granted_login [OF assms])

theorem login_needs_enrolled_signature_witness:
  "\<exists>nonce t signature key checked before1.
     happened_at 1000 before1 (Checked demoId nonce t signature key) checked \<and> is_fresh t checked \<and>
     verifies demoRust key (nonce @ timestampBytes t) signature \<and>
     (key \<in> set (stored_keys demoRust None) \<or> Enrolled key \<in> set before1)"
proof -
  have "demoPaired @ demoAsked @ demoChecked # demoVerified @ [Decided 1 demoId True, Replied 1 (RAuthorized True)] =
      (demoPaired @ demoAsked @ demoChecked # demoVerified) @ Decided 1 demoId True # [Replied 1 (RAuthorized True)]"
    by simp
  from login_needs_enrolled_signature [OF demoRust_laws demo_granted this] show ?thesis by blast
qed

text \<open>C13: the whole way of a login on Linux. If the PAM module grants it on the line that answers its
  request in some run of the daemon, a key that was in the vault at the start or was enrolled since had
  signed the nonce and the time that the daemon drew for this challenge, and when the daemon checked
  that signature its clock was at most 30 seconds away from the clock at the drawing.\<close>

theorem pam_login_needs_signature:
  assumes "rust_laws P" and "daemon_run P (new_state v t0) trace d"
    and "pam_sm_authenticate user argv socket_fd connect_to path s = Some (PAM_SUCCESS, path', s')"
    and "Decided c cid b \<in> set trace"
    and "consumed s' = consumed s @ daemonReply (RAuthorized b) @ [10]"
  shows "\<exists>nonce t signature key asker checked. Verified cid nonce t signature key \<in> set trace \<and>
    Asked asker cid nonce t \<in> set trace \<and> happened_at t0 trace (Drew asker cid nonce t) t \<and>
    happened_at t0 trace (Checked cid nonce t signature key) checked \<and> is_fresh t checked \<and>
    verifies P key (nonce @ timestampBytes t) signature \<and>
    (key \<in> set (stored_keys P v) \<or> Enrolled key \<in> set trace)"
proof -
  obtain username s1 line where "user = Some username" "0 \<le> socket_fd"
      "connect_to (take 107 (parse_options argv path)) = 0" "length (authorizeRequest username) < 512"
      and w: "write_all (authorizeRequest username) 0 s = Some (0, s1)" and r: "read_line 1024 [] s1 = Some (0, line, s')"
      and line: "response_is_authorized line" and "path' = parse_options argv path"
    by (rule pam_success_calls [OF assms(3)])
  have "consumed s' = consumed s @ line @ [10]"
    using write_all_sends [OF w] read_line_reads [OF r] by auto
  with assms(5) have "line = daemonReply (RAuthorized b)" by (simp del: daemonReply.simps)
  with line have b using authorized_reply by simp
  with assms(4) obtain before after where trace: "trace = before @ Decided c cid True # after"
    by (metis split_list)
  from granted_login [OF assms(1,2) trace] obtain n t sg key asker checked b1 b2 where
    split: "before = b1 @ Verified cid n t sg key # b2" and "Asked asker cid n t \<in> set b1"
    and drew: "happened_at t0 b1 (Drew asker cid n t) t" and check: "happened_at t0 b1 (Checked cid n t sg key) checked"
    and "is_fresh t checked" "verifies P key (n @ timestampBytes t) sg"
    and "key \<in> set (stored_keys P v) \<or> Enrolled key \<in> set b1" by blast
  moreover have whole: "trace = b1 @ (Verified cid n t sg key # b2 @ Decided c cid True # after)"
    using trace split by simp
  moreover have "happened_at t0 trace (Drew asker cid n t) t" "happened_at t0 trace (Checked cid n t sg key) checked"
    unfolding whole by (rule happened_later [OF drew], rule happened_later [OF check])
  ultimately show ?thesis
    by (intro exI [of _ n] exI [of _ t] exI [of _ sg] exI [of _ key] exI [of _ asker] exI [of _ checked]) auto
qed

theorem pam_login_needs_signature_witness:
  "\<exists>s'. pam_sm_authenticate (Some [98]) [] 3 (\<lambda>_. 0) [47] demoKernel = Some (PAM_SUCCESS, [47], s') \<and>
     (\<exists>nonce t signature key. is_fresh t 1000 \<and> verifies demoRust key (nonce @ timestampBytes t) signature)"
proof -
  obtain s' where run: "pam_sm_authenticate (Some [98]) [] 3 (\<lambda>_. 0) [47] demoKernel = Some (PAM_SUCCESS, [47], s')"
      "consumed s' = consumed demoKernel @ daemonReply (RAuthorized True) @ [10]"
    using pam_grants [OF _ _ _ demoKernel_ready, where username = "[98]" and socket_fd = 3 and argv = "[]"
        and connect_to = "\<lambda>_. 0" and path = "[47]"]
    by (auto simp: authorizeRequest_def simp del: daemonReply.simps)
  let ?trace = "demoPaired @ demoAsked @ demoChecked # demoVerified @ [Decided 1 demoId True, Replied 1 (RAuthorized True)]"
  have decided: "Decided 1 demoId True \<in> set ?trace" by simp
  have clock: "now = 1000" if "happened_at 1000 ?trace ev now" for ev now
    by (rule happened_no_tick [OF _ that]) simp
  show ?thesis
    using pam_login_needs_signature [OF demoRust_laws demo_granted run(1) decided run(2)] clock run(1) by metis
qed

text \<open>Without an option the PAM module connects to the socket of the daemon, and no part of its name is cut.\<close>

lemma default_socket_is_the_daemons:
  "UnixSocket (take 107 (parse_options [] default_socket_path)) \<in> set (listeners True)"
  by (simp add: listeners_def default_socket_path_def byteLit_def)

section \<open>Pairing\<close>

text \<open>C15: the daemon does not check the pairing code. With any code that is not empty a pair request
  of any client enrols its key, which is from then on one of the keys that the vault returns. The
  other keys are those that were read: if the vault could not be read (\<open>got\<close> is \<open>None\<close>), or was changed
  since by another request, the keys it holds are lost.\<close>

theorem any_code_enrols:
  assumes "rust_laws P" and "got = None \<and> keys = [] \<or> got = Some (key_text P keys)"
    and "\<forall>k \<in> set keys. length k = 32" and "length key = 32" and "code \<noteq> []"
  shows "pairCheck P True (hexEncode P key) code = Inr key \<and>
    (\<exists>v keys'. add_public_key P key got True stored = (True, v) \<and>
       load_public_keys P v = Some keys' \<and> set keys' = insert key (set keys))"
proof -
  obtain ok v where add: "add_public_key P key got True stored = (ok, v)" by fastforce
  have "vault_keys P got keys" using assms(2,3) by (simp add: vault_keys_def)
  from add_vault_keys [OF assms(1) this assms(4) add] load_vault_keys [OF assms(1)] add
  have "\<exists>v keys'. add_public_key P key got True stored = (True, v) \<and>
      load_public_keys P v = Some keys' \<and> set keys' = insert key (set keys)" by auto
  moreover have "hexDecode P (hexEncode P key) = Some key" using assms(1) by (simp add: rust_laws_def)
  ultimately show ?thesis using assms(4,5) by (simp add: pairCheck_def)
qed

theorem any_code_enrols_witness:
  "\<exists>v keys'. add_public_key demoRust (replicate 32 7) None True demoVault = (True, v) \<and>
     load_public_keys demoRust v = Some keys' \<and> set keys' = {replicate 32 7} \<and>
     load_public_keys demoRust demoVault = Some [demoKey]"
  using any_code_enrols [OF demoRust_laws, of None "[]" "replicate 32 7" "[66]" demoVault] demo_load by simp

lemma pair_step:
  assumes "rust_laws P" and "parseRequest P line = Inr (Request_Pair device (hexEncode P key) code)"
    and "code \<noteq> []" and "length key = 32" and "tasks s c = Idle"
  shows "daemon_step P s [] (s\<lparr>tasks := (tasks s)(c := Storing key (password s))\<rparr>)"
proof -
  have "pairCheck P True (hexEncode P key) code = Inr key"
    using assms(1,3,4) by (simp add: pairCheck_def rust_laws_def)
  from daemon_step.pair [OF assms(5,2) this refl, of True] show ?thesis by simp
qed

lemma store_step:
  assumes "rust_laws P" and "vault_keys P got keys" and "length key = 32" and "tasks s c = Storing key got"
  shows "\<exists>v keys'. daemon_step P s [Enrolled key, Replied c (RPaired True)] (s\<lparr>password := v, tasks := (tasks s)(c := Idle)\<rparr>) \<and>
    load_public_keys P v = Some keys' \<and> set keys' = insert key (set keys)"
proof -
  obtain ok v where add: "add_public_key P key got True (password s) = (ok, v)" by fastforce
  from add_vault_keys [OF assms(1-3) add] obtain keys' where "ok" "vault_keys P v keys'" "set keys' = insert key (set keys)"
    by auto
  with daemon_step.store [OF assms(4) add] load_vault_keys [OF assms(1)] show ?thesis by fastforce
qed

text \<open>C18: between the reading and the writing of the vault nothing keeps another pair request out. Of two
  pair requests whose steps interleave both can be answered as accepted although the key of the first
  is not in the vault afterwards: its device is told that it is paired and cannot authorize a login.\<close>

theorem concurrent_pairing_loses_key:
  assumes "rust_laws P" and "vault_keys P (password s) keys"
    and "parseRequest P line1 = Inr (Request_Pair device1 (hexEncode P key1) code1)"
    and "parseRequest P line2 = Inr (Request_Pair device2 (hexEncode P key2) code2)"
    and "code1 \<noteq> []" and "code2 \<noteq> []" and "length key1 = 32" and "length key2 = 32"
    and "key1 \<notin> insert key2 (set keys)" and "tasks s c1 = Idle" and "tasks s c2 = Idle" and "c1 \<noteq> c2"
  shows "\<exists>s' keys'. daemon_run P s [Enrolled key1, Replied c1 (RPaired True), Enrolled key2, Replied c2 (RPaired True)] s' \<and>
    load_public_keys P (password s') = Some keys' \<and> set keys' = insert key2 (set keys) \<and> key1 \<notin> set keys'"
proof -
  define s1 where "s1 = s\<lparr>tasks := (tasks s)(c1 := Storing key1 (password s))\<rparr>"
  define s2 where "s2 = s1\<lparr>tasks := (tasks s1)(c2 := Storing key2 (password s))\<rparr>"
  have read1: "daemon_step P s [] s1"
    unfolding s1_def by (rule pair_step [OF assms(1,3,5,7,10)])
  have read2: "daemon_step P s1 [] s2"
    using pair_step [OF assms(1,4,6,8), of s1 c2] assms(11,12) by (simp add: s1_def s2_def)
  have "tasks s2 c1 = Storing key1 (password s)" using assms(12) by (simp add: s1_def s2_def)
  from store_step [OF assms(1,2,7) this] obtain s3 where
    store1: "daemon_step P s2 [Enrolled key1, Replied c1 (RPaired True)] s3" and "tasks s3 = (tasks s2)(c1 := Idle)"
    by auto
  then have "tasks s3 c2 = Storing key2 (password s)" using assms(12) by (simp add: s2_def)
  from store_step [OF assms(1,2,8) this] obtain s4 keys' where
    store2: "daemon_step P s3 [Enrolled key2, Replied c2 (RPaired True)] s4"
    and "load_public_keys P (password s4) = Some keys'" "set keys' = insert key2 (set keys)"
    by auto
  moreover have "daemon_run P s [Enrolled key1, Replied c1 (RPaired True), Enrolled key2, Replied c2 (RPaired True)] s4"
    using daemon_run.more [OF daemon_run.more [OF daemon_run.more [OF daemon_run.more [OF daemon_run.begun read1] read2] store1] store2]
    by simp
  ultimately show ?thesis using assms(9) by blast
qed

theorem concurrent_pairing_loses_key_witness:
  "\<exists>s' keys'. daemon_run demoRust (new_state None 1000)
     [Enrolled demoKey, Replied 0 (RPaired True), Enrolled otherKey, Replied 1 (RPaired True)] s' \<and>
     load_public_keys demoRust (password s') = Some keys' \<and> set keys' = {otherKey} \<and> demoKey \<notin> set keys'"
proof -
  have "vault_keys demoRust (password (new_state None 1000)) []" by (simp add: vault_keys_def new_state_def)
  moreover have "parseRequest demoRust [0] = Inr (Request_Pair [] (hexEncode demoRust demoKey) [65])"
    and "parseRequest demoRust [3] = Inr (Request_Pair [] (hexEncode demoRust otherKey) [66])"
    by (simp_all add: demoRust_def)
  moreover have "length demoKey = 32" "length otherKey = 32" "demoKey \<notin> insert otherKey (set [])"
    by (simp_all add: demoKey_def otherKey_def)
  moreover have "tasks (new_state None 1000) 0 = Idle" "tasks (new_state None 1000) 1 = Idle" by (simp_all add: new_state_def)
  ultimately show ?thesis
    using concurrent_pairing_loses_key [OF demoRust_laws, of "new_state None 1000" "[]" "[0]" "[]" demoKey "[65]" "[3]" "[]" otherKey "[66]" 0 1]
    by simp
qed

section \<open>The lost wake-up\<close>

text \<open>The entry of a connection belongs to the request the connection works on.\<close>

definition notified_ok :: "daemon \<Rightarrow> bool" where
  "notified_ok s \<longleftrightarrow> (\<forall>cid e. pending s cid = Some e \<longrightarrow> task_id (tasks s (notify e)) = Some cid)"

lemma task_id_notify [simp]: "task_id (notify_waiters n ts c) = task_id (ts c)"
  by (auto simp: notify_waiters_def split: task.split)

lemma may_expire_id: "may_expire t = Some cid \<Longrightarrow> task_id t = Some cid"
  by (cases t) simp_all

text \<open>The task of one connection changes and keeps its request.\<close>

lemma notified_task:
  "notified_ok s \<Longrightarrow> task_id t = task_id (tasks s c) \<Longrightarrow> notified_ok (s\<lparr>tasks := (tasks s)(c := t)\<rparr>)"
  by (auto simp: notified_ok_def)

lemma notified_notify: "notified_ok s \<Longrightarrow> pending s cid = Some e \<Longrightarrow> task_id (tasks s (notify e)) = Some cid"
  by (simp add: notified_ok_def)

lemma notified_step: "daemon_step P s evs s' \<Longrightarrow> notified_ok s \<Longrightarrow> notified_ok s'"
proof (induction rule: daemon_step.induct)
  case (pair s c line device public_key code opened key got readable)
  then show ?case by (intro notified_task) simp_all
next
  case (store s c key got writable ok v)
  have "notify e \<noteq> c" if "pending s cid = Some e" for cid e
    using notified_notify [OF store.prems that] store.hyps(1) by auto
  with store show ?case by (simp add: notified_ok_def)
next
  case (verify s c line cid device nonce_text t signature_text got readable keys opened)
  then show ?case by (intro notified_task) simp_all
next
  case (check s c cid nonce t signature key keys)
  then show ?case by (intro notified_task) simp_all
next
  case (check_next s c cid nonce t signature key keys)
  then show ?case by (intro notified_task) simp_all
next
  case (verify_refused s c cid nonce t signature)
  then show ?case by (intro notified_task) simp_all
next
  case (draw s c line user nonce raw challenge_id)
  then show ?case by (intro notified_task) simp_all
next
  case (tick s t)
  then show ?case by (simp add: notified_ok_def)
next
  case (match s c cid nonce t signature key b s')
  from match.hyps(2) have "notified_ok s' \<and> task_id (tasks s' c) = None"
  proof (cases rule: verifyMatch_cases)
    case (accepted e)
    with match show ?thesis by (auto simp: notified_ok_def)
  qed (use match in simp)
  then show ?case by (intro notified_task) simp_all
next
  case (timeout s c challenge_id)
  then show ?case using may_expire_id [OF timeout.hyps] by (intro notified_task) simp_all
next
  case (wait s c challenge_id)
  then show ?case by (intro notified_task) simp_all
next
  case (recheck s c challenge_id b)
  then show ?case by (intro notified_task) simp_all
next
  case (ask s c challenge_id nonce now)
  have "notify e \<noteq> c" if "pending s cid = Some e" for cid e
    using notified_notify [OF ask.prems that] ask.hyps(1) by auto
  with ask show ?case by (simp add: notified_ok_def)
next
  case (leave s c challenge_id b)
  have "notify e \<noteq> c" if "pending s cid = Some e" "cid \<noteq> challenge_id" for cid e
    using notified_notify [OF leave.prems that(1)] leave.hyps that(2) by auto
  with leave show ?case by (simp add: notified_ok_def)
qed simp_all

lemma notified_run: "daemon_run P s0 trace s \<Longrightarrow> notified_ok s0 \<Longrightarrow> notified_ok s"
  by (induction rule: daemon_run.induct) (auto intro: notified_step)

text \<open>A connection that nothing can wake for this challenge.\<close>

fun stuck :: "bytes \<Rightarrow> (bytes \<rightharpoonup> pending_auth) \<Rightarrow> task \<Rightarrow> bool" where
  "stuck cid p Idle \<longleftrightarrow> True"
| "stuck cid p (Drawn cid' n t) \<longleftrightarrow> True"
| "stuck cid p (Entering cid') \<longleftrightarrow> cid' \<noteq> cid"
| "stuck cid p (Waiting cid') \<longleftrightarrow> (cid' = cid \<longrightarrow> (\<forall>e. p cid = Some e \<longrightarrow> authorized e))"
| "stuck cid p (Woken cid') \<longleftrightarrow> cid' \<noteq> cid"
| "stuck cid p (Leaving cid' b) \<longleftrightarrow> (cid' = cid \<longrightarrow> \<not> b)"
| "stuck cid p (Storing key got) \<longleftrightarrow> True"
| "stuck cid p (Checking cid' n t sg ks) \<longleftrightarrow> True"
| "stuck cid p (Matching cid' n t sg k) \<longleftrightarrow> True"

lemma stuck_match:
  assumes "notified_ok s" and "stuck cid (pending s) (tasks s c)" and "pending s cid' = Some e" and "\<not> authorized e"
  shows "stuck cid ((pending s)(cid' \<mapsto> e\<lparr>authorized := True\<rparr>)) (notify_waiters (notify e) (tasks s) c)"
proof -
  have "task_id (tasks s (notify e)) = Some cid'" using assms(1,3) by (simp add: notified_ok_def)
  with assms(2-4) show ?thesis by (cases "tasks s c") (auto simp: notify_waiters_def split: task.split)
qed

lemma stuck_step:
  assumes "daemon_step P s evs s'" and "notified_ok s" and "stuck cid (pending s) (tasks s c)"
    and "\<forall>c' n t. Asked c' cid n t \<notin> set evs"
  shows "stuck cid (pending s') (tasks s' c) \<and> Decided c cid True \<notin> set evs"
  using assms
proof (induction rule: daemon_step.induct)
  case (match s c' cid' nonce t signature key b s')
  from match.hyps(2) show ?case
  proof (cases rule: verifyMatch_cases)
    case (accepted e)
    have "pending s' = (pending s)(cid' \<mapsto> e\<lparr>authorized := True\<rparr>)"
        "tasks s' = notify_waiters (notify e) (tasks s)"
      using accepted(6) by simp_all
    then show ?thesis using stuck_match [OF match.prems(1,2) accepted(2,5)]
      by (cases "c = c'") (simp_all del: fun_upd_apply add: fun_upd_same fun_upd_other)
  qed (use match.prems in simp)
next
  case (leave s c' challenge_id b)
  then show ?case by (cases "tasks s c") (auto split: if_splits)
next
  case (ask s c' challenge_id nonce now)
  then show ?case by (cases "tasks s c") auto
next
  case (timeout s c' challenge_id)
  then show ?case by (cases "c = c'") auto
qed (auto split: if_splits)

lemma stuck_run:
  "daemon_run P s trace s' \<Longrightarrow> notified_ok s \<Longrightarrow> stuck cid (pending s) (tasks s c) \<Longrightarrow>
   \<forall>c' n t. Asked c' cid n t \<notin> set trace \<Longrightarrow>
   stuck cid (pending s') (tasks s' c) \<and> Decided c cid True \<notin> set trace"
proof (induction rule: daemon_run.induct)
  case (more trace s1 evs s2)
  then show ?case using stuck_step [OF more.hyps(2) notified_run [OF more.hyps(1)]] by auto
qed simp

text \<open>A login is refused only when its time has expired.\<close>

lemma refusal_step:
  assumes "daemon_step P s evs s'"
  shows "(Decided c cid False \<in> set evs \<longrightarrow> tasks s c = Leaving cid False) \<and>
    (tasks s' c = Leaving cid False \<longrightarrow> tasks s c = Leaving cid False \<or> Expired c cid \<in> set evs)"
  using assms
proof (induction rule: daemon_step.induct)
  case (timeout s c' challenge_id)
  then show ?case by (cases "c = c'") auto
next
  case (match s c' cid' nonce t signature key b s')
  from match.hyps(2) show ?case
    by (cases rule: verifyMatch_cases) (auto simp: notify_waiters_def split: task.splits if_splits)
qed (auto split: if_splits)

lemma refusal_run:
  assumes "daemon_run P s trace s'" and "tasks s c \<noteq> Leaving cid False"
  shows "tasks s' c = Leaving cid False \<or> Decided c cid False \<in> set trace \<Longrightarrow> Expired c cid \<in> set trace"
  using assms(1)
proof (induction rule: daemon_run.induct)
  case (more trace s1 evs s2)
  then show ?case using refusal_step [OF more.hyps(2), of c cid] by auto
qed (use assms(2) in simp)

text \<open>C17: a verification that comes between the insertion of the entry and the first wait for its
  notification is lost. From then on nothing but the timeout ends the wait: although the phone was
  told that it authorized the login, the only decision is a refusal, after the 30 seconds.\<close>

theorem early_verification_is_lost:
  assumes "daemon_run P (new_state v t0) trace s" and "tasks s c = Waiting cid"
    and "pending s cid = Some entry" and "authorized entry"
    and "daemon_run P s later s'" and "\<forall>c' n t. Asked c' cid n t \<notin> set later"
    and decided: "Decided c cid b \<in> set later"
  shows "\<not> b \<and> Expired c cid \<in> set later"
proof -
  have "notified_ok (new_state v t0)" by (simp add: notified_ok_def new_state_def)
  then have "notified_ok s" by (rule notified_run [OF assms(1)])
  moreover have "stuck cid (pending s) (tasks s c)" using assms(2-4) by simp
  ultimately have "Decided c cid True \<notin> set later" using stuck_run [OF assms(5)] assms(6) by blast
  with decided have "\<not> b" by (cases b) simp_all
  moreover from this have "Expired c cid \<in> set later"
    using refusal_run [OF assms(5)] assms(2) decided by simp
  ultimately show ?thesis ..
qed

lemma demo_expires:
  "daemon_run demoRust (demoState e (Waiting demoId))
     [Expired 1 demoId, Decided 1 demoId False, Replied 1 (RAuthorized False)] (demoState None Idle)"
proof -
  have "daemon_step demoRust (demoState e (Waiting demoId)) [Expired 1 demoId] (demoState e (Leaving demoId False))"
    using daemon_step.timeout [of "demoState e (Waiting demoId)" 1 demoId demoRust]
    by (simp add: demoState_def fun_upd_def cong: if_cong)
  from daemon_run.more [OF daemon_run.more [OF daemon_run.begun this] demo_leave] show ?thesis by simp
qed

theorem early_verification_is_lost_witness:
  "Verified demoId demoNonce 1000 (demoKey @ demoKey) demoKey \<in> set
     (demoPaired @ demoAsked @ demoChecked # demoVerified) \<and>
   \<not> False \<and> Expired 1 demoId \<in> set [Expired 1 demoId, Decided 1 demoId False, Replied 1 (RAuthorized False)]"
  using early_verification_is_lost [OF demo_lost _ _ _ demo_expires, of 1 demoId "demoEntry\<lparr>authorized := True\<rparr>" False]
  by (simp add: demoState_def)

section \<open>The verification that comes in time\<close>

text \<open>
  The login of connection \<open>c\<close> was authorized and its task knows it: it is decided, about to be
  granted, or woken while the entry is there.
\<close>

definition assured :: "nat \<Rightarrow> bytes \<Rightarrow> daemon \<Rightarrow> bool" where
  "assured c cid s \<longleftrightarrow> (\<forall>c'. task_id (tasks s c') = Some cid \<longrightarrow> c' = c) \<and>
     (tasks s c = Leaving cid True \<or>
      tasks s c = Woken cid \<and> (\<exists>e. pending s cid = Some e \<and> authorized e))"

lemma assured_start:
  assumes "daemon_step P s evs s'" and "Verified cid n t sg key \<in> set evs" and "notified_ok s"
    and "tasks s c = Waiting cid" and "\<forall>c'. task_id (tasks s c') = Some cid \<longrightarrow> c' = c"
  shows "assured c cid s'"
  using assms
proof (induction rule: daemon_step.induct)
  case (match s c' cid' nonce t' signature key' b s')
  then have "b" "cid' = cid" by (auto split: if_splits)
  from match.hyps(2) show ?case
  proof (cases rule: verifyMatch_cases)
    case (accepted e)
    have "notify e = c" using notified_notify [OF match.prems(2) accepted(2)] match.prems(4) \<open>cid' = cid\<close> by simp
    moreover have "c \<noteq> c'" using match.hyps(1) match.prems(3) by auto
    ultimately show ?thesis using accepted match.prems(3,4) \<open>cid' = cid\<close>
      by (auto simp: assured_def notify_waiters_def)
  qed (use \<open>b\<close> in simp)
qed (auto split: if_splits)

lemma assured_step:
  assumes "daemon_step P s evs s'" and "assured c cid s"
    and "Expired c cid \<notin> set evs" and "\<forall>c' n t. Asked c' cid n t \<notin> set evs"
  shows "assured c cid s' \<or> Decided c cid True \<in> set evs"
  using assms
proof (induction rule: daemon_step.induct)
  case (match s c' cid' nonce t signature key b s')
  from match.hyps(2) show ?case
  proof (cases rule: verifyMatch_cases)
    case (accepted e)
    with match.hyps(1) match.prems(1) show ?thesis
      by (auto simp: assured_def notify_waiters_def split: task.splits)
  qed (use match in \<open>auto simp: assured_def\<close>)
next
  case (leave s c' challenge_id b)
  have "challenge_id = cid \<longrightarrow> c' = c"
    using leave.prems(1) leave.hyps unfolding assured_def by (metis task_id.simps(5))
  show ?case
  proof (cases "c = c'")
    case True
    with leave show ?thesis by (simp add: assured_def)
  next
    case False
    with \<open>challenge_id = cid \<longrightarrow> c' = c\<close> have "challenge_id \<noteq> cid" by simp
    with leave False show ?thesis by (simp add: assured_def)
  qed
next
  case (timeout s c' challenge_id)
  then show ?case by (cases "c = c'") (auto simp: assured_def dest: may_expire_id)
qed (auto simp: assured_def split: if_splits option.splits)

lemma assured_run:
  assumes "daemon_run P s trace s'" and "assured c cid s"
  shows "Expired c cid \<notin> set trace \<Longrightarrow> \<forall>c' n t. Asked c' cid n t \<notin> set trace \<Longrightarrow>
    assured c cid s' \<or> Decided c cid True \<in> set trace"
  using assms(1)
proof (induction rule: daemon_run.induct)
  case (more trace s1 evs s2)
  then show ?case using assured_step [OF more.hyps(2), of c cid] by auto
qed (use assms(2) in simp)

lemma assured_grants:
  assumes "assured c cid s"
  shows "\<exists>s'. daemon_run P s [Decided c cid True, Replied c (RAuthorized True)] s'"
proof -
  have "\<exists>s1. daemon_run P s [] s1 \<and> tasks s1 c = Leaving cid True"
  proof (cases "tasks s c = Leaving cid True")
    case False
    with assms have "tasks s c = Woken cid" "(case pending s cid of Some entry \<Rightarrow> authorized entry | None \<Rightarrow> False) = True"
      by (auto simp: assured_def)
    from daemon_run.more [OF daemon_run.begun daemon_step.recheck [OF this], of P]
    show ?thesis by (intro exI [of _ "s\<lparr>tasks := (tasks s)(c := Leaving cid True)\<rparr>"]) simp
  qed (use daemon_run.begun in blast)
  then obtain s1 where s1: "daemon_run P s [] s1" "tasks s1 c = Leaving cid True" by blast
  from daemon_run.more [OF s1(1) daemon_step.leave [OF s1(2)]] show ?thesis by auto
qed

text \<open>C16: a verification that comes while the connection waits is not lost. However the connections
  go on, as long as the 30 seconds have not expired the login is not refused: it has been granted,
  or the next two steps of its own connection grant it.\<close>

theorem timely_verification_grants:
  assumes "daemon_run P (new_state v t0) trace s" and "tasks s c = Waiting cid"
    and "\<forall>c'. task_id (tasks s c') = Some cid \<longrightarrow> c' = c"
    and "daemon_step P s evs s1" and "Verified cid n t sg key \<in> set evs"
    and "daemon_run P s1 later s'" and "Expired c cid \<notin> set later"
    and "\<forall>c' n t. Asked c' cid n t \<notin> set later"
  shows "Decided c cid False \<notin> set later \<and> (Decided c cid True \<in> set later \<or>
    (\<exists>s''. daemon_run P s' [Decided c cid True, Replied c (RAuthorized True)] s''))"
proof -
  have "notified_ok (new_state v t0)" by (simp add: notified_ok_def new_state_def)
  then have start: "assured c cid s1"
    using assured_start [OF assms(4,5) notified_run [OF assms(1)] assms(2,3)] by simp
  then have "tasks s1 c \<noteq> Leaving cid False" by (auto simp: assured_def)
  then have "Decided c cid False \<notin> set later" using refusal_run [OF assms(6)] assms(7) by blast
  moreover have "assured c cid s' \<or> Decided c cid True \<in> set later"
    by (rule assured_run [OF assms(6) start assms(7,8)])
  ultimately show ?thesis using assured_grants by blast
qed

theorem timely_verification_grants_witness:
  "\<exists>s''. daemon_run demoRust (demoState (Some (demoEntry\<lparr>authorized := True\<rparr>)) (Leaving demoId True))
     [Decided 1 demoId True, Replied 1 (RAuthorized True)] s''"
proof -
  have waiting: "tasks (demoMatching (Some demoEntry) (Waiting demoId)) 1 = Waiting demoId"
    by (simp add: demoMatching_def demoState_def)
  have only: "\<forall>c'. task_id (tasks (demoMatching (Some demoEntry) (Waiting demoId)) c') = Some demoId \<longrightarrow> c' = 1"
    by (simp add: demoMatching_def demoState_def)
  have step: "daemon_step demoRust (demoMatching (Some demoEntry) (Waiting demoId))
     [Verified demoId demoNonce 1000 (demoKey @ demoKey) demoKey, Replied 0 (RAuthorized True)]
     (demoState (Some (demoEntry\<lparr>authorized := True\<rparr>)) (Woken demoId))"
    using demo_match [of "Waiting demoId"] by (simp add: notify_waiters_def)
  from timely_verification_grants [OF demo_waits waiting only step _
      daemon_run.more [OF daemon_run.begun demo_recheck]] show ?thesis by simp
qed

end
