(* ===== verification/Com.thy ===== *)
theory Com
  imports Prelude "HOL-Library.Monad_Syntax"
begin

text \<open>
  The Windows credential provider: the COM objects of \<open>windows-cp/CredentialProvider.cpp\<close> and
  the class factory and entry points of \<open>windows-cp/dllmain.cpp\<close>. Objects live in a heap from
  addresses to objects; \<open>delete this\<close> removes one, and calling a method through an address
  without an object is undefined behaviour, \<open>None\<close> here. An \<open>Interlocked\<close> operation is one
  step.
\<close>

section \<open>Objects and results\<close>

datatype hresult =
    S_OK
  | S_FALSE
  | E_POINTER
  | E_NOINTERFACE
  | E_NOTIMPL
  | E_BOUNDS
  | E_FAIL
  | E_OUTOFMEMORY
  | CLASS_E_NOAGGREGATION
  | CLASS_E_CLASSNOTAVAILABLE
  | HRESULT_FROM_WIN32 "32 word"

datatype iid =
    IID_IUnknown
  | IID_IClassFactory
  | IID_ICredentialProvider
  | IID_ICredentialProviderCredential
  | IID_other nat

type_synonym address = nat

text \<open>The provider's member \<open>credential_\<close> is an address.\<close>

datatype com_class =
    OpenBioClassFactory
  | OpenBioCredentialProvider address
  | OpenBioCredential

record com_object =
  class_of :: com_class
  references :: "32 word"

record com =
  objects :: "address \<rightharpoonup> com_object"
  next_address :: address
  module_locks :: "32 word"

definition newObject :: "com_class \<Rightarrow> com \<Rightarrow> address \<times> com" where
  "newObject c s = (next_address s,
     s\<lparr>objects := (objects s)(next_address s \<mapsto> \<lparr>class_of = c, references = 1\<rparr>),
       next_address := Suc (next_address s)\<rparr>)"

section \<open>IUnknown\<close>

text \<open>\<open>LONG\<close> and \<open>ULONG\<close> have 32 bits; the value is that of the interlocked operation.\<close>

definition AddRef :: "address \<Rightarrow> com \<Rightarrow> (32 word \<times> com) option" where
  "AddRef a s = do {
     ob \<leftarrow> objects s a;
     let value = references ob + 1;
     Some (value, s\<lparr>objects := (objects s)(a \<mapsto> ob\<lparr>references := value\<rparr>)\<rparr>) }"

definition Release :: "address \<Rightarrow> com \<Rightarrow> (32 word \<times> com) option" where
  "Release a s = do {
     ob \<leftarrow> objects s a;
     let value = references ob - 1;
     Some (value, s\<lparr>objects := (objects s)(a := (if value = 0 then None else Some (ob\<lparr>references := value\<rparr>)))\<rparr>) }"

fun supports :: "com_class \<Rightarrow> iid \<Rightarrow> bool" where
  "supports OpenBioClassFactory riid \<longleftrightarrow> riid = IID_IUnknown \<or> riid = IID_IClassFactory"
| "supports (OpenBioCredentialProvider c) riid \<longleftrightarrow> riid = IID_IUnknown \<or> riid = IID_ICredentialProvider"
| "supports OpenBioCredential riid \<longleftrightarrow> riid = IID_IUnknown \<or> riid = IID_ICredentialProviderCredential"

text \<open>
  \<open>out\<close> says whether the pointer for the result is given. The results are the value returned and
  what was stored through the pointer, \<open>None\<close> for \<open>nullptr\<close> or no pointer.
\<close>

definition QueryInterface :: "address \<Rightarrow> iid \<Rightarrow> bool \<Rightarrow> com \<Rightarrow> (hresult \<times> address option \<times> com) option" where
  "QueryInterface a riid out s = do {
     ob \<leftarrow> objects s a;
     if \<not> out then Some (E_POINTER, None, s)
     else if supports (class_of ob) riid then do { (_, s) \<leftarrow> AddRef a s; Some (S_OK, Some a, s) }
     else Some (E_NOINTERFACE, None, s) }"

section \<open>The class factory and the exported functions\<close>

text \<open>
  \<open>memory\<close> says whether \<open>new (std::nothrow)\<close> finds memory for the object. The constructor of the
  provider allocates its credential with a plain \<open>new\<close>: without memory for it
  (\<open>credential_memory\<close>) \<open>std::bad_alloc\<close> leaves the function, and there is no result.
\<close>

definition CreateInstance ::
  "bool \<Rightarrow> iid \<Rightarrow> bool \<Rightarrow> bool \<Rightarrow> bool \<Rightarrow> com \<Rightarrow> (hresult \<times> address option \<times> com) option" where
  "CreateInstance outer riid out memory credential_memory s =
     (if outer \<or> \<not> out then Some (CLASS_E_NOAGGREGATION, None, s)
      else if \<not> memory then Some (E_OUTOFMEMORY, None, s)
      else if \<not> credential_memory then None
      else do {
        let (credential, s) = newObject OpenBioCredential s;
        let (provider, s) = newObject (OpenBioCredentialProvider credential) s;
        (result, ob, s) \<leftarrow> QueryInterface provider riid out s;
        (_, s) \<leftarrow> Release provider s;
        Some (result, ob, s) })"

definition LockServer :: "bool \<Rightarrow> com \<Rightarrow> hresult \<times> com" where
  "LockServer lock s = (S_OK, s\<lparr>module_locks := (if lock then module_locks s + 1 else module_locks s - 1)\<rparr>)"

definition DllGetClassObject ::
  "bool \<Rightarrow> iid \<Rightarrow> bool \<Rightarrow> bool \<Rightarrow> com \<Rightarrow> (hresult \<times> address option \<times> com) option" where
  "DllGetClassObject known_clsid riid out memory s =
     (if \<not> known_clsid then Some (CLASS_E_CLASSNOTAVAILABLE, None, s)
      else if \<not> memory then Some (E_OUTOFMEMORY, None, s)
      else do {
        let (factory, s) = newObject OpenBioClassFactory s;
        (result, ob, s) \<leftarrow> QueryInterface factory riid out s;
        (_, s) \<leftarrow> Release factory s;
        Some (result, ob, s) })"

definition DllCanUnloadNow :: "com \<Rightarrow> hresult" where
  "DllCanUnloadNow s = (if module_locks s = 0 then S_OK else S_FALSE)"

text \<open>The DLL as it is loaded.\<close>

definition loadedModule :: com where
  "loadedModule = \<lparr>objects = Map.empty, next_address = 1, module_locks = 0\<rparr>"

section \<open>The provider\<close>

definition GetFieldDescriptorCount :: "bool \<Rightarrow> hresult \<times> nat option" where
  "GetFieldDescriptorCount out = (if \<not> out then (E_POINTER, None) else (S_OK, Some 0))"

definition GetFieldDescriptorAt :: "nat \<Rightarrow> hresult" where
  "GetFieldDescriptorAt index = E_BOUNDS"

text \<open>Count, default index and auto logon, if all three pointers are given.\<close>

definition GetCredentialCount :: "bool \<Rightarrow> bool \<Rightarrow> bool \<Rightarrow> hresult \<times> (nat \<times> nat \<times> bool) option" where
  "GetCredentialCount count_out default_out auto_out =
     (if \<not> count_out \<or> \<not> default_out \<or> \<not> auto_out then (E_POINTER, None)
      else (S_OK, Some (1, 0, False)))"

definition GetCredentialAt ::
  "address \<Rightarrow> nat \<Rightarrow> bool \<Rightarrow> com \<Rightarrow> (hresult \<times> address option \<times> com) option" where
  "GetCredentialAt provider index out s = do {
     ob \<leftarrow> objects s provider;
     case class_of ob of
       OpenBioCredentialProvider credential \<Rightarrow>
         if index \<noteq> 0 \<or> \<not> out then Some (E_BOUNDS, None, s)
         else do { (_, s) \<leftarrow> AddRef credential s; Some (S_OK, Some credential, s) }
     | _ \<Rightarrow> None }"

section \<open>The credential\<close>

datatype serialization_response =
    CPGSR_NO_CREDENTIAL_NOT_FINISHED
  | CPGSR_NO_CREDENTIAL_FINISHED
  | CPGSR_RETURN_CREDENTIAL_FINISHED

text \<open>
  What the system answers: the error of \<open>CreateFileW\<close> if it fails, and the result and the
  number of written bytes of \<open>WriteFile\<close>. \<open>HRESULT_FROM_WIN32\<close> of the error code 0 is \<open>S_OK\<close>.
\<close>

record pipe =
  openError :: "32 word option"
  writeOk :: bool
  writeCount :: "bytes \<Rightarrow> 32 word"

definition hresultFromWin32 :: "32 word \<Rightarrow> hresult" where
  "hresultFromWin32 code = (if code = 0 then S_OK else HRESULT_FROM_WIN32 code)"

definition pipeRequest :: bytes where
  "pipeRequest = byteLit ''{\"type\":\"challenge\"}'' @ [10]"

text \<open>The name of the pipe, \<open>\\.\pipe\OpenBioUnlockPipe\<close>; its characters are ASCII.\<close>

definition kPipe :: bytes where
  "kPipe = [92, 92, 46, 92] @ byteLit ''pipe'' @ [92] @ byteLit ''OpenBioUnlockPipe''"

text \<open>The result, and what was written to the pipe and whether anything was read from it.\<close>

datatype pipe_call = CreateFileW bytes | WriteFile bytes | CloseHandle

definition PipeApproval :: "pipe \<Rightarrow> hresult \<times> pipe_call list" where
  "PipeApproval p =
     (case openError p of Some code \<Rightarrow> (hresultFromWin32 code, [CreateFileW kPipe])
      | None \<Rightarrow>
         (if writeOk p \<and> writeCount p pipeRequest = of_nat (length pipeRequest) then S_OK else E_FAIL,
          [CreateFileW kPipe, WriteFile pipeRequest, CloseHandle]))"

definition GetSerialization :: "bool \<Rightarrow> pipe \<Rightarrow> hresult \<times> serialization_response option" where
  "GetSerialization out p =
     (if \<not> out then (E_POINTER, None) else (fst (PipeApproval p), Some CPGSR_NO_CREDENTIAL_NOT_FINISHED))"

definition SetSelected :: "bool \<Rightarrow> hresult \<times> bool option" where
  "SetSelected out = (if \<not> out then (E_POINTER, None) else (S_OK, Some False))"

definition GetStringValue :: "bool \<Rightarrow> hresult \<times> address option" where
  "GetStringValue out = (if \<not> out then (E_POINTER, None) else (E_NOTIMPL, None))"

datatype field_state = CPFS_DISPLAY_IN_SELECTED_TILE
datatype field_interactive_state = CPFIS_NONE

definition GetFieldState :: "bool \<Rightarrow> bool \<Rightarrow> hresult \<times> (field_state \<times> field_interactive_state) option" where
  "GetFieldState state_out interactive_out =
     (if \<not> state_out \<or> \<not> interactive_out then (E_POINTER, None)
      else (S_OK, Some (CPFS_DISPLAY_IN_SELECTED_TILE, CPFIS_NONE)))"

section \<open>The whole interfaces\<close>

text \<open>
  The methods of \<open>ICredentialProviderCredential\<close> and \<open>ICredentialProvider\<close> with the arguments
  their bodies look at (a flag for a pointer that is given), and the \<open>HRESULT\<close> of each.
\<close>

datatype credential_method =
    Credential_Advise
  | Credential_UnAdvise
  | Credential_SetSelected bool
  | Credential_SetDeselected
  | Credential_GetFieldState bool bool
  | Credential_GetBitmapValue
  | Credential_GetCheckboxValue
  | Credential_GetSubmitButtonValue
  | Credential_GetComboBoxValueCount
  | Credential_GetComboBoxValueAt
  | Credential_GetStringValue bool
  | Credential_GetSerialization bool pipe
  | Credential_ReportResult

fun credentialResult :: "credential_method \<Rightarrow> hresult" where
  "credentialResult Credential_Advise = S_OK"
| "credentialResult Credential_UnAdvise = S_OK"
| "credentialResult (Credential_SetSelected out) = fst (SetSelected out)"
| "credentialResult Credential_SetDeselected = S_OK"
| "credentialResult (Credential_GetFieldState state_out interactive_out) = fst (GetFieldState state_out interactive_out)"
| "credentialResult Credential_GetBitmapValue = E_NOTIMPL"
| "credentialResult Credential_GetCheckboxValue = E_NOTIMPL"
| "credentialResult Credential_GetSubmitButtonValue = E_NOTIMPL"
| "credentialResult Credential_GetComboBoxValueCount = E_NOTIMPL"
| "credentialResult Credential_GetComboBoxValueAt = E_NOTIMPL"
| "credentialResult (Credential_GetStringValue out) = fst (GetStringValue out)"
| "credentialResult (Credential_GetSerialization out p) = fst (GetSerialization out p)"
| "credentialResult Credential_ReportResult = S_OK"

text \<open>A call through an address needs a credential there.\<close>

definition callCredential :: "address \<Rightarrow> credential_method \<Rightarrow> com \<Rightarrow> hresult option" where
  "callCredential this m s = do {
     ob \<leftarrow> objects s this;
     if class_of ob = OpenBioCredential then Some (credentialResult m) else None }"

datatype provider_method =
    Provider_SetUsageScenario
  | Provider_SetSerialization
  | Provider_Advise
  | Provider_UnAdvise
  | Provider_GetFieldDescriptorCount bool
  | Provider_GetFieldDescriptorAt nat
  | Provider_GetCredentialCount bool bool bool
  | Provider_GetCredentialAt nat bool

text \<open>
  The bodies, by the address of the object; only \<open>GetCredentialAt\<close> looks at its members and changes
  the objects. A call needs a provider at the address.
\<close>

fun providerResult :: "address \<Rightarrow> provider_method \<Rightarrow> com \<Rightarrow> (hresult \<times> com) option" where
  "providerResult this Provider_SetUsageScenario s = Some (S_OK, s)"
| "providerResult this Provider_SetSerialization s = Some (E_NOTIMPL, s)"
| "providerResult this Provider_Advise s = Some (S_OK, s)"
| "providerResult this Provider_UnAdvise s = Some (S_OK, s)"
| "providerResult this (Provider_GetFieldDescriptorCount out) s = Some (fst (GetFieldDescriptorCount out), s)"
| "providerResult this (Provider_GetFieldDescriptorAt index) s = Some (GetFieldDescriptorAt index, s)"
| "providerResult this (Provider_GetCredentialCount count_out default_out auto_out) s =
     Some (fst (GetCredentialCount count_out default_out auto_out), s)"
| "providerResult this (Provider_GetCredentialAt index out) s =
     map_option (\<lambda>(result, _, s). (result, s)) (GetCredentialAt this index out s)"

definition callProvider :: "address \<Rightarrow> provider_method \<Rightarrow> com \<Rightarrow> (hresult \<times> com) option" where
  "callProvider this m s = do {
     ob \<leftarrow> objects s this;
     case class_of ob of OpenBioCredentialProvider credential \<Rightarrow> providerResult this m s | _ \<Rightarrow> None }"

section \<open>DllMain\<close>

definition DLL_PROCESS_ATTACH :: "32 word" where "DLL_PROCESS_ATTACH = 1"

text \<open>The new \<open>module_handle\<close>, whether \<open>DisableThreadLibraryCalls\<close> was called, and the result.\<close>

definition DllMain :: "nat \<Rightarrow> 32 word \<Rightarrow> nat option \<Rightarrow> nat option \<times> bool \<times> bool" where
  "DllMain instance_handle reason module_handle =
     (if reason = DLL_PROCESS_ATTACH then (Some instance_handle, True, True) else (module_handle, False, True))"

end
