(* ===== verification/ComProofs.thy ===== *)
theory ComProofs
  imports Com
begin

text \<open>
  Reference counting as a contract (the locale \<open>ref_counted\<close>, interpreted on \<open>AddRef\<close> and
  \<open>Release\<close>), the life of the COM objects under a client that keeps the rules of COM, and what
  the provider tells the logon screen.
\<close>

section \<open>The reference counting contract\<close>

primrec iterate :: "nat \<Rightarrow> ('s \<Rightarrow> 's option) \<Rightarrow> 's \<Rightarrow> 's option" where
  "iterate 0 f s = Some s"
| "iterate (Suc n) f s = Option.bind (f s) (iterate n f)"

lemma iterate_append: "iterate (m + n) f s = Option.bind (iterate m f s) (iterate n f)"
proof (induction m arbitrary: s)
  case (Suc m)
  then show ?case by (cases "f s") simp_all
qed simp

text \<open>\<open>count\<close> is 0 for an object that is gone; the counter has room up to \<open>limit\<close>.\<close>

locale ref_counted =
  fixes good :: "'s \<Rightarrow> bool" and count :: "'s \<Rightarrow> nat" and up :: "'s \<Rightarrow> 's option"
    and down :: "'s \<Rightarrow> 's option" and limit :: nat
  assumes gone: "good s \<Longrightarrow> count s = 0 \<Longrightarrow> up s = None \<and> down s = None"
    and up_count: "good s \<Longrightarrow> 0 < count s \<Longrightarrow> count s < limit \<Longrightarrow>
      \<exists>s'. up s = Some s' \<and> good s' \<and> count s' = Suc (count s)"
    and down_count: "good s \<Longrightarrow> 0 < count s \<Longrightarrow> \<exists>s'. down s = Some s' \<and> good s' \<and> count s' = count s - 1"
begin

lemma ups:
  "good s \<Longrightarrow> 0 < count s \<Longrightarrow> count s + n \<le> limit \<Longrightarrow>
   \<exists>s'. iterate n up s = Some s' \<and> good s' \<and> count s' = count s + n"
proof (induction n arbitrary: s)
  case (Suc n)
  then obtain s1 where "up s = Some s1" "good s1" "count s1 = Suc (count s)" using up_count [of s] by auto
  with Suc.IH [of s1] Suc.prems show ?case by auto
qed simp

lemma downs:
  "good s \<Longrightarrow> n \<le> count s \<Longrightarrow> \<exists>s'. iterate n down s = Some s' \<and> good s' \<and> count s' = count s - n"
proof (induction n arbitrary: s)
  case (Suc n)
  then obtain s1 where "down s = Some s1" "good s1" "count s1 = count s - 1" using down_count [of s] by auto
  with Suc.IH [of s1] Suc.prems show ?case by auto
qed simp

text \<open>After \<open>n\<close> references more, \<open>m\<close> releases leave the difference; one too many is an error.\<close>

lemma balanced:
  assumes "good s" and "0 < count s" and "count s + n \<le> limit"
  shows "(\<forall>m \<le> count s + n. \<exists>s'. Option.bind (iterate n up s) (iterate m down) = Some s' \<and>
      good s' \<and> count s' = count s + n - m) \<and>
    Option.bind (iterate n up s) (iterate (count s + n + 1) down) = None"
proof -
  obtain s1 where s1: "iterate n up s = Some s1" "good s1" "count s1 = count s + n" using ups [OF assms] by blast
  obtain s2 where "iterate (count s + n) down s1 = Some s2" "good s2" "count s2 = 0"
    using downs [of s1 "count s + n"] s1 by auto
  then show ?thesis
    using gone [of s2] s1 downs [of s1] iterate_append [of "count s + n" 1 down s1] by auto
qed

end

section \<open>Live objects\<close>

text \<open>An object in the heap has a count above zero, since the last \<open>Release\<close> removes it.\<close>

definition live :: "com \<Rightarrow> bool" where
  "live s \<longleftrightarrow> (\<forall>a ob. objects s a = Some ob \<longrightarrow> 0 < unat (references ob))"

definition refs :: "address \<Rightarrow> com \<Rightarrow> nat" where
  "refs a s = (case objects s a of None \<Rightarrow> 0 | Some ob \<Rightarrow> unat (references ob))"

abbreviation addRef_state :: "address \<Rightarrow> com \<Rightarrow> com option" where
  "addRef_state a s \<equiv> map_option snd (AddRef a s)"

abbreviation release_state :: "address \<Rightarrow> com \<Rightarrow> com option" where
  "release_state a s \<equiv> map_option snd (Release a s)"

lemma unat_dec: "0 < unat (w :: 32 word) \<Longrightarrow> unat (w - 1) = unat w - 1"
  by (simp add: unat_minus_one unat_gt_0)

lemma unat_inc: "unat (w :: 32 word) < 2 ^ 31 \<Longrightarrow> unat (w + 1) = Suc (unat w)"
  by (simp add: unat_plus_simple [THEN iffD1] no_olen_add_nat)

lemma addRef_state_eq:
  "addRef_state a s = map_option (\<lambda>ob. s\<lparr>objects := (objects s)(a \<mapsto> ob\<lparr>references := references ob + 1\<rparr>)\<rparr>) (objects s a)"
  by (cases "objects s a") (simp_all add: AddRef_def Let_def)

lemma release_state_eq:
  "release_state a s = map_option (\<lambda>ob. s\<lparr>objects := (objects s)(a := (if references ob = 1 then None
     else Some (ob\<lparr>references := references ob - 1\<rparr>)))\<rparr>) (objects s a)"
  by (cases "objects s a") (simp_all add: Release_def Let_def)

lemma liveD: "live s \<Longrightarrow> objects s a = Some ob \<Longrightarrow> 0 < unat (references ob)"
  by (simp add: live_def)

lemma live_update:
  "live s \<Longrightarrow> (\<And>ob'. entry = Some ob' \<Longrightarrow> 0 < unat (references ob')) \<Longrightarrow> live (s\<lparr>objects := (objects s)(a := entry)\<rparr>)"
  by (simp add: live_def)

lemma references_one: "0 < unat (references ob) \<Longrightarrow> references ob \<noteq> 1 \<Longrightarrow> 0 < unat (references ob - 1)"
proof -
  assume "0 < unat (references ob)" and "references ob \<noteq> 1"
  then have "unat (references ob) \<noteq> 1" by (metis unat_1 word_unat_eq_iff)
  with \<open>0 < unat (references ob)\<close> show ?thesis by (simp add: unat_dec)
qed

interpretation counted: ref_counted live "refs a" "addRef_state a" "release_state a" "2 ^ 31" for a
proof
  fix s
  assume l: "live s"
  show "addRef_state a s = None \<and> release_state a s = None" if "refs a s = 0"
  proof (cases "objects s a")
    case (Some ob)
    then show ?thesis using liveD [OF l Some] that by (simp add: refs_def)
  qed (simp add: addRef_state_eq release_state_eq)
  show "\<exists>s'. addRef_state a s = Some s' \<and> live s' \<and> refs a s' = Suc (refs a s)"
    if "0 < refs a s" "refs a s < 2 ^ 31"
  proof (cases "objects s a")
    case (Some ob)
    then have "unat (references ob) < 2 ^ 31" using that(2) by (simp add: refs_def)
    then have inc: "unat (references ob + 1) = Suc (unat (references ob))" by (rule unat_inc)
    then have "live (s\<lparr>objects := (objects s)(a \<mapsto> ob\<lparr>references := references ob + 1\<rparr>)\<rparr>)"
      by (intro live_update [OF l]) auto
    then show ?thesis by (simp add: addRef_state_eq Some refs_def inc)
  qed (use that in \<open>simp add: refs_def\<close>)
  show "\<exists>s'. release_state a s = Some s' \<and> live s' \<and> refs a s' = refs a s - 1" if "0 < refs a s"
  proof (cases "objects s a")
    case (Some ob)
    note pos = liveD [OF l Some]
    have "live (s\<lparr>objects := (objects s)(a := (if references ob = 1 then None
        else Some (ob\<lparr>references := references ob - 1\<rparr>)))\<rparr>)"
      by (rule live_update [OF l]) (use references_one [OF pos] in \<open>auto split: if_splits\<close>)
    then show ?thesis
      by (simp add: release_state_eq Some refs_def unat_dec [OF pos])
  qed (use that in \<open>simp add: refs_def\<close>)
qed

section \<open>A client that keeps the rules\<close>

text \<open>
  \<open>h a\<close> is the number of references a client holds to the object at \<open>a\<close>. It calls only what it
  holds, releases only what it holds, and keeps the counts below \<open>2^31\<close>.
\<close>

definition gain :: "address option \<Rightarrow> (address \<Rightarrow> nat) \<Rightarrow> address \<Rightarrow> nat" where
  "gain ob h = (case ob of None \<Rightarrow> h | Some a \<Rightarrow> h(a := Suc (h a)))"

definition few :: "(address \<Rightarrow> nat) \<Rightarrow> bool" where
  "few h \<longleftrightarrow> (\<forall>a. h a < 2 ^ 31 - 1)"

inductive com_step :: "com \<times> (address \<Rightarrow> nat) \<Rightarrow> com \<times> (address \<Rightarrow> nat) \<Rightarrow> bool" where
  get_class: "DllGetClassObject known riid out memory s = Some (r, ob, s') \<Longrightarrow> com_step (s, h) (s', gain ob h)"
| create: "0 < h f \<Longrightarrow> CreateInstance outer riid out memory cmemory s = Some (r, ob, s') \<Longrightarrow> com_step (s, h) (s', gain ob h)"
| query: "few h \<Longrightarrow> 0 < h a \<Longrightarrow> QueryInterface a riid out s = Some (r, ob, s') \<Longrightarrow> com_step (s, h) (s', gain ob h)"
| add_ref: "few h \<Longrightarrow> 0 < h a \<Longrightarrow> addRef_state a s = Some s' \<Longrightarrow> com_step (s, h) (s', gain (Some a) h)"
| release: "0 < h a \<Longrightarrow> release_state a s = Some s' \<Longrightarrow> com_step (s, h) (s', h(a := h a - 1))"
| credential: "few h \<Longrightarrow> 0 < h p \<Longrightarrow> GetCredentialAt p index out s = Some (r, ob, s') \<Longrightarrow> com_step (s, h) (s', gain ob h)"
| lock: "LockServer b s = (r, s') \<Longrightarrow> com_step (s, h) (s', h)"

inductive com_reachable :: "com \<times> (address \<Rightarrow> nat) \<Rightarrow> bool" where
  loaded: "com_reachable (loadedModule, \<lambda>_. 0)"
| step: "com_reachable st \<Longrightarrow> com_step st st' \<Longrightarrow> com_reachable st'"

text \<open>A credential has one reference more than its clients hold: the one its provider was built with.\<close>

definition owned :: "com_class \<Rightarrow> nat" where
  "owned c = (if c = OpenBioCredential then 1 else 0)"

definition counts_ok :: "com \<Rightarrow> (address \<Rightarrow> nat) \<Rightarrow> bool" where
  "counts_ok s h \<longleftrightarrow> (\<forall>a. case objects s a of None \<Rightarrow> h a = 0
     | Some ob \<Rightarrow> unat (references ob) = h a + owned (class_of ob) \<and> 0 < h a + owned (class_of ob))"

definition heap_ok :: "com \<Rightarrow> bool" where
  "heap_ok s \<longleftrightarrow> (\<forall>a \<ge> next_address s. objects s a = None) \<and>
     (\<forall>a ob c. objects s a = Some ob \<longrightarrow> class_of ob = OpenBioCredentialProvider c \<longrightarrow>
        (\<exists>co. objects s c = Some co \<and> class_of co = OpenBioCredential))"

lemma counts_okD:
  "counts_ok s h \<Longrightarrow> objects s a = Some ob \<Longrightarrow>
   unat (references ob) = h a + owned (class_of ob) \<and> 0 < h a + owned (class_of ob)"
  unfolding counts_ok_def by (drule spec [where x = a]) simp

lemma counts_ok_None: "counts_ok s h \<Longrightarrow> objects s a = None \<Longrightarrow> h a = 0"
  unfolding counts_ok_def by (drule spec [where x = a]) simp

lemma counts_ok_update:
  assumes "counts_ok s h"
    and "case entry of None \<Rightarrow> n = 0 | Some ob \<Rightarrow> unat (references ob) = n + owned (class_of ob) \<and>
      0 < n + owned (class_of ob)"
  shows "counts_ok (s\<lparr>objects := (objects s)(a := entry)\<rparr>) (h(a := n))"
  unfolding counts_ok_def
proof
  fix b
  show "case objects (s\<lparr>objects := (objects s)(a := entry)\<rparr>) b of None \<Rightarrow> (h(a := n)) b = 0
     | Some ob \<Rightarrow> unat (references ob) = (h(a := n)) b + owned (class_of ob) \<and>
         0 < (h(a := n)) b + owned (class_of ob)"
    using assms(2) assms(1) [unfolded counts_ok_def, THEN spec [where x = b]]
    by (cases "b = a") (simp_all split: option.splits)
qed

text \<open>Replacing an object by one of its class, or removing one that is no credential.\<close>

lemma heap_ok_update:
  assumes "heap_ok s" and "objects s a = Some ob" and "\<And>ob'. entry = Some ob' \<Longrightarrow> class_of ob' = class_of ob"
    and "class_of ob = OpenBioCredential \<Longrightarrow> entry \<noteq> None"
  shows "heap_ok (s\<lparr>objects := (objects s)(a := entry)\<rparr>)"
  unfolding heap_ok_def
proof (intro conjI allI impI)
  fix b assume "next_address (s\<lparr>objects := (objects s)(a := entry)\<rparr>) \<le> b"
  then have "objects s b = None" using assms(1) by (simp add: heap_ok_def)
  with assms(2) show "objects (s\<lparr>objects := (objects s)(a := entry)\<rparr>) b = None" by auto
next
  fix b ob' c
  assume b: "objects (s\<lparr>objects := (objects s)(a := entry)\<rparr>) b = Some ob'"
    and cls: "class_of ob' = OpenBioCredentialProvider c"
  have "\<exists>ob0. objects s b = Some ob0 \<and> class_of ob0 = OpenBioCredentialProvider c"
  proof (cases "b = a")
    case True
    with b have "entry = Some ob'" by simp
    then have "class_of ob' = class_of ob" by (rule assms(3))
    with True cls assms(2) show ?thesis by simp
  next
    case False
    with b cls show ?thesis by simp
  qed
  then obtain co where co: "objects s c = Some co" "class_of co = OpenBioCredential"
    using assms(1) unfolding heap_ok_def by blast
  show "\<exists>co. objects (s\<lparr>objects := (objects s)(a := entry)\<rparr>) c = Some co \<and> class_of co = OpenBioCredential"
  proof (cases "c = a")
    case True
    with co assms(2) have cred: "class_of ob = OpenBioCredential" by simp
    then obtain ob' where entry: "entry = Some ob'" using assms(4) by blast
    then have "class_of ob' = class_of ob" by (rule assms(3))
    with True cred entry show ?thesis by simp
  qed (use co in simp)
qed

text \<open>\<open>AddRef\<close> and \<open>Release\<close> on an object the client may call.\<close>

lemma add_ref_ok:
  assumes "counts_ok s h" and "heap_ok s" and "few h" and "objects s a = Some ob"
    and "s' = s\<lparr>objects := (objects s)(a \<mapsto> ob\<lparr>references := references ob + 1\<rparr>)\<rparr>"
  shows "counts_ok s' (gain (Some a) h) \<and> heap_ok s'"
proof
  note c = counts_okD [OF assms(1,4)]
  have "h a < 2 ^ 31 - 1" using assms(3) by (simp add: few_def)
  then have "unat (references ob) < 2 ^ 31" using c by (simp add: owned_def split: if_splits)
  then have "unat (references ob + 1) = Suc (unat (references ob))" by (rule unat_inc)
  then show "counts_ok s' (gain (Some a) h)"
    unfolding assms(5) gain_def option.case by (intro counts_ok_update [OF assms(1)]) (simp add: c)
  show "heap_ok s'" unfolding assms(5) by (rule heap_ok_update [OF assms(2,4)]) auto
qed

lemma release_ok:
  assumes "counts_ok s h" and "heap_ok s" and "0 < h a" and "objects s a = Some ob"
    and "s' = s\<lparr>objects := (objects s)(a := (if references ob = 1 then None
      else Some (ob\<lparr>references := references ob - 1\<rparr>)))\<rparr>"
  shows "counts_ok s' (h(a := h a - 1)) \<and> heap_ok s'"
proof
  note c = counts_okD [OF assms(1,4)]
  have one: "references ob = 1 \<longleftrightarrow> unat (references ob) = 1" by (metis unat_1 word_unat_eq_iff)
  have pos: "0 < unat (references ob)" using c by simp
  show "counts_ok s' (h(a := h a - 1))"
    unfolding assms(5)
    by (rule counts_ok_update [OF assms(1)]) (use c assms(3) unat_dec [OF pos] one in auto)
  have keeps: "references ob \<noteq> 1" if "class_of ob = OpenBioCredential"
    using c assms(3) that one by (simp add: owned_def)
  show "heap_ok s'"
    unfolding assms(5) by (rule heap_ok_update [OF assms(2,4)]) (use keeps in \<open>auto split: if_splits\<close>)
qed

text \<open>Creating an object whose only reference is the creator's.\<close>

lemma newObject_eq:
  "newObject c s = (next_address s, s\<lparr>objects := (objects s)(next_address s \<mapsto> \<lparr>class_of = c, references = 1\<rparr>),
     next_address := Suc (next_address s)\<rparr>)"
  by (simp add: newObject_def)

text \<open>\<open>QueryInterface\<close> on a new object, followed by the \<open>Release\<close> of the creator.\<close>

lemma create_and_query:
  assumes "objects s a = Some ob" and "references ob = 1"
  shows "do { (r, x, s') \<leftarrow> QueryInterface a riid out s; (_, s'') \<leftarrow> Release a s'; Some (r, x, s'') } =
    Some (if out \<and> supports (class_of ob) riid then (S_OK, Some a, s)
          else (if out then E_NOINTERFACE else E_POINTER, None, s\<lparr>objects := (objects s)(a := None)\<rparr>))"
proof -
  have "s\<lparr>objects := (objects s)(a \<mapsto> ob\<lparr>references := 1\<rparr>)\<rparr> = s"
    using assms by (cases s) (auto simp: fun_upd_idem)
  then show ?thesis
    using assms by (auto simp: QueryInterface_def Release_def AddRef_def Let_def)
qed

text \<open>A new object at a fresh address, held once.\<close>

lemma new_ok:
  assumes "counts_ok s h" and "heap_ok s" and "newObject c s = (a, s')"
    and "\<And>p. c = OpenBioCredentialProvider p \<Longrightarrow>
      \<exists>co. objects s p = Some co \<and> class_of co = OpenBioCredential"
  shows "counts_ok s' (h(a := 1 - owned c)) \<and> heap_ok s' \<and>
    objects s' a = Some \<lparr>class_of = c, references = 1\<rparr> \<and> objects s a = None \<and> h a = 0 \<and>
    (\<forall>b. b \<noteq> a \<longrightarrow> objects s' b = objects s b)"
proof (intro conjI)
  have a: "a = next_address s" and s': "s' = s\<lparr>objects := (objects s)(a \<mapsto> \<lparr>class_of = c, references = 1\<rparr>),
      next_address := Suc (next_address s)\<rparr>" using assms(3) by (auto simp: newObject_eq)
  show free: "objects s a = None" using assms(2) a by (simp add: heap_ok_def)
  show "h a = 0" by (rule counts_ok_None [OF assms(1) free])
  show "objects s' a = Some \<lparr>class_of = c, references = 1\<rparr>" using s' by simp
  show others: "\<forall>b. b \<noteq> a \<longrightarrow> objects s' b = objects s b" using s' by simp
  have "counts_ok (s\<lparr>objects := (objects s)(a := Some \<lparr>class_of = c, references = 1\<rparr>)\<rparr>) (h(a := 1 - owned c))"
    by (rule counts_ok_update [OF assms(1)]) (simp add: owned_def)
  then show "counts_ok s' (h(a := 1 - owned c))" unfolding counts_ok_def s' by simp
  show "heap_ok s'"
    unfolding heap_ok_def
  proof (intro conjI allI impI)
    fix b assume "next_address s' \<le> b"
    then show "objects s' b = None" using assms(2) a s' by (simp add: heap_ok_def)
  next
    fix b ob p assume b: "objects s' b = Some ob" and p: "class_of ob = OpenBioCredentialProvider p"
    obtain co where co: "objects s p = Some co" "class_of co = OpenBioCredential"
    proof (cases "b = a")
      case True
      then show ?thesis using that b p s' assms(4) by auto
    next
      case False
      then show ?thesis using that b p others assms(2) unfolding heap_ok_def by metis
    qed
    then have "p \<noteq> a" using free by auto
    then show "\<exists>co. objects s' p = Some co \<and> class_of co = OpenBioCredential" using co others by simp
  qed
qed

text \<open>The common part of \<open>CreateInstance\<close> and \<open>DllGetClassObject\<close>.\<close>

lemma create_ok:
  assumes inv: "counts_ok s h" "heap_ok s" and new: "newObject c s = (a, s1)"
    and provider: "\<And>p. c = OpenBioCredentialProvider p \<Longrightarrow>
      \<exists>co. objects s p = Some co \<and> class_of co = OpenBioCredential"
    and c: "c \<noteq> OpenBioCredential"
    and run: "do { (r, x, s') \<leftarrow> QueryInterface a riid out s1; (_, s'') \<leftarrow> Release a s'; Some (r, x, s'') } =
      Some (r, ob, s')"
  shows "counts_ok s' (gain ob h) \<and> heap_ok s'"
proof -
  note n = new_ok [OF inv new provider, simplified owned_def if_not_P [OF c]]
  have s1: "counts_ok s1 (h(a := 1))" "heap_ok s1" "objects s1 a = Some \<lparr>class_of = c, references = 1\<rparr>" "h a = 0"
    using n by simp_all
  note res = create_and_query [OF s1(3), of riid out] 
  show ?thesis
  proof (cases "out \<and> supports c riid")
    case True
    then have "ob = Some a" "s' = s1" using res run by simp_all
    then show ?thesis using s1 by (simp add: gain_def)
  next
    case False
    then have s': "ob = None" "s' = s1\<lparr>objects := (objects s1)(a := None)\<rparr>"
      using res run by (simp_all split: if_splits)
    have "counts_ok s' ((h(a := 1))(a := 0))"
      unfolding s' by (rule counts_ok_update [OF s1(1)]) simp
    moreover have "(h(a := 1))(a := 0) = h" using s1(4) by auto
    moreover have "heap_ok s'"
      unfolding s' by (rule heap_ok_update [OF s1(2,3)]) (use c in simp_all)
    ultimately show ?thesis by (simp add: s' gain_def)
  qed
qed

lemma get_class_ok:
  assumes "counts_ok s h" and "heap_ok s" and "DllGetClassObject known riid out memory s = Some (r, ob, s')"
  shows "counts_ok s' (gain ob h) \<and> heap_ok s'"
proof (cases "known \<and> memory")
  case True
  obtain a s1 where new: "newObject OpenBioClassFactory s = (a, s1)" by fastforce
  show ?thesis
    by (rule create_ok [OF assms(1,2) new, where riid = riid and out = out and r = r])
      (use assms(3) True new in \<open>simp_all add: DllGetClassObject_def Let_def\<close>)
next
  case False
  then show ?thesis using assms by (auto simp: DllGetClassObject_def gain_def split: if_splits)
qed

lemma create_instance_ok:
  assumes "counts_ok s h" and "heap_ok s"
    and "CreateInstance outer riid out memory cmemory s = Some (r, ob, s')"
  shows "counts_ok s' (gain ob h) \<and> heap_ok s'"
proof (cases "\<not> outer \<and> out \<and> memory \<and> cmemory")
  case True
  obtain c s1 where credential: "newObject OpenBioCredential s = (c, s1)" by fastforce
  obtain a s2 where new: "newObject (OpenBioCredentialProvider c) s1 = (a, s2)" by fastforce
  note n = new_ok [OF assms(1,2) credential]
  then have "h(c := 1 - owned OpenBioCredential) = h" by (auto simp: owned_def)
  with n have s1: "counts_ok s1 h" "heap_ok s1" by simp_all
  show ?thesis
    by (rule create_ok [OF s1 new, where riid = riid and out = out and r = r])
      (use assms(3) True new credential n in \<open>simp_all add: CreateInstance_def Let_def\<close>)
next
  case False
  then show ?thesis using assms by (auto simp: CreateInstance_def gain_def split: if_splits)
qed

lemma query_ok:
  assumes "counts_ok s h" and "heap_ok s" and "few h" and "QueryInterface a riid out s = Some (r, x, s')"
  shows "counts_ok s' (gain x h) \<and> heap_ok s'"
proof -
  obtain ob where ob: "objects s a = Some ob" using assms(4) by (cases "objects s a") (simp_all add: QueryInterface_def)
  show ?thesis
  proof (cases "out \<and> supports (class_of ob) riid")
    case True
    then have "x = Some a" "s' = s\<lparr>objects := (objects s)(a \<mapsto> ob\<lparr>references := references ob + 1\<rparr>)\<rparr>"
      using assms(4) ob by (simp_all add: QueryInterface_def AddRef_def Let_def)
    with add_ref_ok [OF assms(1,2,3) ob] show ?thesis by simp
  next
    case False
    then have "x = None" "s' = s" using assms(4) ob by (auto simp: QueryInterface_def split: if_splits)
    with assms show ?thesis by (simp add: gain_def)
  qed
qed

lemma heap_ok_credential:
  "heap_ok s \<Longrightarrow> objects s p = Some ob \<Longrightarrow> class_of ob = OpenBioCredentialProvider c \<Longrightarrow>
   \<exists>co. objects s c = Some co \<and> class_of co = OpenBioCredential"
  unfolding heap_ok_def by blast

lemma get_credential_eq:
  assumes "heap_ok s" and "objects s p = Some ob" and "class_of ob = OpenBioCredentialProvider c"
  shows "\<exists>co. objects s c = Some co \<and> class_of co = OpenBioCredential \<and> GetCredentialAt p index out s =
    Some (if index = 0 \<and> out
      then (S_OK, Some c, s\<lparr>objects := (objects s)(c \<mapsto> co\<lparr>references := references co + 1\<rparr>)\<rparr>)
      else (E_BOUNDS, None, s))"
  using heap_ok_credential [OF assms] assms(2,3) by (auto simp: GetCredentialAt_def AddRef_def Let_def)

lemma get_credential_ok:
  assumes "counts_ok s h" and "heap_ok s" and "few h" and "GetCredentialAt p index out s = Some (r, x, s')"
  shows "counts_ok s' (gain x h) \<and> heap_ok s'"
proof -
  obtain ob c where ob: "objects s p = Some ob" "class_of ob = OpenBioCredentialProvider c"
    using assms(4) by (auto simp: GetCredentialAt_def split: bind_splits com_class.splits)
  from get_credential_eq [OF assms(2) this, of index out] obtain co where co: "objects s c = Some co"
    and eq: "GetCredentialAt p index out s = Some (if index = 0 \<and> out
      then (S_OK, Some c, s\<lparr>objects := (objects s)(c \<mapsto> co\<lparr>references := references co + 1\<rparr>)\<rparr>)
      else (E_BOUNDS, None, s))" by blast
  show ?thesis
  proof (cases "index = 0 \<and> out")
    case True
    then have "x = Some c" "s' = s\<lparr>objects := (objects s)(c \<mapsto> co\<lparr>references := references co + 1\<rparr>)\<rparr>"
      using eq assms(4) by simp_all
    with add_ref_ok [OF assms(1,2,3) co] show ?thesis by simp
  next
    case False
    then have "x = None" "s' = s" using eq assms(4) by (auto split: if_splits)
    with assms show ?thesis by (simp add: gain_def)
  qed
qed

definition com_ok :: "com \<times> (address \<Rightarrow> nat) \<Rightarrow> bool" where
  "com_ok st \<longleftrightarrow> counts_ok (fst st) (snd st) \<and> heap_ok (fst st)"

lemma com_step_ok: "com_step st st' \<Longrightarrow> com_ok st \<Longrightarrow> com_ok st'"
proof (induction rule: com_step.induct)
  case (add_ref h a s s')
  then obtain ob where "objects s a = Some ob" by (cases "objects s a") (simp_all add: addRef_state_eq)
  with add_ref show ?case using add_ref_ok [of s h a ob s'] by (simp add: com_ok_def addRef_state_eq)
next
  case (release h a s s')
  then obtain ob where "objects s a = Some ob" by (cases "objects s a") (simp_all add: release_state_eq)
  with release show ?case using release_ok [of s h a ob s'] by (simp add: com_ok_def release_state_eq)
next
  case (lock b s r s' h)
  then show ?case by (auto simp: com_ok_def LockServer_def counts_ok_def heap_ok_def)
qed (auto simp: com_ok_def dest: get_class_ok create_instance_ok query_ok get_credential_ok)

lemma com_reachable_ok: "com_reachable st \<Longrightarrow> com_ok st"
proof (induction rule: com_reachable.induct)
  case loaded
  show ?case by (simp add: com_ok_def counts_ok_def heap_ok_def loadedModule_def)
qed (rule com_step_ok)

text \<open>Objects the client may call.\<close>

lemma held_object:
  "com_reachable (s, h) \<Longrightarrow> 0 < h a \<Longrightarrow>
   \<exists>ob. objects s a = Some ob \<and> unat (references ob) = h a + owned (class_of ob)"
  using com_reachable_ok [of "(s, h)"] counts_okD [of s h a] counts_ok_None [of s h a]
  by (cases "objects s a") (simp_all add: com_ok_def)

lemma reachable_heap_ok: "com_reachable (s, h) \<Longrightarrow> heap_ok s"
  using com_reachable_ok [of "(s, h)"] by (simp add: com_ok_def)

lemma query_held: "objects s a = Some ob \<Longrightarrow> QueryInterface a riid out s \<noteq> None"
  by (simp add: QueryInterface_def AddRef_def Let_def)

section \<open>A credential is never freed\<close>

definition is_credential :: "com \<Rightarrow> address \<Rightarrow> bool" where
  "is_credential s a \<longleftrightarrow> (\<exists>ob. objects s a = Some ob \<and> class_of ob = OpenBioCredential)"

lemma is_credential_update:
  assumes "is_credential s a" and "objects s b = Some ob"
    and "class_of ob = OpenBioCredential \<Longrightarrow> \<exists>ob'. entry = Some ob' \<and> class_of ob' = OpenBioCredential"
  shows "is_credential (s\<lparr>objects := (objects s)(b := entry)\<rparr>) a"
  using assms unfolding is_credential_def by (cases "a = b") auto

lemma create_frame:
  assumes "newObject c s = (a, s1)"
    and "do { (r, x, s') \<leftarrow> QueryInterface a riid out s1; (_, s'') \<leftarrow> Release a s'; Some (r, x, s'') } =
      Some (r, ob, s')"
  shows "b \<noteq> a \<Longrightarrow> objects s' b = objects s b"
proof -
  assume b: "b \<noteq> a"
  have "objects s1 a = Some \<lparr>class_of = c, references = 1\<rparr>" and s1: "objects s1 b = objects s b"
    using assms(1) b by (auto simp: newObject_eq)
  from create_and_query [OF this(1), of riid out] assms(2) have "s' = s1 \<or> s' = s1\<lparr>objects := (objects s1)(a := None)\<rparr>"
    by (auto split: if_splits)
  then show ?thesis using s1 b by auto
qed

lemma get_class_keeps:
  assumes "heap_ok s" and "DllGetClassObject known riid out memory s = Some (r, ob, s')" and "is_credential s b"
  shows "is_credential s' b"
proof (cases "known \<and> memory")
  case True
  obtain a s1 where new: "newObject OpenBioClassFactory s = (a, s1)" by fastforce
  have "objects s a = None" using assms(1) new by (auto simp: newObject_eq heap_ok_def)
  then have "b \<noteq> a" using assms(3) by (auto simp: is_credential_def)
  then have "objects s' b = objects s b"
    by (rule create_frame [OF new, where riid = riid and out = out and r = r, rotated])
      (use assms(2) True new in \<open>simp add: DllGetClassObject_def Let_def\<close>)
  with assms(3) show ?thesis by (simp add: is_credential_def)
next
  case False
  then show ?thesis using assms by (auto simp: DllGetClassObject_def split: if_splits)
qed

lemma create_instance_keeps:
  assumes "heap_ok s" and "CreateInstance outer riid out memory cmemory s = Some (r, ob, s')"
  shows "is_credential s b \<Longrightarrow> is_credential s' b"
    and "\<not> outer \<and> out \<and> memory \<Longrightarrow> is_credential s' (next_address s)"
proof -
  obtain c s1 where credential: "newObject OpenBioCredential s = (c, s1)" by fastforce
  obtain a s2 where new: "newObject (OpenBioCredentialProvider c) s1 = (a, s2)" by fastforce
  have a: "c = next_address s" "a = Suc (next_address s)" "objects s c = None" "objects s a = None"
    using assms(1) credential new by (auto simp: newObject_eq heap_ok_def)
  have frame: "objects s' x = objects s1 x" if "\<not> outer \<and> out \<and> memory" "x \<noteq> a" for x
    by (rule create_frame [OF new, where riid = riid and out = out and r = r, OF _ that(2)])
      (use assms(2) that new credential in \<open>simp add: CreateInstance_def Let_def split: if_splits\<close>)
  have s1: "objects s1 = (objects s)(c \<mapsto> \<lparr>class_of = OpenBioCredential, references = 1\<rparr>)"
    using credential by (auto simp: newObject_eq)
  show "is_credential s' (next_address s)" if "\<not> outer \<and> out \<and> memory"
    using frame [OF that, of c] a(1,2) s1 by (simp add: is_credential_def)
  show "is_credential s' b" if cred: "is_credential s b"
  proof (cases "\<not> outer \<and> out \<and> memory")
    case True
    have "b \<noteq> a" "b \<noteq> c" using cred a(3,4) by (auto simp: is_credential_def)
    then have "objects s' b = objects s b" using frame [OF True, of b] s1 by simp
    with cred show ?thesis by (simp add: is_credential_def)
  next
    case False
    then have "s' = s" using assms(2) by (auto simp: CreateInstance_def split: if_splits)
    with cred show ?thesis by simp
  qed
qed

lemma query_keeps:
  "QueryInterface a riid out s = Some (r, x, s') \<Longrightarrow> is_credential s b \<Longrightarrow> is_credential s' b"
  by (cases "objects s a")
    (auto simp: QueryInterface_def AddRef_def Let_def split: if_splits intro: is_credential_update)

lemma get_credential_keeps:
  assumes "heap_ok s" and "GetCredentialAt p index out s = Some (r, x, s')" and "is_credential s b"
  shows "is_credential s' b"
proof -
  obtain ob c where ob: "objects s p = Some ob" "class_of ob = OpenBioCredentialProvider c"
    using assms(2) by (auto simp: GetCredentialAt_def split: bind_splits com_class.splits)
  from get_credential_eq [OF assms(1) this, of index out] assms(2,3) show ?thesis
    by (auto split: if_splits intro: is_credential_update)
qed

lemma release_keeps:
  assumes "counts_ok s h" and "0 < h a" and "release_state a s = Some s'" and "is_credential s b"
  shows "is_credential s' b"
proof -
  obtain ob where ob: "objects s a = Some ob" using assms(3) by (cases "objects s a") (simp_all add: release_state_eq)
  have "references ob \<noteq> 1" if "class_of ob = OpenBioCredential"
    using counts_okD [OF assms(1) ob] assms(2) that by (auto simp: owned_def)
  then have "is_credential (s\<lparr>objects := (objects s)(a := (if references ob = 1 then None
      else Some (ob\<lparr>references := references ob - 1\<rparr>)))\<rparr>) b"
    by (intro is_credential_update [OF assms(4) ob]) simp
  with assms(3) ob show ?thesis by (simp add: release_state_eq)
qed

lemma step_keeps_credential:
  "com_step st st' \<Longrightarrow> com_ok st \<Longrightarrow> is_credential (fst st) b \<Longrightarrow> is_credential (fst st') b"
proof (induction rule: com_step.induct)
  case (add_ref h a s s')
  then show ?case by (cases "objects s a") (auto simp: addRef_state_eq intro: is_credential_update)
next
  case (release h a s s')
  then show ?case using release_keeps [of s h a s' b] by (simp add: com_ok_def)
next
  case (lock l s r s' h)
  then show ?case by (auto simp: LockServer_def is_credential_def)
qed (auto simp: com_ok_def intro: get_class_keeps create_instance_keeps(1) query_keeps get_credential_keeps)

lemma run_keeps_credential:
  "com_step\<^sup>*\<^sup>* st st' \<Longrightarrow> com_reachable st \<Longrightarrow>
   com_reachable st' \<and> (is_credential (fst st) b \<longrightarrow> is_credential (fst st') b)"
  by (induction rule: rtranclp_induct) (auto intro: com_reachable.step step_keeps_credential com_reachable_ok)

end
