(* ===== verification/ComProperties.thy ===== *)
theory ComProperties
  imports ComProofs
begin

text \<open>
  What holds of the Windows credential provider in every run of a client that keeps the rules of
  COM, and what its answers to the logon screen are.
\<close>

section \<open>A run\<close>

text \<open>The module after a client asked for the class factory, and after it created a provider.\<close>

definition withFactory :: com where
  "withFactory = \<lparr>objects = [1 \<mapsto> \<lparr>class_of = OpenBioClassFactory, references = 1\<rparr>],
     next_address = 2, module_locks = 0\<rparr>"

definition withProvider :: com where
  "withProvider = \<lparr>objects = [1 \<mapsto> \<lparr>class_of = OpenBioClassFactory, references = 1\<rparr>,
       2 \<mapsto> \<lparr>class_of = OpenBioCredential, references = 1\<rparr>,
       3 \<mapsto> \<lparr>class_of = OpenBioCredentialProvider 2, references = 1\<rparr>],
     next_address = 4, module_locks = 0\<rparr>"

lemma get_factory: "DllGetClassObject True IID_IClassFactory True True loadedModule = Some (S_OK, Some 1, withFactory)"
  by (simp add: DllGetClassObject_def loadedModule_def newObject_def QueryInterface_def AddRef_def Release_def
      Let_def withFactory_def)

lemma create_provider:
  "CreateInstance False IID_ICredentialProvider True True True withFactory = Some (S_OK, Some 3, withProvider)"
  by (simp add: CreateInstance_def withFactory_def newObject_def QueryInterface_def AddRef_def Release_def
      Let_def withProvider_def)

lemma gain_Some: "gain (Some a) h = h(a := Suc (h a))"
  by (simp add: gain_def)

lemma factory_reachable: "com_reachable (withFactory, (\<lambda>_. 0)(1 := 1))"
  using com_reachable.step [OF com_reachable.loaded com_step.get_class [OF get_factory]]
  by (simp add: gain_Some)

lemma provider_step:
  "com_step (withFactory, (\<lambda>_. 0)(1 := 1)) (withProvider, (\<lambda>_. 0)(1 := 1, 3 := 1))"
  using com_step.create [of "(\<lambda>_. 0)(1 := 1)" 1, OF _ create_provider] by (simp add: gain_Some)

lemma provider_reachable: "com_reachable (withProvider, (\<lambda>_. 0)(1 := 1, 3 := 1))"
  by (rule com_reachable.step [OF factory_reachable provider_step])

section \<open>References\<close>

lemma refs_gone: "live s \<Longrightarrow> refs a s = 0 \<longleftrightarrow> objects s a = None"
  using liveD [of s a] by (cases "objects s a") (auto simp: refs_def)

text \<open>Taking \<open>n\<close> more references to an object and giving \<open>m\<close> back leaves exactly the difference;
  the object is destroyed by the last \<open>Release\<close> and not before, and one \<open>Release\<close> too many is a
  use after free.
\<close>

theorem balanced_references:
  assumes "live s" and "0 < refs a s" and "refs a s + n \<le> 2 ^ 31"
  shows "(\<forall>m \<le> refs a s + n. \<exists>s'. Option.bind (iterate n (addRef_state a) s) (iterate m (release_state a)) = Some s' \<and>
      refs a s' = refs a s + n - m \<and> (objects s' a = None \<longleftrightarrow> m = refs a s + n)) \<and>
    Option.bind (iterate n (addRef_state a) s) (iterate (refs a s + n + 1) (release_state a)) = None"
proof (intro conjI allI impI)
  fix m assume m: "m \<le> refs a s + n"
  then obtain s' where s': "Option.bind (iterate n (addRef_state a) s) (iterate m (release_state a)) = Some s'"
      "live s'" "refs a s' = refs a s + n - m"
    using conjunct1 [OF counted.balanced [OF assms]] by blast
  have "objects s' a = None \<longleftrightarrow> m = refs a s + n" using refs_gone [OF s'(2), of a] s'(3) m by auto
  with s'(1,3) show "\<exists>s'. Option.bind (iterate n (addRef_state a) s) (iterate m (release_state a)) = Some s' \<and>
      refs a s' = refs a s + n - m \<and> (objects s' a = None \<longleftrightarrow> m = refs a s + n)"
    by (intro exI [of _ s'] conjI)
qed (rule conjunct2 [OF counted.balanced [OF assms]])

theorem balanced_references_witness:
  "Option.bind (iterate 2 (addRef_state 3) withProvider) (iterate 4 (release_state 3)) = None"
proof -
  have "live withProvider" by (simp add: live_def withProvider_def split: if_splits)
  moreover have "refs 3 withProvider = 1" by (simp add: refs_def withProvider_def)
  ultimately have "Option.bind (iterate 2 (addRef_state 3) withProvider) (iterate (1 + 2 + 1) (release_state 3)) = None"
    using conjunct2 [OF balanced_references [of withProvider 3 2]] by simp
  moreover have "1 + 2 + 1 = (4 :: nat)" by simp
  ultimately show ?thesis by (simp only:)
qed

text \<open>C20: in every run, each pointer the client holds points to an object, whose count is the number of
  pointers held and, for a credential, one for its provider; no call through such a pointer is
  a use after free, also not the call from a provider to its credential.
\<close>

theorem no_dangling_pointer:
  assumes "com_reachable (s, h)" and "0 < h a"
  shows "(\<exists>ob. objects s a = Some ob \<and> unat (references ob) = h a + owned (class_of ob) \<and>
      (\<forall>c m. class_of ob = OpenBioCredentialProvider c \<longrightarrow> callProvider a m s \<noteq> None) \<and>
      (\<forall>m. class_of ob = OpenBioCredential \<longrightarrow> callCredential a m s \<noteq> None)) \<and>
    QueryInterface a riid out s \<noteq> None \<and> addRef_state a s \<noteq> None \<and> release_state a s \<noteq> None"
proof -
  obtain ob where ob: "objects s a = Some ob" "unat (references ob) = h a + owned (class_of ob)"
    using held_object [OF assms] by blast
  have provider: "callProvider a m s \<noteq> None" if "class_of ob = OpenBioCredentialProvider c" for c m
  proof -
    have "providerResult a m s \<noteq> None"
    proof (cases m)
      case (Provider_GetCredentialAt index given)
      then show ?thesis
        using get_credential_eq [OF reachable_heap_ok [OF assms(1)] ob(1) that, of index given] by auto
    qed simp_all
    then show ?thesis using ob(1) that by (simp add: callProvider_def)
  qed
  have credential: "callCredential a m s \<noteq> None" if "class_of ob = OpenBioCredential" for m
    using ob(1) that by (simp add: callCredential_def)
  have "\<exists>ob. objects s a = Some ob \<and> unat (references ob) = h a + owned (class_of ob) \<and>
      (\<forall>c m. class_of ob = OpenBioCredentialProvider c \<longrightarrow> callProvider a m s \<noteq> None) \<and>
      (\<forall>m. class_of ob = OpenBioCredential \<longrightarrow> callCredential a m s \<noteq> None)"
    using ob provider credential by blast
  then show ?thesis using ob(1) by (simp add: query_held addRef_state_eq release_state_eq del: not_None_eq)
qed

theorem no_dangling_pointer_witness: "QueryInterface 3 IID_IUnknown True withProvider \<noteq> None"
  using no_dangling_pointer [OF provider_reachable, of 3 IID_IUnknown True] by simp

text \<open>C24: every \<open>CreateInstance\<close> that has memory leaves a credential behind that no later call ever
  frees: the reference of its provider, which has no destructor, is never given back.
\<close>

theorem credential_leaks:
  assumes "com_reachable (s, h)" and "0 < h f"
    and "CreateInstance False riid True True cmemory s = Some (r, ob, s1)"
    and "com_step\<^sup>*\<^sup>* (s1, gain ob h) (s2, h2)"
  shows "\<exists>c co. objects s c = None \<and> objects s2 c = Some co \<and> class_of co = OpenBioCredential \<and>
    unat (references co) = h2 c + 1"
proof -
  have "com_reachable (s1, gain ob h)"
    by (rule com_reachable.step [OF assms(1) com_step.create]) (rule assms)+
  then have reach: "com_reachable (s2, h2)" and keeps: "is_credential s1 c \<Longrightarrow> is_credential s2 c" for c
    using run_keeps_credential [OF assms(4)] by simp_all
  have "is_credential s2 (next_address s)"
    by (rule keeps) (use create_instance_keeps(2) [OF reachable_heap_ok [OF assms(1)] assms(3)] in simp)
  then obtain co where co: "objects s2 (next_address s) = Some co" "class_of co = OpenBioCredential"
    by (auto simp: is_credential_def)
  have "counts_ok s2 h2" using com_reachable_ok [OF reach] by (simp add: com_ok_def)
  then have "unat (references co) = h2 (next_address s) + 1"
    using counts_okD [of s2 h2 "next_address s" co] co by (simp add: owned_def)
  moreover have "objects s (next_address s) = None"
    using reachable_heap_ok [OF assms(1)] by (simp add: heap_ok_def)
  ultimately show ?thesis using co by blast
qed

theorem credential_leaks_witness:
  "\<exists>s2 c co. release_state 3 withProvider = Some s2 \<and> objects s2 3 = None \<and>
     objects s2 c = Some co \<and> class_of co = OpenBioCredential \<and> unat (references co) = 1"
proof -
  let ?h = "(\<lambda>_. 0)(1 := 1, 3 := 1) :: nat \<Rightarrow> nat"
  obtain s2 where s2: "release_state 3 withProvider = Some s2" "objects s2 3 = None"
    by (simp add: release_state_eq withProvider_def)
  have "com_step (withProvider, ?h) (s2, ?h(3 := ?h 3 - 1))" by (rule com_step.release [OF _ s2(1)]) simp
  moreover have "gain (Some 3) ((\<lambda>_. 0)(1 := 1)) = ?h" by (simp add: gain_Some)
  ultimately have "com_step\<^sup>*\<^sup>* (withProvider, gain (Some 3) ((\<lambda>_. 0)(1 := 1))) (s2, ?h(3 := ?h 3 - 1))" by auto
  from credential_leaks [OF factory_reachable _ create_provider this, of 1]
  obtain c co where c: "objects withFactory c = None" "objects s2 c = Some co" "class_of co = OpenBioCredential"
      "unat (references co) = (?h(3 := ?h 3 - 1)) c + 1" by auto
  have "c \<noteq> 1" using c(1) by (auto simp: withFactory_def)
  with c s2 show ?thesis by (intro exI [of _ s2] exI [of _ c] exI [of _ co]) auto
qed

text \<open>The module counts no objects: there is a run in which \<open>DllCanUnloadNow\<close> lets the system
  unload the code of an object that the client still holds.
\<close>

theorem unload_ignores_objects:
  "\<exists>s h p ob c. com_reachable (s, h) \<and> 0 < h p \<and> objects s p = Some ob \<and>
     class_of ob = OpenBioCredentialProvider c \<and> DllCanUnloadNow s = S_OK"
  using provider_reachable
  by (intro exI [of _ withProvider] exI [of _ "(\<lambda>_. 0)(1 := 1, 3 := 1)"] exI [of _ 3]
      exI [of _ "\<lparr>class_of = OpenBioCredentialProvider 2, references = 1\<rparr>"] exI [of _ 2])
    (simp add: withProvider_def DllCanUnloadNow_def)

section \<open>Enumeration and serialization\<close>

text \<open>What the provider announces is what it delivers: exactly the credentials below the count
  can be fetched, each comes with a reference of its own, the default one is among them, and no
  field descriptor below the field count is refused.
\<close>

theorem enumeration_consistent:
  assumes "com_reachable (s, h)" and "few h" and "0 < h p"
    and "objects s p = Some ob" and "class_of ob = OpenBioCredentialProvider c"
  shows "\<exists>n d m. GetCredentialCount True True True = (S_OK, Some (n, d, False)) \<and> d < n \<and>
    (\<forall>i. \<exists>r x s'. GetCredentialAt p i True s = Some (r, x, s') \<and> (r = S_OK \<longleftrightarrow> i < n) \<and>
       (if r = S_OK then x = Some c \<and> is_credential s' c \<and> refs c s' = Suc (refs c s) else x = None \<and> s' = s)) \<and>
    GetFieldDescriptorCount True = (S_OK, Some m) \<and> (\<forall>i < m. GetFieldDescriptorAt i = S_OK)"
proof -
  have each: "\<exists>r x s'. GetCredentialAt p i True s = Some (r, x, s') \<and> (r = S_OK \<longleftrightarrow> i < 1) \<and>
       (if r = S_OK then x = Some c \<and> is_credential s' c \<and> refs c s' = Suc (refs c s) else x = None \<and> s' = s)" for i
  proof -
    obtain co where co: "objects s c = Some co" "class_of co = OpenBioCredential"
      and eq: "GetCredentialAt p i True s = Some (if i = 0 \<and> True
        then (S_OK, Some c, s\<lparr>objects := (objects s)(c \<mapsto> co\<lparr>references := references co + 1\<rparr>)\<rparr>)
        else (E_BOUNDS, None, s))"
      using get_credential_eq [OF reachable_heap_ok [OF assms(1)] assms(4,5), of i True] by blast
    have "unat (references co) = h c + 1"
      using com_reachable_ok [OF assms(1)] counts_okD [OF _ co(1)] co(2) by (simp add: com_ok_def owned_def)
    moreover have "h c < 2 ^ 31 - 1" using assms(2) by (simp add: few_def)
    ultimately have "unat (references co + 1) = Suc (unat (references co))" by (intro unat_inc) simp
    then show ?thesis using eq co by (cases "i = 0") (simp_all add: is_credential_def refs_def)
  qed
  show ?thesis
    by (intro exI [of _ 1] exI [of _ 0] conjI allI)
      (simp_all only: each GetCredentialCount_def GetFieldDescriptorCount_def not_True_eq_False simp_thms if_False
        less_nat_zero_code zero_less_one)
qed

theorem enumeration_consistent_witness:
  "\<exists>n. GetCredentialCount True True True = (S_OK, Some (n, 0, False)) \<and> 0 < n"
proof -
  have "few ((\<lambda>_. 0)(1 := 1, 3 := 1))" by (simp add: few_def)
  then have "\<exists>n d m. GetCredentialCount True True True = (S_OK, Some (n, d, False)) \<and> d < n \<and>
      GetFieldDescriptorCount True = (S_OK, Some m)"
    using enumeration_consistent [OF provider_reachable, of 3 "\<lparr>class_of = OpenBioCredentialProvider 2, references = 1\<rparr>" 2]
    by (auto simp: withProvider_def)
  then show ?thesis by (auto simp: GetCredentialCount_def)
qed

text \<open>\<open>GetSerialization\<close> succeeds exactly if the 21 bytes of the challenge request were written to
  the pipe; no answer is read, and in no case is there a credential for the logon.
\<close>

theorem serialization_without_approval:
  "(fst (GetSerialization True p) = S_OK \<longleftrightarrow>
      (case openError p of Some code \<Rightarrow> code = 0 | None \<Rightarrow> writeOk p \<and> writeCount p pipeRequest = 21)) \<and>
    snd (GetSerialization True p) = Some CPGSR_NO_CREDENTIAL_NOT_FINISHED \<and>
    set (snd (PipeApproval p)) \<subseteq> {CreateFileW kPipe, WriteFile pipeRequest, CloseHandle}"
proof -
  have "length pipeRequest = 21" by (simp add: pipeRequest_def byteLit_def)
  then show ?thesis
    by (simp add: GetSerialization_def PipeApproval_def hresultFromWin32_def split: option.split)
qed

end
