(* ===== verification/Credential.thy ===== *)
theory Credential
  imports Reference
begin

text \<open>
  The credential store of \<open>src/core/credential.cpp\<close>: the three builds of
  \<open>CredentialStore\<close> (Windows DPAPI with \<open>QSettings\<close>, libsecret, no vault), over an operating
  system that is a parameter. The contract \<open>vault\<close> says that a store is a map from names to
  secrets; the libsecret build is shown to keep it.
\<close>

section \<open>The operating system\<close>

text \<open>
  The calls of the two vaults on the state \<open>'w\<close> of the machine. A failing DPAPI call is \<open>None\<close>.
  A libsecret call returns its result, the message of the \<open>GError\<close> it set, and the new state.
\<close>

record 'w os =
  CryptProtectData :: "bytes \<Rightarrow> qstring \<Rightarrow> 'w \<Rightarrow> bytes option"
  CryptUnprotectData :: "bytes \<Rightarrow> 'w \<Rightarrow> bytes option"
  settingsValue :: "qstring \<Rightarrow> 'w \<Rightarrow> bytes"
  settingsSetValue :: "qstring \<Rightarrow> bytes \<Rightarrow> 'w \<Rightarrow> 'w"
  settingsRemove :: "qstring \<Rightarrow> 'w \<Rightarrow> 'w"
  password_store :: "bytes \<Rightarrow> bytes \<Rightarrow> 'w \<Rightarrow> bool \<times> bytes option \<times> 'w"
  password_lookup :: "bytes \<Rightarrow> 'w \<Rightarrow> bytes option \<times> bytes option"
  password_clear :: "bytes \<Rightarrow> 'w \<Rightarrow> bool \<times> bytes option \<times> 'w"

datatype platform = Q_OS_WIN | OPENBIOUNLOCK_HAS_LIBSECRET | NO_VAULT

text \<open>
  An array as the system sees it: a \<open>DATA_BLOB\<close> has a 32-bit size, a C string ends at the first
  zero.
\<close>

definition dataBlob :: "bytes \<Rightarrow> bytes" where
  "dataBlob d = take (length d mod 2 ^ 32) d"

definition cString :: "'a::zero list \<Rightarrow> 'a list" where
  "cString = takeWhile (\<lambda>b. b \<noteq> 0)"

text \<open>The \<open>QString *error\<close>: \<open>None\<close> is \<open>nullptr\<close>, otherwise the text it points to.\<close>

definition fail :: "qstring option \<Rightarrow> qstring \<Rightarrow> qstring option" where
  "fail error message = map_option (\<lambda>_. message) error"

section \<open>CredentialStore\<close>

fun CredentialStore_write ::
  "platform \<Rightarrow> qt \<Rightarrow> 'w os \<Rightarrow> qstring \<Rightarrow> bytes \<Rightarrow> qstring option \<Rightarrow> 'w \<Rightarrow> bool \<times> qstring option \<times> 'w" where
  "CredentialStore_write Q_OS_WIN Q OS name secret error w =
     (case CryptProtectData OS (dataBlob secret) (cString name) w of
        None \<Rightarrow> (False, fail error (qs ''Windows DPAPI encryption failed''), w)
      | Some encoded \<Rightarrow> (True, error, settingsSetValue OS name (toBase64 Q encoded) w))"
| "CredentialStore_write OPENBIOUNLOCK_HAS_LIBSECRET Q OS name secret error w =
     (let encoded = toBase64 Q secret;
          (ok, localError, w) = password_store OS (cString (toUtf8 Q name)) (cString encoded) w;
          error = (if ok then error
            else fail error (case localError of Some message \<Rightarrow> fromUtf8 Q message
                             | None \<Rightarrow> qs ''Secret Service write failed''))
      in (ok, error, w))"
| "CredentialStore_write NO_VAULT Q OS name secret error w =
     (False, fail error (qs ''no supported OS credential vault is available''), w)"

fun CredentialStore_read ::
  "platform \<Rightarrow> qt \<Rightarrow> 'w os \<Rightarrow> qstring \<Rightarrow> qstring option \<Rightarrow> 'w \<Rightarrow> bytes \<times> qstring option" where
  "CredentialStore_read Q_OS_WIN Q OS name error w =
     (let encoded = settingsValue OS name w
      in if encoded = [] then ([], fail error (qs ''Windows DPAPI decryption failed''))
         else case CryptUnprotectData OS (dataBlob encoded) w of
                None \<Rightarrow> ([], fail error (qs ''Windows DPAPI decryption failed''))
              | Some result \<Rightarrow> (result, error))"
| "CredentialStore_read OPENBIOUNLOCK_HAS_LIBSECRET Q OS name error w =
     (case password_lookup OS (cString (toUtf8 Q name)) w of
        (None, Some message) \<Rightarrow> ([], fail error (fromUtf8 Q message))
      | (None, None) \<Rightarrow> ([], error)
      | (Some v, _) \<Rightarrow> (fromBase64 Q (cString v), error))"
| "CredentialStore_read NO_VAULT Q OS name error w =
     ([], fail error (qs ''no supported OS credential vault is available''))"

fun CredentialStore_remove ::
  "platform \<Rightarrow> qt \<Rightarrow> 'w os \<Rightarrow> qstring \<Rightarrow> qstring option \<Rightarrow> 'w \<Rightarrow> bool \<times> qstring option \<times> 'w" where
  "CredentialStore_remove Q_OS_WIN Q OS name error w = (True, error, settingsRemove OS name w)"
| "CredentialStore_remove OPENBIOUNLOCK_HAS_LIBSECRET Q OS name error w =
     (let (ok, localError, w) = password_clear OS (cString (toUtf8 Q name)) w;
          error = (case localError of Some message \<Rightarrow> if \<not> ok then fail error (fromUtf8 Q message) else error
                   | None \<Rightarrow> error)
      in (ok, error, w))"
| "CredentialStore_remove NO_VAULT Q OS name error w =
     (False, fail error (qs ''no supported OS credential vault is available''), w)"

section \<open>The contract of a vault\<close>

datatype 'n vault_op = Store 'n bytes | Clear 'n

text \<open>A sequence of operations on a store, with what each returned, and on a map.\<close>

fun run_vault :: "('n \<Rightarrow> bytes \<Rightarrow> 'w \<Rightarrow> bool \<times> 'w) \<Rightarrow> ('n \<Rightarrow> 'w \<Rightarrow> bool \<times> 'w) \<Rightarrow> 'n vault_op list \<Rightarrow> 'w \<Rightarrow>
    bool list \<times> 'w" where
  "run_vault put del [] w = ([], w)"
| "run_vault put del (op # ops) w =
     (let (ok, w) = (case op of Store n b \<Rightarrow> put n b w | Clear n \<Rightarrow> del n w);
          (oks, w) = run_vault put del ops w
      in (ok # oks, w))"

fun run_map :: "('n \<Rightarrow> 'k) \<Rightarrow> 'n vault_op list \<Rightarrow> ('k \<rightharpoonup> bytes) \<Rightarrow> bool list \<times> ('k \<rightharpoonup> bytes)" where
  "run_map key [] m = ([], m)"
| "run_map key (op # ops) m =
     (let (ok, m) = (case op of Store n b \<Rightarrow> (True, m(key n \<mapsto> b))
                     | Clear n \<Rightarrow> (key n \<in> dom m, m(key n := None)));
          (oks, m) = run_map key ops m
      in (ok # oks, m))"

locale vault =
  fixes key :: "'n \<Rightarrow> 'k" and content :: "'w \<Rightarrow> 'k \<rightharpoonup> bytes" and ready :: "'w \<Rightarrow> bool"
    and put :: "'n \<Rightarrow> bytes \<Rightarrow> 'w \<Rightarrow> bool \<times> 'w" and get :: "'n \<Rightarrow> 'w \<Rightarrow> bytes"
    and del :: "'n \<Rightarrow> 'w \<Rightarrow> bool \<times> 'w"
  assumes put_law: "ready w \<Longrightarrow>
      \<exists>w'. put n b w = (True, w') \<and> ready w' \<and> content w' = (content w)(key n \<mapsto> b)"
    and del_law: "ready w \<Longrightarrow>
      \<exists>w'. del n w = (key n \<in> dom (content w), w') \<and> ready w' \<and> content w' = (content w)(key n := None)"
    and get_law: "ready w \<Longrightarrow> get n w = (case content w (key n) of None \<Rightarrow> [] | Some b \<Rightarrow> b)"
begin

lemma one_refines:
  assumes "ready w"
  obtains ok w' where "(case op of Store n b \<Rightarrow> put n b w | Clear n \<Rightarrow> del n w) = (ok, w')" and "ready w'"
    and "(case op of Store n b \<Rightarrow> (True, (content w)(key n \<mapsto> b))
          | Clear n \<Rightarrow> (key n \<in> dom (content w), (content w)(key n := None))) = (ok, content w')"
proof (cases op)
  case (Store n b)
  then show ?thesis using put_law [OF assms, of n b] that by force
next
  case (Clear n)
  then show ?thesis using del_law [OF assms, of n] that by force
qed

lemma run_refines:
  "ready w \<Longrightarrow> \<exists>oks w'. run_vault put del ops w = (oks, w') \<and> ready w' \<and>
     run_map key ops (content w) = (oks, content w')"
proof (induction ops arbitrary: w)
  case (Cons op ops)
  obtain ok w1 where w1: "(case op of Store n b \<Rightarrow> put n b w | Clear n \<Rightarrow> del n w) = (ok, w1)" "ready w1"
      "(case op of Store n b \<Rightarrow> (True, (content w)(key n \<mapsto> b))
        | Clear n \<Rightarrow> (key n \<in> dom (content w), (content w)(key n := None))) = (ok, content w1)"
    by (rule one_refines [OF Cons.prems])
  obtain oks w2 where "run_vault put del ops w1 = (oks, w2)" "ready w2"
      "run_map key ops (content w1) = (oks, content w2)"
    using Cons.IH [OF w1(2)] by blast
  with w1 show ?case by (simp only: run_vault.simps run_map.simps Let_def prod.case) blast
qed simp

lemma run_read:
  "ready w \<Longrightarrow> get n (snd (run_vault put del ops w)) =
     (case snd (run_map key ops (content w)) (key n) of None \<Rightarrow> [] | Some b \<Rightarrow> b)"
  using run_refines [of w ops] get_law by (metis snd_conv)

end

section \<open>The libsecret build keeps the contract\<close>

text \<open>
  The documented behaviour of the secret service: while it is \<open>available\<close> it is a map from names
  to passwords; \<open>secret_password_clear_sync\<close> says whether there was one; a service that is not
  available sets an error and changes nothing.
\<close>

definition service_laws :: "'w os \<Rightarrow> ('w \<Rightarrow> bytes \<rightharpoonup> bytes) \<Rightarrow> ('w \<Rightarrow> bool) \<Rightarrow> bool" where
  "service_laws OS items available \<longleftrightarrow> (\<forall>n w.
     (available w \<longrightarrow>
       (\<forall>p. \<exists>w'. password_store OS n p w = (True, None, w') \<and> available w' \<and> items w' = (items w)(n \<mapsto> p)) \<and>
       password_lookup OS n w = (items w n, None) \<and>
       (\<exists>w'. password_clear OS n w = (n \<in> dom (items w), None, w') \<and> available w' \<and> items w' = (items w)(n := None))) \<and>
     (\<not> available w \<longrightarrow>
       (\<forall>p. \<exists>e. password_store OS n p w = (False, Some e, w)) \<and>
       (\<exists>e. password_lookup OS n w = (None, Some e)) \<and>
       (\<exists>e. password_clear OS n w = (False, Some e, w))))"

text \<open>Base64 is printable: no byte of the text is zero or a control character.\<close>

definition base64_text_laws :: "qt \<Rightarrow> bool" where
  "base64_text_laws Q \<longleftrightarrow> base64_laws Q \<and> (\<forall>b. \<forall>c \<in> set (toBase64 Q b). 32 < c)"

definition vaultKey :: "qt \<Rightarrow> qstring \<Rightarrow> bytes" where
  "vaultKey Q name = cString (toUtf8 Q name)"

definition vaultContent :: "qt \<Rightarrow> ('w \<Rightarrow> bytes \<rightharpoonup> bytes) \<Rightarrow> 'w \<Rightarrow> bytes \<rightharpoonup> bytes" where
  "vaultContent Q items w = map_option (\<lambda>v. fromBase64 Q (cString v)) \<circ> items w"

abbreviation vault_write :: "platform \<Rightarrow> qt \<Rightarrow> 'w os \<Rightarrow> qstring \<Rightarrow> bytes \<Rightarrow> 'w \<Rightarrow> bool \<times> 'w" where
  "vault_write P Q OS name secret w \<equiv> (case CredentialStore_write P Q OS name secret None w of (ok, _, w) \<Rightarrow> (ok, w))"

abbreviation vault_read :: "platform \<Rightarrow> qt \<Rightarrow> 'w os \<Rightarrow> qstring \<Rightarrow> 'w \<Rightarrow> bytes" where
  "vault_read P Q OS name w \<equiv> fst (CredentialStore_read P Q OS name None w)"

abbreviation vault_remove :: "platform \<Rightarrow> qt \<Rightarrow> 'w os \<Rightarrow> qstring \<Rightarrow> 'w \<Rightarrow> bool \<times> 'w" where
  "vault_remove P Q OS name w \<equiv> (case CredentialStore_remove P Q OS name None w of (ok, _, w) \<Rightarrow> (ok, w))"

lemma cString_base64: "base64_text_laws Q \<Longrightarrow> cString (toBase64 Q b) = toBase64 Q b"
  unfolding cString_def base64_text_laws_def by (force simp: takeWhile_eq_all_conv)

lemma service_available:
  assumes "service_laws OS items available" and "available w"
  shows "\<exists>w'. password_store OS n p w = (True, None, w') \<and> available w' \<and> items w' = (items w)(n \<mapsto> p)"
    and "password_lookup OS n w = (items w n, None)"
    and "\<exists>w'. password_clear OS n w = (n \<in> dom (items w), None, w') \<and> available w' \<and> items w' = (items w)(n := None)"
  using assms unfolding service_laws_def by blast+

interpretation libsecret: vault "vaultKey Q" "vaultContent Q items"
  "\<lambda>w. service_laws OS items available \<and> base64_text_laws Q \<and> available w"
  "vault_write OPENBIOUNLOCK_HAS_LIBSECRET Q OS" "vault_read OPENBIOUNLOCK_HAS_LIBSECRET Q OS"
  "vault_remove OPENBIOUNLOCK_HAS_LIBSECRET Q OS"
  for Q :: qt and OS :: "'w os" and items :: "'w \<Rightarrow> bytes \<rightharpoonup> bytes" and available :: "'w \<Rightarrow> bool"
proof
  fix w :: 'w and n :: qstring and b :: bytes
  assume w: "service_laws OS items available \<and> base64_text_laws Q \<and> available w"
  note av = service_available [of OS items available w "vaultKey Q n"]
  have b64: "fromBase64 Q (toBase64 Q b) = b" using w by (simp add: base64_text_laws_def base64_laws_def)
  obtain w' where "password_store OS (vaultKey Q n) (toBase64 Q b) w = (True, None, w')" "available w'"
      "items w' = (items w)(vaultKey Q n \<mapsto> toBase64 Q b)" using av(1) w by blast
  then show "\<exists>w'. vault_write OPENBIOUNLOCK_HAS_LIBSECRET Q OS n b w = (True, w') \<and>
      (service_laws OS items available \<and> base64_text_laws Q \<and> available w') \<and>
      vaultContent Q items w' = (vaultContent Q items w)(vaultKey Q n \<mapsto> b)"
    using w b64 by (auto simp: vaultKey_def vaultContent_def cString_base64 fun_eq_iff)
  obtain w' where "password_clear OS (vaultKey Q n) w = (vaultKey Q n \<in> dom (items w), None, w')" "available w'"
      "items w' = (items w)(vaultKey Q n := None)" using av(3) w by blast
  then show "\<exists>w'. vault_remove OPENBIOUNLOCK_HAS_LIBSECRET Q OS n w =
        (vaultKey Q n \<in> dom (vaultContent Q items w), w') \<and>
      (service_laws OS items available \<and> base64_text_laws Q \<and> available w') \<and>
      vaultContent Q items w' = (vaultContent Q items w)(vaultKey Q n := None)"
    using w by (auto simp: vaultKey_def vaultContent_def fun_eq_iff dom_def)
  show "vault_read OPENBIOUNLOCK_HAS_LIBSECRET Q OS n w =
      (case vaultContent Q items w (vaultKey Q n) of None \<Rightarrow> [] | Some b \<Rightarrow> b)"
    using av(2) w by (simp add: vaultKey_def vaultContent_def split: option.split)
qed

section \<open>Concrete vaults\<close>

text \<open>
  A machine with both vaults: its state holds the passwords of the secret service and the
  settings. A DPAPI blob is a version byte and the data; the service of the second machine is
  down.
\<close>

type_synonym machine = "(bytes \<rightharpoonup> bytes) \<times> (qstring \<rightharpoonup> bytes)"

definition emptyMachine :: machine where
  "emptyMachine = (Map.empty, Map.empty)"

definition refMachine :: "machine os" where
  "refMachine = \<lparr>CryptProtectData = (\<lambda>d _ _. Some (1 # d)),
     CryptUnprotectData = (\<lambda>b _. case b of [] \<Rightarrow> None | v # d \<Rightarrow> if v = 1 then Some d else None),
     settingsValue = (\<lambda>n (_, st). case st n of None \<Rightarrow> [] | Some b \<Rightarrow> b),
     settingsSetValue = (\<lambda>n b (it, st). (it, st(n \<mapsto> b))),
     settingsRemove = (\<lambda>n (it, st). (it, st(n := None))),
     password_store = (\<lambda>n p (it, st). (True, None, (it(n \<mapsto> p), st))),
     password_lookup = (\<lambda>n (it, st). (it n, None)),
     password_clear = (\<lambda>n (it, st). (n \<in> dom it, None, (it(n := None), st)))\<rparr>"

definition downMachine :: "machine os" where
  "downMachine = refMachine\<lparr>password_store := (\<lambda>_ _ w. (False, Some [100], w)),
     password_lookup := (\<lambda>_ _. (None, Some [100])), password_clear := (\<lambda>_ w. (False, Some [100], w))\<rparr>"

lemma refMachine_laws: "service_laws refMachine fst (\<lambda>_. True)"
  by (simp add: service_laws_def refMachine_def split: prod.split)

lemma downMachine_laws: "service_laws downMachine fst (\<lambda>_. False)"
  by (simp add: service_laws_def downMachine_def)

lemma ref_base64_text: "base64_text_laws ref_qt"
  by (auto simp: base64_text_laws_def ref_base64_laws) (auto simp: ref_qt_def ref_toHex_def digits_def split: if_splits)

section \<open>What the store promises\<close>

text \<open>C25: with an available secret service the store is a map from names to secrets. Whatever
  sequence of writes and removals is made, each answers as the map does (a removal says whether
  there was a secret), and every read returns the secret the map holds, or nothing.\<close>

theorem libsecret_implements_map:
  assumes "service_laws OS items available" and "base64_text_laws Q" and "available w"
  shows "\<exists>oks w'. run_vault (vault_write OPENBIOUNLOCK_HAS_LIBSECRET Q OS) (vault_remove OPENBIOUNLOCK_HAS_LIBSECRET Q OS)
      ops w = (oks, w') \<and> available w' \<and>
    run_map (vaultKey Q) ops (vaultContent Q items w) = (oks, vaultContent Q items w') \<and>
    (\<forall>name. vault_read OPENBIOUNLOCK_HAS_LIBSECRET Q OS name w' =
       (case vaultContent Q items w' (vaultKey Q name) of None \<Rightarrow> [] | Some secret \<Rightarrow> secret))"
proof -
  have "service_laws OS items available \<and> base64_text_laws Q \<and> available w" using assms by simp
  from libsecret.run_refines [OF this, of ops] obtain oks w' where
    run: "run_vault (vault_write OPENBIOUNLOCK_HAS_LIBSECRET Q OS) (vault_remove OPENBIOUNLOCK_HAS_LIBSECRET Q OS)
      ops w = (oks, w')" "run_map (vaultKey Q) ops (vaultContent Q items w) = (oks, vaultContent Q items w')"
    and w': "service_laws OS items available \<and> base64_text_laws Q \<and> available w'" by blast
  have "\<forall>name. vault_read OPENBIOUNLOCK_HAS_LIBSECRET Q OS name w' =
      (case vaultContent Q items w' (vaultKey Q name) of None \<Rightarrow> [] | Some secret \<Rightarrow> secret)"
    using libsecret.get_law [OF w'] by simp
  with run w' show ?thesis by (intro exI [of _ oks] exI [of _ w'] conjI) simp_all
qed

theorem libsecret_implements_map_witness:
  "vault_read OPENBIOUNLOCK_HAS_LIBSECRET ref_qt refMachine (qs ''a'')
     (snd (run_vault (vault_write OPENBIOUNLOCK_HAS_LIBSECRET ref_qt refMachine)
        (vault_remove OPENBIOUNLOCK_HAS_LIBSECRET ref_qt refMachine)
        [Store (qs ''a'') [1, 2], Store (qs ''b'') [3], Clear (qs ''b'')] emptyMachine)) = [1, 2]"
proof -
  have keys: "vaultKey ref_qt (qs ''a'') = [97]" "vaultKey ref_qt (qs ''b'') = [98]"
    by (simp_all add: vaultKey_def cString_def ref_qt_def qs_def)
  obtain oks w' where w': "run_vault (vault_write OPENBIOUNLOCK_HAS_LIBSECRET ref_qt refMachine)
        (vault_remove OPENBIOUNLOCK_HAS_LIBSECRET ref_qt refMachine)
        [Store (qs ''a'') [1, 2], Store (qs ''b'') [3], Clear (qs ''b'')] emptyMachine = (oks, w')"
      "run_map (vaultKey ref_qt) [Store (qs ''a'') [1, 2], Store (qs ''b'') [3], Clear (qs ''b'')]
        (vaultContent ref_qt fst emptyMachine) = (oks, vaultContent ref_qt fst w')"
      "vault_read OPENBIOUNLOCK_HAS_LIBSECRET ref_qt refMachine (qs ''a'') w' =
        (case vaultContent ref_qt fst w' (vaultKey ref_qt (qs ''a'')) of None \<Rightarrow> [] | Some secret \<Rightarrow> secret)"
    using libsecret_implements_map [OF refMachine_laws ref_base64_text TrueI, where w = "emptyMachine" and
        ops = "[Store (qs ''a'') [1, 2], Store (qs ''b'') [3], Clear (qs ''b'')]"] 
    by blast
  have "vaultContent ref_qt fst w' [97] = Some [1, 2]" using w'(2) by (auto simp: keys dest: fun_cong [where x = "[97]"])
  with w'(1,3) show ?thesis by (simp add: keys)
qed

text \<open>
  DPAPI: what \<open>CryptProtectData\<close> produced \<open>CryptUnprotectData\<close> opens, and it opens nothing that
  does not start like a blob, with the version 1. Settings return what was set last.
\<close>

definition dpapi_laws :: "'w os \<Rightarrow> bool" where
  "dpapi_laws OS \<longleftrightarrow>
     (\<forall>d n w b w'. CryptProtectData OS d n w = Some b \<longrightarrow> CryptUnprotectData OS b w' = Some d) \<and>
     (\<forall>b w d. CryptUnprotectData OS b w = Some d \<longrightarrow> (\<exists>body. b = 1 # body)) \<and>
     (\<forall>n b w. settingsValue OS n (settingsSetValue OS n b w) = b)"

text \<open>C26: on Windows a secret cannot be read back. \<open>write\<close> stores the Base64 text of the protected
  blob and \<open>read\<close> hands that text to \<open>CryptUnprotectData\<close> without decoding it, so directly after a
  successful write the read fails, although the blob itself opens to the secret.\<close>

theorem windows_read_fails_after_write:
  assumes "dpapi_laws OS" and "base64_text_laws Q"
    and "CredentialStore_write Q_OS_WIN Q OS name secret error w = (True, error', w')"
  shows "CredentialStore_read Q_OS_WIN Q OS name (Some old) w' = ([], Some (qs ''Windows DPAPI decryption failed'')) \<and>
    (\<exists>blob. settingsValue OS name w' = toBase64 Q blob \<and> CryptUnprotectData OS blob w' = Some (dataBlob secret))"
proof -
  obtain blob where blob: "CryptProtectData OS (dataBlob secret) (cString name) w = Some blob"
    and w': "w' = settingsSetValue OS name (toBase64 Q blob) w" using assms(3) by (auto split: option.splits)
  have stored: "settingsValue OS name w' = toBase64 Q blob" using assms(1) w' by (simp add: dpapi_laws_def)
  have opens: "CryptUnprotectData OS blob w' = Some (dataBlob secret)"
    using assms(1) blob unfolding dpapi_laws_def by blast
  have "CryptUnprotectData OS (dataBlob (toBase64 Q blob)) w' = None"
  proof (rule ccontr)
    assume "CryptUnprotectData OS (dataBlob (toBase64 Q blob)) w' \<noteq> None"
    then obtain body where "dataBlob (toBase64 Q blob) = 1 # body" using assms(1) unfolding dpapi_laws_def by blast
    then have "1 \<in> set (toBase64 Q blob)" unfolding dataBlob_def by (metis in_set_takeD list.set_intros(1))
    then have "32 < (1 :: byte)" using assms(2) unfolding base64_text_laws_def by blast
    then show False by simp
  qed
  then have "CredentialStore_read Q_OS_WIN Q OS name (Some old) w' = ([], Some (qs ''Windows DPAPI decryption failed''))"
    by (simp add: stored fail_def Let_def)
  with stored opens show ?thesis by blast
qed

theorem windows_read_fails_after_write_witness:
  "\<exists>w'. CredentialStore_write Q_OS_WIN ref_qt refMachine (qs ''a'') [7] None emptyMachine = (True, None, w') \<and>
     CredentialStore_read Q_OS_WIN ref_qt refMachine (qs ''a'') (Some []) w' =
       ([], Some (qs ''Windows DPAPI decryption failed''))"
proof -
  have laws: "dpapi_laws refMachine"
    by (auto simp: dpapi_laws_def refMachine_def split: list.splits if_splits prod.splits)
  have "\<exists>w'. CredentialStore_write Q_OS_WIN ref_qt refMachine (qs ''a'') [7] None emptyMachine = (True, None, w')"
    by (simp add: refMachine_def)
  then show ?thesis using windows_read_fails_after_write [OF laws ref_base64_text] by blast
qed

text \<open>Errors. Without a vault every operation fails with the same message; if the secret service
  is down every operation fails with its message and nothing changes; but a secret that does not
  exist is no error: \<open>read\<close> returns nothing and \<open>remove\<close> returns false, both without a message.\<close>

theorem vault_errors:
  assumes "service_laws OS items available"
  shows "(if available w
      then vaultKey Q name \<in> dom (items w) \<or>
        CredentialStore_read OPENBIOUNLOCK_HAS_LIBSECRET Q OS name (Some old) w = ([], Some old) \<and>
        (\<exists>w'. CredentialStore_remove OPENBIOUNLOCK_HAS_LIBSECRET Q OS name (Some old) w = (False, Some old, w'))
      else \<exists>m1 m2 m3.
        CredentialStore_write OPENBIOUNLOCK_HAS_LIBSECRET Q OS name secret (Some old) w = (False, Some (fromUtf8 Q m1), w) \<and>
        CredentialStore_read OPENBIOUNLOCK_HAS_LIBSECRET Q OS name (Some old) w = ([], Some (fromUtf8 Q m2)) \<and>
        CredentialStore_remove OPENBIOUNLOCK_HAS_LIBSECRET Q OS name (Some old) w = (False, Some (fromUtf8 Q m3), w)) \<and>
    (\<exists>m. CredentialStore_write NO_VAULT Q OS name secret (Some old) w = (False, Some m, w) \<and>
      CredentialStore_read NO_VAULT Q OS name (Some old) w = ([], Some m) \<and>
      CredentialStore_remove NO_VAULT Q OS name (Some old) w = (False, Some m, w))"
proof (cases "available w")
  case True
  note av = service_available [OF assms True, of "vaultKey Q name"]
  show ?thesis
    using av(2,3) True by (auto simp: vaultKey_def fail_def dom_def)
next
  case False
  have "\<exists>e. password_store OS (vaultKey Q name) (cString (toBase64 Q secret)) w = (False, Some e, w)"
    and "\<exists>e. password_lookup OS (vaultKey Q name) w = (None, Some e)"
    and "\<exists>e. password_clear OS (vaultKey Q name) w = (False, Some e, w)"
    using assms False unfolding service_laws_def by blast+
  then show ?thesis using False by (auto simp: vaultKey_def fail_def)
qed

theorem vault_errors_witness:
  "\<exists>m. CredentialStore_read OPENBIOUNLOCK_HAS_LIBSECRET ref_qt downMachine (qs ''a'') (Some []) emptyMachine = ([], Some m)"
  using vault_errors [OF downMachine_laws, where w = "emptyMachine" and Q = ref_qt and name = "qs ''a''"
      and old = "[]" and secret = "[]"] by auto

end
