(* ===== verification/Dashboard.thy ===== *)
theory Dashboard
  imports Lifecycle
begin

text \<open>
  The desktop window: \<open>src/ui/main_window.cpp\<close>, the Bluetooth scan of
  \<open>src/core/ble_discovery.cpp\<close> that feeds it, the pairing dialog of
  \<open>src/ui/pairing_dialog.cpp\<close> and the start-up of \<open>src/main.cpp\<close>. A widget is its
  contents: a label its text, a list widget its items, a spin box its value; layout and
  painting are left out. Signals run their slots at once, as direct connections do.
\<close>

section \<open>QString::arg\<close>

text \<open>
  A place marker is \<open>%\<close>, an optional \<open>L\<close> and a number from 1 to 99. \<open>arg\<close> with several
  strings replaces the lowest markers in one pass; with one argument, every occurrence of the
  lowest marker. \<open>pieces\<close> splits a text into its characters and markers.
\<close>

datatype piece = Plain "16 word" | Marker nat qstring

definition isDigit :: "16 word \<Rightarrow> bool" where
  "isDigit c \<longleftrightarrow> 48 \<le> c \<and> c \<le> 57"

definition markerAt :: "qstring \<Rightarrow> (nat \<times> nat) option" where
  "markerAt rest =
     (let skip = (if rest \<noteq> [] \<and> hd rest = 76 then 1 else 0);
          ds = takeWhile isDigit (take 2 (drop skip rest));
          n = foldl (\<lambda>a d. 10 * a + unat (d - 48)) 0 ds
      in if ds = [] \<or> n = 0 then None else Some (n, skip + length ds))"

function pieces :: "qstring \<Rightarrow> piece list" where
  "pieces [] = []"
| "pieces (c # rest) =
     (case if c = 37 then markerAt rest else None of
        Some (n, width) \<Rightarrow> Marker n (c # take width rest) # pieces (drop width rest)
      | None \<Rightarrow> Plain c # pieces rest)"
  by pat_completeness auto
termination
  by (relation "measure length") auto

declare pieces.simps [simp del]

fun markerNumbers :: "piece list \<Rightarrow> nat list" where
  "markerNumbers [] = []"
| "markerNumbers (Plain c # ps) = markerNumbers ps"
| "markerNumbers (Marker n raw # ps) = n # markerNumbers ps"

fun fill :: "(nat \<rightharpoonup> qstring) \<Rightarrow> piece list \<Rightarrow> qstring" where
  "fill sub [] = []"
| "fill sub (Plain c # ps) = c # fill sub ps"
| "fill sub (Marker n raw # ps) = (case sub n of Some a \<Rightarrow> a | None \<Rightarrow> raw) @ fill sub ps"

definition arg :: "qstring \<Rightarrow> qstring list \<Rightarrow> qstring" where
  "arg s args =
     (let ps = pieces s; numbers = sort (remdups (markerNumbers ps))
      in fill (map_of (zip numbers args)) ps)"

section \<open>State\<close>

text \<open>
  The window's widgets; \<open>timeText\<close> are the texts that successive readings of the local time give.
\<close>

record dashboard =
  statusLabel :: qstring
  statusBar :: qstring
  deviceList :: "(qstring \<times> qstring) list"
  logList :: "qstring list"
  nearThreshold :: int
  farThreshold :: int
  agentActive :: bool
  timeText :: "nat \<Rightarrow> qstring"
  timesRead :: nat

section \<open>The slots of MainWindow\<close>

text \<open>The loop that deletes the last item while there are more than 500.\<close>

function trimLog :: "qstring list \<Rightarrow> qstring list" where
  "trimLog items = (if 500 < length items then trimLog (butlast items) else items)"
  by pat_completeness auto
termination
  by (relation "measure length") auto

declare trimLog.simps [simp del]

definition appendLog :: "qstring \<Rightarrow> dashboard \<Rightarrow> dashboard" where
  "appendLog message d =
     (let line = arg (qs ''[%1] %2'') [timeText d (timesRead d), message];
          d = d\<lparr>timesRead := Suc (timesRead d)\<rparr>
      in d\<lparr>logList := trimLog (line # logList d)\<rparr>)"

definition setStatus :: "qstring \<Rightarrow> dashboard \<Rightarrow> dashboard" where
  "setStatus status d = d\<lparr>statusLabel := status, statusBar := status\<rparr>"

text \<open>The index of the item whose \<open>Qt::UserRole\<close> is the device, the first in the loop.\<close>

fun itemIndex :: "qstring \<Rightarrow> (qstring \<times> qstring) list \<Rightarrow> nat option" where
  "itemIndex deviceId [] = None"
| "itemIndex deviceId (item # items) =
     (if fst item = deviceId then Some 0 else map_option Suc (itemIndex deviceId items))"

definition setDevice :: "qstring \<Rightarrow> bool \<Rightarrow> dashboard \<Rightarrow> dashboard" where
  "setDevice deviceId connected d =
     (case itemIndex deviceId (deviceList d) of
        Some index \<Rightarrow>
          if \<not> connected then d\<lparr>deviceList := take index (deviceList d) @ drop (Suc index) (deviceList d)\<rparr> else d
      | None \<Rightarrow>
          if connected then d\<lparr>deviceList := deviceList d @ [(deviceId, arg (qs ''%1  |  paired'') [deviceId])]\<rparr>
          else d)"

text \<open>
  A spin box keeps its value in its range and signals a change of it; the slot of the signal
  raises the near threshold to the far one, which signals again.
\<close>

definition spinValue :: "int \<Rightarrow> int" where
  "spinValue v = (if v < - 100 then - 100 else if - 1 < v then - 1 else v)"

definition logThresholds :: "qt \<Rightarrow> dashboard \<Rightarrow> dashboard" where
  "logThresholds Q d =
     appendLog (arg (arg (qs ''proximity thresholds set to %1 / %2 dBm'') [qsNumberDec Q (nearThreshold d)])
       [qsNumberDec Q (farThreshold d)]) d"

function proximityChanged :: "qt \<Rightarrow> dashboard \<Rightarrow> dashboard" where
  "proximityChanged Q d =
     (let v = spinValue (farThreshold d)
      in if nearThreshold d < farThreshold d \<and> nearThreshold d \<noteq> v
         then logThresholds Q (proximityChanged Q (d\<lparr>nearThreshold := v\<rparr>))
         else logThresholds Q d)"
  by pat_completeness auto
termination
  by (relation "measure (\<lambda>(Q, d). if nearThreshold d = spinValue (farThreshold d) then 0 else 1)") auto

declare proximityChanged.simps [simp del]

text \<open>The user sets a threshold.\<close>

definition setNearThreshold :: "qt \<Rightarrow> int \<Rightarrow> dashboard \<Rightarrow> dashboard" where
  "setNearThreshold Q v d =
     (if spinValue v = nearThreshold d then d else proximityChanged Q (d\<lparr>nearThreshold := spinValue v\<rparr>))"

definition setFarThreshold :: "qt \<Rightarrow> int \<Rightarrow> dashboard \<Rightarrow> dashboard" where
  "setFarThreshold Q v d =
     (if spinValue v = farThreshold d then d else proximityChanged Q (d\<lparr>farThreshold := spinValue v\<rparr>))"

text \<open>The lambda connected to \<open>BleDiscovery::deviceFound\<close>.\<close>

definition deviceFound :: "qt \<Rightarrow> qstring \<Rightarrow> qstring \<Rightarrow> int \<Rightarrow> dashboard \<Rightarrow> dashboard" where
  "deviceFound Q identifier deviceName signalStrength d =
     (let d = appendLog (arg (arg (qs ''BLE device %1 (%2) at %3 dBm'') [deviceName, identifier])
            [qsNumberDec Q signalStrength]) d
      in setDevice identifier (nearThreshold d \<le> signalStrength) d)"

section \<open>BleDiscovery\<close>

record ble_device =
  lowEnergy :: bool
  deviceUuid :: qstring
  bleName :: qstring
  rssi :: int

definition ble_start :: "dashboard \<Rightarrow> dashboard" where
  "ble_start d = (if \<not> agentActive d then d\<lparr>agentActive := True\<rparr> else d)"

definition ble_stop :: "dashboard \<Rightarrow> dashboard" where
  "ble_stop d = (if agentActive d then d\<lparr>agentActive := False\<rparr> else d)"

text \<open>The signals, and the slots of the agent's signals with the signals each emits.\<close>

datatype ble_signal =
    DeviceFound qstring qstring int
  | DiscoveryError qstring

definition discovered :: "ble_device \<Rightarrow> ble_signal list" where
  "discovered device =
     (if lowEnergy device then [DeviceFound (deviceUuid device) (bleName device) (rssi device)] else [])"

definition finished :: "ble_signal list" where
  "finished = []"

definition discoveryError :: "qt \<Rightarrow> int \<Rightarrow> qstring \<Rightarrow> ble_signal list" where
  "discoveryError Q code errorString =
     [DiscoveryError (if errorString = [] then arg (qs ''Bluetooth discovery failed: %1'') [qsNumberDec Q code]
       else errorString)]"

text \<open>The window's connections to these signals.\<close>

fun handleBle :: "qt \<Rightarrow> ble_signal \<Rightarrow> dashboard \<Rightarrow> dashboard" where
  "handleBle Q (DeviceFound identifier deviceName signalStrength) d = deviceFound Q identifier deviceName signalStrength d"
| "handleBle Q (DiscoveryError message) d = appendLog message d"

section \<open>Construction and the signals of the server\<close>

definition newMainWindow :: "(nat \<Rightarrow> qstring) \<Rightarrow> dashboard" where
  "newMainWindow clockTexts =
     ble_start \<lparr>statusLabel = qs ''Starting'', statusBar = qs ''Initializing server'', deviceList = [],
       logList = [], nearThreshold = - 70, farThreshold = - 82, agentActive = False,
       timeText = clockTexts, timesRead = 0\<rparr>"

fun handleSignal :: "event \<Rightarrow> dashboard \<Rightarrow> dashboard" where
  "handleSignal (LogMessage message) d = appendLog message d"
| "handleSignal (StatusChanged status) d = setStatus status d"
| "handleSignal (DeviceChanged deviceId connected) d = setDevice deviceId connected d"
| "handleSignal _ d = d"

text \<open>
  Everything that reaches the window. \<open>agentActive\<close> is \<open>isActive()\<close> of the scanning agent of Qt, which
  has stopped when it signals that it finished, was canceled or failed.
\<close>

datatype ui_event =
    Signal event
  | NearSpin int
  | FarSpin int
  | BleDiscovered ble_device
  | BleFinished
  | BleError int qstring

fun handle_ui :: "qt \<Rightarrow> ui_event \<Rightarrow> dashboard \<Rightarrow> dashboard" where
  "handle_ui Q (Signal ev) d = handleSignal ev d"
| "handle_ui Q (NearSpin v) d = setNearThreshold Q v d"
| "handle_ui Q (FarSpin v) d = setFarThreshold Q v d"
| "handle_ui Q (BleDiscovered device) d = fold (handleBle Q) (discovered device) d"
| "handle_ui Q BleFinished d = fold (handleBle Q) finished (d\<lparr>agentActive := False\<rparr>)"
| "handle_ui Q (BleError code errorString) d =
     fold (handleBle Q) (discoveryError Q code errorString) (d\<lparr>agentActive := False\<rparr>)"

section \<open>The pairing dialog\<close>

text \<open>
  A QR code is its size and its dark modules. The image has a border of four light modules; a
  pixel is given by its column and row, and is black or white.
\<close>

record qr_code =
  getSize :: nat
  getModule :: "nat \<Rightarrow> nat \<Rightarrow> bool"

definition renderRow :: "qr_code \<Rightarrow> nat \<Rightarrow> (nat \<times> nat) set \<Rightarrow> (nat \<times> nat) set" where
  "renderRow code y = fold (\<lambda>x painted. if getModule code x y then insert (x + 4, y + 4) painted else painted)
     [0..<getSize code]"

text \<open>The side of the image and its black pixels.\<close>

definition renderCode :: "qr_code \<Rightarrow> nat \<times> (nat \<times> nat) set" where
  "renderCode code = (getSize code + 4 * 2, fold (renderRow code) [0..<getSize code] {})"

text \<open>
  \<open>encodeText\<close> is the QR encoder. The result is the text shown in the line (which \<open>Copy payload\<close>
  puts on the clipboard) and the picture.
\<close>

definition PairingDialog :: "qt \<Rightarrow> (bytes \<Rightarrow> qr_code) \<Rightarrow> bytes \<Rightarrow> qstring \<times> (nat \<times> (nat \<times> nat) set)" where
  "PairingDialog Q encodeText payloadBytes =
     (let payload = fromUtf8 Q payloadBytes
      in (payload, renderCode (encodeText (takeWhile (\<lambda>b. b \<noteq> 0) (toUtf8 Q payload)))))"

text \<open>
  The buttons of the dialog: whether it is open and the text on the clipboard, if the platform has
  one.
\<close>

datatype dialog_button = CopyPayload | CloseDialog

fun dialogButton :: "dialog_button \<Rightarrow> qstring \<Rightarrow> bool \<times> qstring option \<Rightarrow> bool \<times> qstring option" where
  "dialogButton CopyPayload payload (opened, clipboard) = (opened, map_option (\<lambda>_. payload) clipboard)"
| "dialogButton CloseDialog payload (opened, clipboard) = (False, clipboard)"

definition showPairing ::
  "qt \<Rightarrow> (bytes \<Rightarrow> qr_code) \<Rightarrow> host_address list \<Rightarrow> server \<Rightarrow> env \<Rightarrow>
   (qstring \<times> (nat \<times> (nat \<times> nat) set)) \<times> server \<times> env" where
  "showPairing Q encodeText addresses s e =
     (let (payload, s, e) = pairingPayload Q [] addresses s e in (PairingDialog Q encodeText payload, s, e))"

section \<open>main\<close>

text \<open>
  The server is started before the window exists, so the signals of \<open>start\<close> reach no slot. The
  result is the exit code 1, or the server and the window with which the event loop begins.
\<close>

definition startApplication ::
  "qt \<Rightarrow> openssl \<Rightarrow> qstring option \<Rightarrow> qstring option \<Rightarrow> (nat \<Rightarrow> qstring) \<Rightarrow> env \<Rightarrow> int + server \<times> env \<times> dashboard" where
  "startApplication Q L listenError bindError clockTexts e =
     (let (s, e) = newServer Q L e;
          (ok, s, e) = start Q 43295 listenError bindError s e
      in if \<not> ok then Inl 1 else Inr (s, e, newMainWindow clockTexts))"

text \<open>The signals a slot of the server has emitted, as the window receives them.\<close>

definition deliver :: "server \<Rightarrow> server \<Rightarrow> dashboard \<Rightarrow> dashboard" where
  "deliver s s' = fold handleSignal (drop (length (outbox s)) (outbox s'))"

text \<open>The event loop: a slot of the server runs, or something happens in the window.\<close>

inductive slot_step :: "qt \<Rightarrow> openssl \<Rightarrow> server \<times> env \<Rightarrow> server \<times> env \<Rightarrow> bool" for Q L where
  connected: "slot_step Q L (s, e) (acceptConnections pending s, e)"
| received: "slot_step Q L (s, e) (readClient Q L sender bytes s e)"
| disconnected: "slot_step Q L (s, e) (clientDisconnected sender s, e)"
| datagrams: "slot_step Q L (s, e) (readDatagrams Q pending_datagrams s, e)"
| timeout: "slot_step Q L (s, e) (broadcastDiscovery Q s, e)"
| pairing: "showPairing Q encodeText addresses s e = (shown, s', e') \<Longrightarrow> slot_step Q L (s, e) (s', e')"
| elsewhere: "slot_step Q L (s, e) (s, e\<lparr>ticks := ticks e + n, draws := draws e + m\<rparr>)"

inductive application :: "qt \<Rightarrow> openssl \<Rightarrow> server \<times> env \<times> dashboard \<Rightarrow> bool" for Q L where
  launched: "startApplication Q L listenError bindError clockTexts e0 = Inr st \<Longrightarrow> application Q L st"
| serve: "application Q L (s, e, d) \<Longrightarrow> slot_step Q L (s, e) (s', e') \<Longrightarrow> application Q L (s', e', deliver s s' d)"
| window: "application Q L (s, e, d) \<Longrightarrow> (\<And>signal. ev \<noteq> Signal signal) \<Longrightarrow> application Q L (s, e, handle_ui Q ev d)"

end
