(* ===== verification/Window.thy ===== *)
theory Window
  imports Dashboard
begin

text \<open>
  What the desktop window shows: the bounded log, the device list as a set, the thresholds, the
  pairing picture and the status line.
\<close>

section \<open>Text with markers\<close>

lemma pieces_Nil [simp]: "pieces [] = []"
  by (simp add: pieces.simps)

lemma pieces_plain [simp]: "c \<noteq> 37 \<Longrightarrow> pieces (c # rest) = Plain c # pieces rest"
  by (simp add: pieces.simps)

lemma pieces_append: "37 \<notin> set xs \<Longrightarrow> pieces (xs @ ys) = map Plain xs @ pieces ys"
  by (induction xs) simp_all

lemma numbers_append [simp]: "markerNumbers (ps @ ps') = markerNumbers ps @ markerNumbers ps'"
  by (induction ps rule: markerNumbers.induct) simp_all

lemma numbers_plain [simp]: "markerNumbers (map Plain xs) = []"
  by (induction xs) simp_all

lemma fill_append [simp]: "fill sub (ps @ ps') = fill sub ps @ fill sub ps'"
  by (induction ps rule: markerNumbers.induct) simp_all

lemma fill_plain [simp]: "fill sub (map Plain xs) = xs"
  by (induction xs) simp_all

lemma arg_no_marker: "37 \<notin> set xs \<Longrightarrow> arg xs args = xs"
  using pieces_append [of xs "[]"] by (simp add: arg_def)

section \<open>The log\<close>

lemma trimLog_eq: "trimLog items = take 500 items"
proof (induction items rule: trimLog.induct)
  case (1 items)
  show ?case
  proof (cases "500 < length items")
    case True
    then have "take 500 (butlast items) = take 500 items" by (simp add: take_butlast)
    with 1 True show ?thesis by (simp add: trimLog.simps [of items])
  next
    case False
    then show ?thesis by (simp add: trimLog.simps [of items])
  qed
qed

definition stamped :: "(nat \<Rightarrow> qstring) \<Rightarrow> nat \<Rightarrow> qstring \<Rightarrow> qstring" where
  "stamped clockTexts i message = arg (qs ''[%1] %2'') [clockTexts i, message]"

lemma appendLog_eq:
  "appendLog message d = d\<lparr>timesRead := Suc (timesRead d),
     logList := take 500 (stamped (timeText d) (timesRead d) message # logList d)\<rparr>"
  by (simp add: appendLog_def trimLog_eq stamped_def Let_def)

lemma appendLog_simps [simp]:
  "statusLabel (appendLog m d) = statusLabel d" "statusBar (appendLog m d) = statusBar d"
  "deviceList (appendLog m d) = deviceList d" "nearThreshold (appendLog m d) = nearThreshold d"
  "farThreshold (appendLog m d) = farThreshold d" "agentActive (appendLog m d) = agentActive d"
  "timeText (appendLog m d) = timeText d" "timesRead (appendLog m d) = Suc (timesRead d)"
  by (simp_all add: appendLog_eq)

lemma appendLogs:
  "length (logList d) \<le> 500 \<Longrightarrow> logList (fold appendLog ms d) =
     take 500 (rev (map (\<lambda>(i, m). stamped (timeText d) (timesRead d + i) m) (enumerate 0 ms)) @ logList d)"
proof (induction ms rule: rev_induct)
  case (snoc m ms)
  have "timesRead (fold appendLog ms d) = timesRead d + length ms \<and> timeText (fold appendLog ms d) = timeText d"
    by (induction ms arbitrary: d) simp_all
  with snoc show ?case by (simp add: appendLog_eq [of m] enumerate_append_eq min_def)
qed simp

section \<open>The device list\<close>

lemma itemIndex_None: "itemIndex i items = None \<longleftrightarrow> i \<notin> fst ` set items"
  by (induction items) auto

lemma itemIndex_Some:
  "itemIndex i items = Some n \<Longrightarrow> n < length items \<and> fst (items ! n) = i"
  by (induction items arbitrary: n) (auto split: if_splits)

lemma without_item:
  assumes "distinct (map fst items)" and "itemIndex i items = Some n"
  shows "distinct (map fst (take n items @ drop (Suc n) items)) \<and>
    fst ` set (take n items @ drop (Suc n) items) = fst ` set items - {i}"
proof -
  have n: "n < length items" "fst (items ! n) = i" using itemIndex_Some [OF assms(2)] by simp_all
  then have split: "items = take n items @ items ! n # drop (Suc n) items" by (simp add: id_take_nth_drop)
  then have "distinct (map fst (take n items @ items ! n # drop (Suc n) items))" using assms(1) by simp
  then have "distinct (map fst (take n items @ drop (Suc n) items))" and
      "i \<notin> fst ` set (take n items @ drop (Suc n) items)" using n(2) by auto
  moreover have "fst ` set items = fst ` set (take n items @ items ! n # drop (Suc n) items)"
    using split by simp
  ultimately show ?thesis using n(2) by auto
qed

lemma setDevice_list:
  assumes "distinct (map fst (deviceList d))"
  shows "distinct (map fst (deviceList (setDevice i c d))) \<and>
    fst ` set (deviceList (setDevice i c d)) =
      (if c then insert i (fst ` set (deviceList d)) else fst ` set (deviceList d) - {i})"
proof (cases "itemIndex i (deviceList d)")
  case None
  then have "i \<notin> fst ` set (deviceList d)" by (simp add: itemIndex_None)
  then show ?thesis using assms by (auto simp: setDevice_def None)
next
  case (Some n)
  have "i \<in> fst ` set (deviceList d)" using Some itemIndex_None [of i "deviceList d"] by auto
  then show ?thesis using without_item [OF assms Some] assms by (auto simp: setDevice_def Some)
qed

lemma setDevice_simps [simp]:
  "statusLabel (setDevice i c d) = statusLabel d" "statusBar (setDevice i c d) = statusBar d"
  "logList (setDevice i c d) = logList d" "nearThreshold (setDevice i c d) = nearThreshold d"
  "farThreshold (setDevice i c d) = farThreshold d" "agentActive (setDevice i c d) = agentActive d"
  "timeText (setDevice i c d) = timeText d" "timesRead (setDevice i c d) = timesRead d"
  by (simp_all add: setDevice_def split: option.split)

section \<open>The thresholds\<close>

lemma spinValue_range: "- 100 \<le> spinValue v \<and> spinValue v \<le> - 1"
  by (simp add: spinValue_def)

lemma spinValue_id: "- 100 \<le> v \<Longrightarrow> v \<le> - 1 \<Longrightarrow> spinValue v = v"
  by (simp add: spinValue_def)

lemma logThresholds_simps [simp]:
  "statusLabel (logThresholds Q d) = statusLabel d" "statusBar (logThresholds Q d) = statusBar d"
  "deviceList (logThresholds Q d) = deviceList d" "nearThreshold (logThresholds Q d) = nearThreshold d"
  "farThreshold (logThresholds Q d) = farThreshold d" "agentActive (logThresholds Q d) = agentActive d"
  by (simp_all add: logThresholds_def)

lemma length_log: "length (logList (appendLog m d)) \<le> 500"
  by (simp add: appendLog_eq)

lemma proximityChanged_eq:
  assumes "- 100 \<le> farThreshold d" and "farThreshold d \<le> - 1"
  shows "proximityChanged Q d =
    (if nearThreshold d < farThreshold d
     then logThresholds Q (logThresholds Q (d\<lparr>nearThreshold := farThreshold d\<rparr>)) else logThresholds Q d)"
  using assms
  by (simp add: proximityChanged.simps [of Q d] proximityChanged.simps [of Q "d\<lparr>nearThreshold := farThreshold d\<rparr>"]
      spinValue_id)

section \<open>The invariant of the window\<close>

definition window_ok :: "dashboard \<Rightarrow> bool" where
  "window_ok d \<longleftrightarrow> length (logList d) \<le> 500 \<and> distinct (map fst (deviceList d)) \<and>
     - 100 \<le> farThreshold d \<and> farThreshold d \<le> nearThreshold d \<and> nearThreshold d \<le> - 1"

lemma window_ok_append: "window_ok d \<Longrightarrow> window_ok (appendLog m d)"
  using length_log [of m d] by (simp add: window_ok_def)

lemma window_ok_device: "window_ok d \<Longrightarrow> window_ok (setDevice i c d)"
  using setDevice_list [of d i c] by (simp add: window_ok_def)

lemma window_ok_proximity:
  assumes "length (logList d) \<le> 500 \<and> distinct (map fst (deviceList d))"
    and "- 100 \<le> farThreshold d" "farThreshold d \<le> - 1" "- 100 \<le> nearThreshold d" "nearThreshold d \<le> - 1"
  shows "window_ok (proximityChanged Q d)"
proof -
  have "length (logList (logThresholds Q x)) \<le> 500" for x by (simp add: logThresholds_def length_log)
  then show ?thesis using assms by (simp add: proximityChanged_eq window_ok_def)
qed

lemma window_ok_agent: "window_ok d \<Longrightarrow> window_ok (d\<lparr>agentActive := b\<rparr>)"
  by (simp add: window_ok_def)

lemma window_ok_signal: "window_ok d \<Longrightarrow> window_ok (handleSignal ev d)"
  by (cases ev) (simp_all add: window_ok_append window_ok_device, simp add: setStatus_def window_ok_def)

lemma window_ok_ui:
  assumes "window_ok d"
  shows "window_ok (handle_ui Q ev d)"
proof (cases ev)
  case (NearSpin v)
  have "window_ok (proximityChanged Q (d\<lparr>nearThreshold := spinValue v\<rparr>))"
    by (rule window_ok_proximity) (use assms spinValue_range [of v] in \<open>auto simp: window_ok_def\<close>)
  then show ?thesis using assms by (simp add: NearSpin setNearThreshold_def)
next
  case (FarSpin v)
  have "window_ok (proximityChanged Q (d\<lparr>farThreshold := spinValue v\<rparr>))"
    by (rule window_ok_proximity) (use assms spinValue_range [of v] in \<open>auto simp: window_ok_def\<close>)
  then show ?thesis using assms by (simp add: FarSpin setFarThreshold_def)
next
  case (BleDiscovered b)
  then show ?thesis
    using assms by (simp add: discovered_def deviceFound_def Let_def window_ok_append window_ok_device)
next
  case (BleError code t)
  then show ?thesis using assms by (simp add: discoveryError_def window_ok_append window_ok_agent)
qed (use assms in \<open>simp_all add: window_ok_signal finished_def window_ok_agent\<close>)

lemma window_ok_new: "window_ok (newMainWindow clockTexts)"
  by (simp add: window_ok_def newMainWindow_def ble_start_def)

lemma window_ok_run: "window_ok d \<Longrightarrow> window_ok (fold (handle_ui Q) events d)"
  by (induction events arbitrary: d) (simp_all add: window_ok_ui)

text \<open>The scan ends with one of two events, and nothing starts it again.\<close>

lemma agent_signal: "agentActive (handleSignal ev d) = agentActive d"
  by (cases ev) (simp_all add: setStatus_def)

lemma agent_ui:
  assumes "window_ok d"
  shows "agentActive (handle_ui Q ev d) \<longleftrightarrow>
     agentActive d \<and> ev \<noteq> BleFinished \<and> (\<forall>code errorString. ev \<noteq> BleError code errorString)"
  using assms
  by (cases ev) (auto simp: window_ok_def setNearThreshold_def setFarThreshold_def proximityChanged_eq agent_signal
      discovered_def deviceFound_def finished_def discoveryError_def Let_def spinValue_range)

lemma agent_run:
  "window_ok d \<Longrightarrow> agentActive (fold (handle_ui Q) events d) \<longleftrightarrow>
     agentActive d \<and> BleFinished \<notin> set events \<and> (\<forall>code errorString. BleError code errorString \<notin> set events)"
  by (induction events arbitrary: d) (auto simp: window_ok_ui agent_ui)

section \<open>What the server reports while it serves\<close>

text \<open>
  The signals of every slot but \<open>start\<close> and \<open>stop\<close>: no change of the status and no device that is
  gone.
\<close>

fun calm :: "event \<Rightarrow> bool" where
  "calm (StatusChanged status) = False"
| "calm (DeviceChanged deviceId connected) = connected"
| "calm _ = True"

definition serves :: "server \<Rightarrow> server \<Rightarrow> bool" where
  "serves s s' \<longleftrightarrow> listening s' = listening s \<and>
     (\<exists>evs. outbox s' = outbox s @ evs \<and> (\<forall>ev \<in> set evs. calm ev))"

lemma serves_refl: "serves s s"
  by (simp add: serves_def)

lemma serves_trans: "serves s s' \<Longrightarrow> serves s' s'' \<Longrightarrow> serves s s''"
  unfolding serves_def by (metis append_assoc Un_iff set_append)

lemma servesI: "listening s' = listening s \<Longrightarrow> outbox s' = outbox s @ evs \<Longrightarrow> (\<And>ev. ev \<in> set evs \<Longrightarrow> calm ev) \<Longrightarrow> serves s s'"
  by (auto simp: serves_def)

lemma serves_emit: "calm ev \<Longrightarrow> serves s s' \<Longrightarrow> serves s (emit ev s')"
  by (rule serves_trans, assumption, rule servesI [where evs = "[ev]"]) simp_all

lemma serves_same: "serves s s' \<Longrightarrow> listening s'' = listening s' \<Longrightarrow> outbox s'' = outbox s' \<Longrightarrow> serves s s''"
  by (simp add: serves_def)

lemma pairResponse_serves: "serves s (fst (snd (pairResponse Q L request s e)))"
  by (simp add: pairResponse_def Let_def serves_def split: prod.split)

lemma authorize_serves: "serves s (fst (snd (snd (authorize Q L d n t sg s e))))"
  by (auto simp: authorize_def Let_def serves_refl split: prod.split intro!: serves_same [OF serves_refl])

lemma verifyResponse_serves: "serves s (fst (snd (verifyResponse Q L d p s e)))"
proof -
  obtain ok err s' e' where a: "authorize Q L d (unhexText Q (toString (jvalue p ''nonce'')))
      (toLongLong Q (jvalue p ''timestamp'')) (unhexText Q (toString (jvalue p ''signature''))) s e = (ok, err, s', e')"
    by (metis prod_cases4)
  then have "serves s s'" using authorize_serves [of s Q L d] by (metis fst_conv snd_conv)
  then show ?thesis by (auto simp: verifyResponse_def a Let_def split: prod.split intro!: serves_emit)
qed

lemma respond_serves: "serves s (fst (snd (respond Q L request s e)))"
  using pairResponse_serves [of s Q L request e] verifyResponse_serves [of s Q L]
  by (simp add: respond_def Let_def serves_refl split: prod.split sum.split)

lemma processLine_serves: "serves s (fst (processLine Q L k line s e))"
  using respond_serves [of s Q L _ e]
  by (auto simp: processLine_def writeLine_def serves_refl split: prod.split option.split json.split
      intro!: serves_emit) (metis fst_conv snd_conv)

lemma readClient_serves: "serves s (fst (readClient Q L sender bytes s e))"
proof (cases sender)
  case (Some k)
  have "serves (fst st) (fst (fold (handleLine Q L k) lines st))" for lines st
  proof (induction lines arbitrary: st)
    case (Cons line lines)
    have "serves (fst st) (fst (handleLine Q L k line st))" using processLine_serves by simp
    from serves_trans [OF this Cons [of "handleLine Q L k line st"]] show ?case by simp
  qed (simp add: serves_refl)
  from this [of "(setBuffer k (bufferOf s k @ bytes) s, e)" "requests (bufferOf s k @ bytes)"]
  have "serves s (fst (fold (handleLine Q L k) (requests (bufferOf s k @ bytes))
      (setBuffer k (bufferOf s k @ bytes) s, e)))"
    by (simp add: serves_def setBuffer_def)
  then show ?thesis
    by (rule serves_same) (simp_all add: Some readClient_eq Let_def setBuffer_def)
qed (simp add: readClient_def serves_refl)

lemma acceptConnections_serves: "serves s (acceptConnections pending s)"
proof (induction pending s rule: acceptConnections.induct)
  case (2 socket peer pending s)
  have "serves s (emit (LogMessage (qs ''client connected from '' @ peer)) (s\<lparr>buffers := (buffers s)(socket \<mapsto> [])\<rparr>))"
    by (intro serves_emit serves_same [OF serves_refl]) simp_all
  from serves_trans [OF this 2] show ?case by simp
qed (simp add: serves_refl)

lemma clientDisconnected_serves: "serves s (clientDisconnected sender s)"
  by (simp add: clientDisconnected_def serves_def split: option.split)

lemma broadcastDiscovery_serves: "serves s (broadcastDiscovery Q s)"
  by (simp add: broadcastDiscovery_def serves_emit serves_refl)

lemma readDatagrams_serves: "serves s (readDatagrams Q pending s)"
proof (induction Q pending s rule: readDatagrams.induct)
  case (2 Q datagram pending s)
  have "serves s (if asksForDiscovery Q datagram then broadcastDiscovery Q s else s)"
    by (simp add: broadcastDiscovery_serves serves_refl)
  from serves_trans [OF this 2] show ?case by simp
qed (simp add: serves_refl)

lemma showPairing_serves:
  assumes "showPairing Q encodeText addresses s e = (shown, s', e')"
  shows "serves s s'"
proof -
  obtain code created where "fst (refreshCode Q s e) = s\<lparr>pairingCode := code, pairingCreatedAt := created\<rparr>"
    using refreshCode_state by blast
  then have "s' = s\<lparr>pairingCode := code, pairingCreatedAt := created\<rparr>"
    using assms by (auto simp: showPairing_def pairingPayload_def Let_def split: prod.splits)
  then show ?thesis by (auto intro: serves_same [OF serves_refl])
qed

lemma slot_serves: "slot_step Q L (s, e) (s', e') \<Longrightarrow> serves s s'"
proof (erule slot_step.cases, goal_cases)
  case (2 s0 e0 sender bytes)
  then have "s' = fst (readClient Q L sender bytes s e)" by (simp add: prod_eq_iff)
  then show ?case by (simp add: readClient_serves)
qed (auto simp: acceptConnections_serves clientDisconnected_serves readDatagrams_serves broadcastDiscovery_serves
      serves_refl showPairing_serves)

section \<open>The application\<close>

lemma handle_calm:
  "\<forall>ev \<in> set evs. calm ev \<Longrightarrow> statusLabel (fold handleSignal evs d) = statusLabel d \<and>
     statusBar (fold handleSignal evs d) = statusBar d"
proof (induction evs arbitrary: d)
  case (Cons ev evs)
  have "statusLabel (handleSignal ev d) = statusLabel d \<and> statusBar (handleSignal ev d) = statusBar d"
    using Cons.prems by (cases ev) simp_all
  with Cons show ?case by simp
qed simp

lemma ui_status:
  assumes "\<And>signal. ev \<noteq> Signal signal" and "window_ok d"
  shows "statusLabel (handle_ui Q ev d) = statusLabel d \<and> statusBar (handle_ui Q ev d) = statusBar d"
  using assms
  by (cases ev) (auto simp: window_ok_def setNearThreshold_def setFarThreshold_def proximityChanged_eq discovered_def
      deviceFound_def finished_def discoveryError_def Let_def spinValue_range)

lemma signals_ok: "window_ok d \<Longrightarrow> window_ok (fold handleSignal evs d)"
  by (induction evs arbitrary: d) (simp_all add: window_ok_signal)

lemma launched_state:
  "startApplication Q L listenError bindError clockTexts e0 = Inr (s, e, d) \<Longrightarrow>
   listening s \<and> d = newMainWindow clockTexts"
  by (auto simp: startApplication_def start_def broadcastDiscovery_def Let_def
      split: prod.splits if_splits option.splits)

lemma application_status:
  "application Q L st \<Longrightarrow> listening (fst st) \<and> window_ok (snd (snd st)) \<and>
     statusLabel (snd (snd st)) = qs ''Starting'' \<and> statusBar (snd (snd st)) = qs ''Initializing server''"
proof (induction rule: application.induct)
  case (launched listenError bindError clockTexts e0 st)
  obtain s e d where st: "st = (s, e, d)" by (metis prod_cases3)
  from launched_state [OF launched [unfolded st]] show ?case
    by (simp add: st window_ok_new) (simp add: newMainWindow_def ble_start_def)
next
  case (serve s e d s' e')
  from slot_serves [OF serve(2)] obtain evs where evs: "listening s' = listening s" "outbox s' = outbox s @ evs"
      "\<forall>ev \<in> set evs. calm ev" by (auto simp: serves_def)
  then show ?case using serve.IH handle_calm [OF evs(3), of d] signals_ok [of d evs] by (simp add: deliver_def)
next
  case (window s e d ev)
  then show ?case using ui_status [of ev d Q] window_ok_ui [of d Q ev] by simp
qed

section \<open>Properties\<close>

text \<open>C27: the window is well-formed after any signals, scans and user input: at most 500 log lines, no
  device twice, both thresholds in their range and the far one not above the near one. The Bluetooth
  scan that the constructor starts runs until it first finishes, is canceled or fails, and never
  again: nothing in the window restarts it.\<close>

theorem window_invariant:
  "let d = fold (handle_ui Q) events (newMainWindow clockTexts)
   in length (logList d) \<le> 500 \<and> distinct (map fst (deviceList d)) \<and>
      - 100 \<le> farThreshold d \<and> farThreshold d \<le> nearThreshold d \<and> nearThreshold d \<le> - 1 \<and>
      agentActive d = (BleFinished \<notin> set events \<and> (\<forall>code errorString. BleError code errorString \<notin> set events))"
proof -
  have "agentActive (newMainWindow clockTexts)" by (simp add: newMainWindow_def ble_start_def)
  then show ?thesis
    using window_ok_run [OF window_ok_new, of Q events clockTexts] agent_run [OF window_ok_new, of Q events clockTexts]
    by (simp add: window_ok_def Let_def)
qed

text \<open>The log shows the 500 newest messages, the newest first, each with the local time at which it
  came, whatever characters the messages hold.\<close>

theorem log_shows_newest:
  "logList (fold appendLog messages (newMainWindow clockTexts)) =
     take 500 (rev (map (\<lambda>(i, message). qs ''['' @ clockTexts i @ qs ''] '' @ message) (enumerate 0 messages)))"
proof -
  have "stamped clockTexts i message = qs ''['' @ clockTexts i @ qs ''] '' @ message" for i message
    by (simp add: stamped_def arg_def qs_def pieces.simps markerAt_def isDigit_def Let_def)
  then show ?thesis
    using appendLogs [of "newMainWindow clockTexts" messages] by (simp add: newMainWindow_def ble_start_def)
qed

text \<open>After any reports the list shows, each once, exactly the devices whose last report was
  \<open>connected\<close>.\<close>

theorem device_list_shows_last_reports:
  "let d = fold (\<lambda>(deviceId, connected). setDevice deviceId connected) reports (newMainWindow clockTexts)
   in distinct (map fst (deviceList d)) \<and>
      fst ` set (deviceList d) = {deviceId. map_of (rev reports) deviceId = Some True}"
proof (induction reports rule: rev_induct)
  case Nil
  show ?case by (simp add: newMainWindow_def ble_start_def)
next
  case (snoc report reports)
  obtain i c where "report = (i, c)" by fastforce
  then show ?case
    using snoc setDevice_list [of "fold (\<lambda>(deviceId, connected). setDevice deviceId connected) reports
        (newMainWindow clockTexts)" i c] by (auto simp: Let_def split: if_splits)
qed

text \<open>C28: the window never learns that the server runs. \<open>main\<close> starts the server before it builds the
  window, so the report of \<open>start\<close> is lost; no slot reports a status again, and for the whole
  life of the application the window shows \<open>Starting\<close> while the server listens.\<close>

theorem status_stays_starting:
  assumes "application Q L (s, e, d)"
  shows "listening s \<and> statusLabel d = qs ''Starting'' \<and> statusBar d = qs ''Initializing server''"
  using application_status [OF assms] by simp

theorem status_stays_starting_witness:
  "\<exists>s e d. startApplication ref_qt ref_ssl None None (\<lambda>_. []) quietEnv = Inr (s, e, d) \<and> listening s \<and>
     statusLabel d = qs ''Starting''"
proof -
  have "length (publicKey (x25519KeyPair (fst (newServer ref_qt ref_ssl quietEnv)))) = 32"
    using reachable_inv [OF desk_reachable] desk_facts(1) by (simp add: server_inv_def sockets_inv_def desk_def)
  then have "\<exists>s e d. startApplication ref_qt ref_ssl None None (\<lambda>_. []) quietEnv = Inr (s, e, d)"
    by (auto simp: startApplication_def start_def Let_def newServer_def split: prod.split)
  then obtain s e d where st: "startApplication ref_qt ref_ssl None None (\<lambda>_. []) quietEnv = Inr (s, e, d)" by blast
  from status_stays_starting [OF application.launched [OF st]] st show ?thesis by blast
qed

text \<open>
  The log line of a scanned device. The name is put in before the signal strength, so a place
  marker in the name, which anyone in radio range chooses, takes the place of the last one.
\<close>

lemma ble_line_first:
  "arg (qs ''BLE device %1 (%2) at %3 dBm'') [deviceName, identifier] =
     qs ''BLE device '' @ deviceName @ qs '' ('' @ identifier @ qs '') at %3 dBm''"
  by (simp add: arg_def qs_def pieces.simps(2) [of "37"] markerAt_def isDigit_def Let_def)

lemma ble_name_in_log:
  assumes "37 \<notin> set deviceName" and "37 \<notin> set identifier"
  shows "arg (arg (qs ''BLE device %1 (%2) at %3 dBm'') [deviceName, identifier]) [number] =
      qs ''BLE device '' @ deviceName @ qs '' ('' @ identifier @ qs '') at '' @ number @ qs '' dBm''"
  unfolding ble_line_first using assms
  by (simp add: arg_def qs_def pieces_append pieces.simps(2) [of "37"] markerAt_def isDigit_def Let_def)

lemma ble_name_with_marker:
  assumes "37 \<notin> set identifier"
  shows "arg (arg (qs ''BLE device %1 (%2) at %3 dBm'') [qs ''%1'', identifier]) [number] =
      qs ''BLE device '' @ number @ qs '' ('' @ identifier @ qs '') at %3 dBm''"
  unfolding ble_line_first using assms
  by (simp add: arg_def qs_def pieces_append pieces.simps(2) [of "37"] markerAt_def isDigit_def Let_def)

section \<open>The pairing picture\<close>

lemma renderRow_eq:
  "renderRow code y painted = painted \<union> {(x + 4, y + 4) | x. x < getSize code \<and> getModule code x y}"
proof -
  have "fold (\<lambda>x painted. if getModule code x y then insert (x + 4, y + 4) painted else painted) [0..<n] painted =
      painted \<union> {(x + 4, y + 4) | x. x < n \<and> getModule code x y}" for n
    by (induction n) (auto simp: less_Suc_eq)
  then show ?thesis by (simp add: renderRow_def)
qed

text \<open>The picture is the QR code inside a light border of four modules.\<close>

lemma renderCode_faithful:
  "fst (renderCode code) = getSize code + 8 \<and>
   snd (renderCode code) = {(x + 4, y + 4) | x y. x < getSize code \<and> y < getSize code \<and> getModule code x y}"
proof -
  have "fold (renderRow code) [0..<n] {} = {(x + 4, y + 4) | x y. x < getSize code \<and> y < n \<and> getModule code x y}" for n
    by (induction n) (auto simp: renderRow_eq less_Suc_eq)
  then show ?thesis by (simp add: renderCode_def)
qed

end
