(* ===== verification/Program.thy ===== *)
theory Program
  imports Window
begin

text \<open>
  The whole desktop program, \<open>src/main.cpp\<close>: a run from the start of the server to the exit code,
  with the window, its close button and the tray menu.
\<close>

section \<open>Runs of the program\<close>

text \<open>
  While the event loop runs, the window is visible or not; when \<open>main\<close> has returned, only its exit
  code and the last state of the server are left.
\<close>

datatype session =
    Running server env dashboard bool
  | Exited int server

text \<open>
  A start that fails ends the program. The close button hides the window, and because of
  \<open>setQuitOnLastWindowClosed(false)\<close> nothing more; \<open>Open dashboard\<close> shows it. \<open>Quit\<close> ends the event
  loop; its signal \<open>aboutToQuit\<close> runs \<open>Server::stop\<close> with the connections that are open.
\<close>

inductive program :: "qt \<Rightarrow> openssl \<Rightarrow> session \<Rightarrow> bool" for Q L where
  refused: "startApplication Q L listenError bindError clockTexts e0 = Inl code \<Longrightarrow>
    newServer Q L e0 = (s0, e1) \<Longrightarrow> start Q 43295 listenError bindError s0 e1 = (ok, s, e) \<Longrightarrow>
    program Q L (Exited code s)"
| launched: "startApplication Q L listenError bindError clockTexts e0 = Inr (s, e, d) \<Longrightarrow>
    program Q L (Running s e d True)"
| slot: "program Q L (Running s e d visible) \<Longrightarrow> slot_step Q L (s, e) (s', e') \<Longrightarrow>
    program Q L (Running s' e' (deliver s s' d) visible)"
| user: "program Q L (Running s e d visible) \<Longrightarrow> (\<And>signal. ev \<noteq> Signal signal) \<Longrightarrow>
    program Q L (Running s e (handle_ui Q ev d) visible)"
| close_window: "program Q L (Running s e d visible) \<Longrightarrow> program Q L (Running s e d False)"
| open_dashboard: "program Q L (Running s e d visible) \<Longrightarrow> program Q L (Running s e d True)"
| quit: "program Q L (Running s e d visible) \<Longrightarrow> distinct (map fst (sockets :: (socket \<times> bool) list)) \<Longrightarrow>
    set (map fst sockets) = dom (buffers s) \<Longrightarrow> program Q L (Exited 0 (stop sockets s))"

inductive_cases program_exitedE: "program Q L (Exited code s)"

section \<open>The program as a run of the server\<close>

lemma program_application: "program Q L p \<Longrightarrow> p = Running s e d visible \<Longrightarrow> application Q L (s, e, d)"
  by (induction arbitrary: s e d visible rule: program.induct) (auto intro: application.intros)

lemma slot_server_step:
  assumes "slot_step Q L st st'" and "discoveryTimer (fst st)"
  shows "\<exists>new. server_step Q L st new st'"
  using assms
proof (induction rule: slot_step.induct)
  case (pairing encodeText addresses s e shown s' e')
  then have "\<exists>payload. pairingPayload Q [] addresses s e = (payload, s', e')"
    by (auto simp: showPairing_def split: prod.splits)
  then show ?case by (auto intro: server_step.payload)
qed (auto intro: server_step.intros)

lemma listening_sockets: "reachable Q L trace (s, e) \<Longrightarrow> listening s \<Longrightarrow> udpBound s \<and> discoveryTimer s"
  using reachable_inv [of Q L trace "(s, e)"] by (simp add: server_inv_def sockets_inv_def)

lemma application_reachable:
  "application Q L st \<Longrightarrow> \<exists>trace. reachable Q L trace (fst st, fst (snd st))"
proof (induction rule: application.induct)
  case (launched listenError bindError clockTexts e0 st)
  obtain s0 e1 where n: "newServer Q L e0 = (s0, e1)" by fastforce
  obtain s e d where st: "st = (s, e, d)" by (metis prod_cases3)
  have "start Q 43295 listenError bindError s0 e1 = (True, s, e)"
    using launched by (auto simp: startApplication_def n st split: prod.splits if_splits)
  then have "server_step Q L (s0, e1) [] (s, e)" by (rule server_step.started)
  moreover have "reachable Q L [] (s0, e1)" using reachable.constructed [of Q L e0] by (simp add: n)
  ultimately have "reachable Q L ([] @ []) (s, e)" by (intro reachable.step)
  then show ?case by (auto simp: st)
next
  case (serve s e d s' e')
  then obtain trace where r: "reachable Q L trace (s, e)" by auto
  moreover have "listening s" using application_status [OF serve.hyps(1)] by simp
  ultimately have "discoveryTimer s" using listening_sockets by blast
  then obtain new where "server_step Q L (s, e) new (s', e')" using slot_server_step [OF serve.hyps(2)] by auto
  with r show ?case by (auto intro: reachable.step)
qed auto

lemma startApplication_refused:
  "startApplication Q L listenError bindError clockTexts e0 = Inl code \<Longrightarrow> newServer Q L e0 = (s0, e1) \<Longrightarrow>
   start Q 43295 listenError bindError s0 e1 = (ok, s, e) \<Longrightarrow>
   code = 1 \<and> \<not> listening s \<and> \<not> udpBound s \<and> \<not> discoveryTimer s"
  by (auto simp: startApplication_def start_def newServer_def Let_def split: prod.splits if_splits option.splits)

section \<open>Properties\<close>

text \<open>C12: the program runs exactly as long as its server serves. While the event loop runs, with the
  window open or closed to the tray, the server is in a state its own state machine reaches, and
  listens, with both sockets and the timer; when \<open>main\<close> has returned, after \<open>Quit\<close> or a failed start,
  no socket, timer or connection is left, and the exit code tells the two apart.\<close>

theorem program_serves_until_exit:
  assumes "program Q L p"
  shows "case p of
      Running s e d visible \<Rightarrow> listening s \<and> udpBound s \<and> discoveryTimer s \<and> (\<exists>trace. reachable Q L trace (s, e))
    | Exited code s \<Rightarrow> \<not> listening s \<and> \<not> udpBound s \<and> \<not> discoveryTimer s \<and> buffers s = Map.empty \<and>
        (code = 0 \<or> code = 1 \<and> pairedKeys s = Map.empty)"
proof (cases p)
  case (Running s e d visible)
  have app: "application Q L (s, e, d)" by (rule program_application [OF assms Running])
  then obtain trace where "reachable Q L trace (s, e)" using application_reachable [OF app] by auto
  moreover have "listening s" using application_status [OF app] by simp
  ultimately show ?thesis using listening_sockets Running by auto
next
  case (Exited code s)
  from assms [unfolded Exited] show ?thesis
  proof (rule program_exitedE)
    fix listenError bindError clockTexts e0 s0 e1 ok e
    assume r: "startApplication Q L listenError bindError clockTexts e0 = Inl code" "newServer Q L e0 = (s0, e1)"
      "start Q 43295 listenError bindError s0 e1 = (ok, s, e)"
    have "buffers s = Map.empty \<and> pairedKeys s = Map.empty"
      using r by (auto simp: startApplication_def start_def newServer_def Let_def split: prod.splits if_splits option.splits)
    with startApplication_refused [OF r] show ?thesis by (simp add: Exited)
  next
    fix s1 e d visible sockets
    assume "code = 0" "s = stop sockets s1"
    moreover obtain X where "stop sockets s1 = s1\<lparr>discoveryTimer := False, buffers := Map.empty, listening := False,
        udpBound := False, outbox := X\<rparr>" using stop_eq by blast
    ultimately show ?thesis by (simp add: Exited)
  qed
qed

theorem program_serves_until_exit_witness:
  "\<exists>s. program ref_qt ref_ssl (Exited 0 (stop [] s)) \<and> \<not> listening (stop [] s)"
proof -
  have "length (publicKey (x25519KeyPair (fst (newServer ref_qt ref_ssl quietEnv)))) = 32"
    using reachable_inv [OF desk_reachable] desk_facts(1) by (simp add: server_inv_def sockets_inv_def desk_def)
  then have "\<exists>s e d. startApplication ref_qt ref_ssl None None (\<lambda>_. []) quietEnv = Inr (s, e, d) \<and> buffers s = Map.empty"
    by (auto simp: startApplication_def start_def Let_def newServer_def broadcastDiscovery_def split: prod.split)
  then obtain s e d where st: "startApplication ref_qt ref_ssl None None (\<lambda>_. []) quietEnv = Inr (s, e, d)"
      "buffers s = Map.empty" by blast
  have "program ref_qt ref_ssl (Exited 0 (stop [] s))"
    by (rule program.quit [OF program.launched [OF st(1)]]) (simp_all add: st(2))
  from program_serves_until_exit [OF this] this show ?thesis by auto
qed

end
