(* ===== verification/Phone.thy ===== *)
theory Phone
  imports Authorization
begin

text \<open>
  The phone app (\<open>mobile/lib/\<close>, Dart): its keys and envelopes (\<open>crypto_service.dart\<close>), the pairing
  ceremony over one connection (\<open>main.dart\<close>) and the proximity filter (\<open>ble_service.dart\<close>). An
  operation is a function from the state of the app to a value or a thrown error and the state
  after it. One ceremony runs at a time.
\<close>

unbundle bit_operations_syntax

section \<open>Libraries\<close>

text \<open>
  \<open>dart:convert\<close>, \<open>int.tryParse\<close> with radix 16, and the package \<open>cryptography\<close>. A key pair is known
  by its seed. \<open>describe\<close> is \<open>toString\<close> of an error.
\<close>

datatype phone_error =
    StateError string
  | ArgumentError string
  | FormatException
  | CastError
  | NullCheckError
  | SecretBoxAuthenticationError
  | SocketException
  | TimeoutException

record dart =
  jsonEncode :: "json \<Rightarrow> qstring"
  jsonDecode :: "qstring \<Rightarrow> json option"
  utf8Encode :: "qstring \<Rightarrow> bytes"
  utf8Decode :: "bytes \<Rightarrow> qstring option"
  tryParse16 :: "qstring \<Rightarrow> int option"
  edPublic :: "bytes \<Rightarrow> bytes"
  edSign :: "bytes \<Rightarrow> bytes \<Rightarrow> bytes"
  xPublic :: "bytes \<Rightarrow> bytes"
  xShared :: "bytes \<Rightarrow> bytes \<Rightarrow> bytes"
  aesSeal :: "bytes \<Rightarrow> bytes \<Rightarrow> bytes \<Rightarrow> bytes \<Rightarrow> bytes \<times> bytes"
  aesOpen :: "bytes \<Rightarrow> bytes \<Rightarrow> bytes \<Rightarrow> bytes \<Rightarrow> bytes \<Rightarrow> bytes option"
  describe :: "phone_error \<Rightarrow> qstring"
  showInt :: "nat \<Rightarrow> qstring"

section \<open>The state\<close>

text \<open>
  The members of \<open>CryptoService\<close> with the two entries of the secure storage; the socket of the
  ceremony: whether its stream was listened to, the chunks that arrive and what ends them (the peer
  or the timeout), and the bytes written; the status text; and what the random generators return.
\<close>

record phone =
  storedSeed :: "qstring option"
  storedExchangeSeed :: "qstring option"
  signingSeed :: "bytes option"
  exchangeSeed :: "bytes option"
  sessionKey :: "bytes option"
  listened :: bool
  incoming :: "bytes list"
  ending :: phone_error
  written :: bytes
  statusText :: qstring
  newSeeds :: "nat \<Rightarrow> bytes"
  seedsUsed :: nat
  dice :: "nat \<Rightarrow> byte"
  thrown :: nat

type_synonym 'a action = "phone \<Rightarrow> (phone_error + 'a) \<times> phone"

definition returns :: "'a \<Rightarrow> 'a action" where
  "returns x p = (Inr x, p)"

definition throws :: "phone_error \<Rightarrow> 'a action" where
  "throws err p = (Inl err, p)"

definition andThen :: "'a action \<Rightarrow> ('a \<Rightarrow> 'b action) \<Rightarrow> 'b action" where
  "andThen m f p = (case m p of (Inr x, p') \<Rightarrow> f x p' | (Inl err, p') \<Rightarrow> (Inl err, p'))"

text \<open>A value that is there, or an error.\<close>

definition orThrow :: "phone_error \<Rightarrow> 'a option \<Rightarrow> 'a action" where
  "orThrow err x = (case x of Some v \<Rightarrow> returns v | None \<Rightarrow> throws err)"

definition require :: "bool \<Rightarrow> phone_error \<Rightarrow> unit action" where
  "require b err = (if b then returns () else throws err)"

section \<open>Hexadecimal and big-endian texts\<close>

definition hexDigit :: "nat \<Rightarrow> 16 word" where
  "hexDigit n = (if n < 10 then of_nat (48 + n) else of_nat (87 + n))"

definition hexOf :: "bytes \<Rightarrow> qstring" where
  "hexOf b = concat (map (\<lambda>byte. [hexDigit (unat byte div 16), hexDigit (unat byte mod 16)]) b)"

fun fromHexPairs :: "dart \<Rightarrow> qstring \<Rightarrow> bytes option" where
  "fromHexPairs D (c # d # value) = (case tryParse16 D [c, d] of None \<Rightarrow> None
     | Some byte \<Rightarrow> map_option (\<lambda>rest. word_of_int byte # rest) (fromHexPairs D value))"
| "fromHexPairs D _ = Some []"

definition fromHexText :: "dart \<Rightarrow> qstring \<Rightarrow> bytes option" where
  "fromHexText D value = (if odd (length value) then None else fromHexPairs D value)"

definition u64be :: "qint64 \<Rightarrow> bytes" where
  "u64be value = map (\<lambda>s. ucast (drop_bit (8 * s) value)) [7, 6, 5, 4, 3, 2, 1, 0]"

section \<open>CryptoService\<close>

text \<open>The two halves of \<open>initialize\<close>.\<close>

definition loadSigningKey :: "dart \<Rightarrow> unit action" where
  "loadSigningKey D p = (case storedSeed p of
     None \<Rightarrow> (let seed = newSeeds p (seedsUsed p)
              in (Inr (), p\<lparr>seedsUsed := Suc (seedsUsed p), storedSeed := Some (hexOf seed), signingSeed := Some seed\<rparr>))
   | Some encoded \<Rightarrow> (case fromHexText D encoded of
        None \<Rightarrow> (Inl FormatException, p)
      | Some seed \<Rightarrow> if length seed \<noteq> 32 then (Inl (StateError ''stored signing key has invalid length''), p)
                     else (Inr (), p\<lparr>signingSeed := Some seed\<rparr>)))"

definition loadExchangeKey :: "dart \<Rightarrow> unit action" where
  "loadExchangeKey D p = (case storedExchangeSeed p of
     None \<Rightarrow> (let seed = newSeeds p (seedsUsed p)
              in (Inr (), p\<lparr>seedsUsed := Suc (seedsUsed p), exchangeSeed := Some seed, storedExchangeSeed := Some (hexOf seed)\<rparr>))
   | Some encoded \<Rightarrow> (case fromHexText D encoded of
        None \<Rightarrow> (Inl FormatException, p)
      | Some seed \<Rightarrow> if length seed \<noteq> 32 then (Inl (StateError ''stored exchange key has invalid length''), p)
                     else (Inr (), p\<lparr>exchangeSeed := Some seed\<rparr>)))"

definition initialize :: "dart \<Rightarrow> unit action" where
  "initialize D p = (if signingSeed p \<noteq> None then (Inr (), p)
     else andThen (loadSigningKey D) (\<lambda>_. loadExchangeKey D) p)"

text \<open>\<open>_keyPair!\<close> and \<open>_exchangeKeyPair!\<close> after \<open>initialize\<close>.\<close>

definition signingKeyPair :: "dart \<Rightarrow> bytes action" where
  "signingKeyPair D = andThen (initialize D) (\<lambda>_ p. orThrow NullCheckError (signingSeed p) p)"

definition exchangeKeyPair :: "dart \<Rightarrow> bytes action" where
  "exchangeKeyPair D = andThen (initialize D) (\<lambda>_ p. orThrow NullCheckError (exchangeSeed p) p)"

definition phonePublicKey :: "dart \<Rightarrow> bytes action" where
  "phonePublicKey D = andThen (signingKeyPair D) (\<lambda>seed. returns (edPublic D seed))"

definition exchangePublicKey :: "dart \<Rightarrow> bytes action" where
  "exchangePublicKey D = andThen (exchangeKeyPair D) (\<lambda>seed. returns (xPublic D seed))"

text \<open>\<open>approved\<close> is the answer of the biometric prompt.\<close>

definition signChallenge :: "dart \<Rightarrow> bool \<Rightarrow> bytes \<Rightarrow> qint64 \<Rightarrow> bytes action" where
  "signChallenge D approved nonce timestamp =
     andThen (require (length nonce = 32) (ArgumentError ''nonce must be 32 bytes'')) (\<lambda>_.
     andThen (initialize D) (\<lambda>_.
     andThen (require approved (StateError ''biometric approval denied'')) (\<lambda>_ p.
     andThen (orThrow NullCheckError (signingSeed p)) (\<lambda>seed.
       returns (edSign D seed (nonce @ u64be timestamp))) p)))"

definition establishSession :: "dart \<Rightarrow> qstring \<Rightarrow> unit action" where
  "establishSession D workstationKey =
     andThen (initialize D) (\<lambda>_.
     andThen (orThrow FormatException (fromHexText D workstationKey)) (\<lambda>keyBytes.
     andThen (require (length keyBytes = 32) FormatException) (\<lambda>_ p.
     andThen (orThrow NullCheckError (exchangeSeed p)) (\<lambda>seed p.
       (Inr (), p\<lparr>sessionKey := Some (xShared D seed keyBytes)\<rparr>)) p)))"

definition drawNonce :: "bytes action" where
  "drawNonce p = (Inr (map (\<lambda>i. dice p (thrown p + i)) [0..<12]), p\<lparr>thrown := thrown p + 12\<rparr>)"

definition envelopeObject :: "qstring \<Rightarrow> bytes \<Rightarrow> bytes \<times> bytes \<Rightarrow> json_object" where
  "envelopeObject deviceId nonce box =
     [(qs ''type'', JString (qs ''secure'')), (qs ''device_id'', JString deviceId),
      (qs ''nonce'', JString (hexOf nonce)), (qs ''ciphertext'', JString (hexOf (fst box))),
      (qs ''tag'', JString (hexOf (snd box)))]"

definition encryptEnvelope :: "dart \<Rightarrow> qstring \<Rightarrow> json_object \<Rightarrow> json_object action" where
  "encryptEnvelope D deviceId payload p =
     andThen (orThrow (StateError ''secure session has not been established'') (sessionKey p)) (\<lambda>key.
     andThen drawNonce (\<lambda>nonce.
       returns (envelopeObject deviceId nonce
         (aesSeal D key nonce (utf8Encode D deviceId) (utf8Encode D (jsonEncode D (JObject payload))))))) p"

text \<open>\<open>as String\<close> and \<open>as int\<close>.\<close>

fun asString :: "json \<Rightarrow> qstring action" where
  "asString (JString s) = returns s"
| "asString _ = throws CastError"

fun asInt :: "json \<Rightarrow> qint64 action" where
  "asInt (JInteger n) = returns n"
| "asInt _ = throws CastError"

definition hexField :: "dart \<Rightarrow> json_object \<Rightarrow> string \<Rightarrow> bytes action" where
  "hexField D ob name = andThen (asString (jvalue ob name)) (\<lambda>t. orThrow FormatException (fromHexText D t))"

fun asObject :: "phone_error \<Rightarrow> json option \<Rightarrow> json_object action" where
  "asObject err (Some (JObject ob)) = returns ob"
| "asObject err _ = throws err"

definition decryptEnvelope :: "dart \<Rightarrow> qstring \<Rightarrow> json_object \<Rightarrow> json_object action" where
  "decryptEnvelope D deviceId envelope p =
     andThen (orThrow FormatException (sessionKey p)) (\<lambda>key.
     andThen (require (jvalue envelope ''type'' = JString (qs ''secure'') \<and>
                       jvalue envelope ''device_id'' = JString deviceId) FormatException) (\<lambda>_.
     andThen (hexField D envelope ''ciphertext'') (\<lambda>cipherText.
     andThen (hexField D envelope ''nonce'') (\<lambda>nonce.
     andThen (hexField D envelope ''tag'') (\<lambda>mac.
     andThen (orThrow SecretBoxAuthenticationError
       (aesOpen D key nonce (utf8Encode D deviceId) cipherText mac)) (\<lambda>clear.
     andThen (orThrow FormatException (utf8Decode D clear)) (\<lambda>t.
       asObject FormatException (jsonDecode D t)))))))) p"

section \<open>The pairing ceremony\<close>

record pairing_payload =
  payloadHost :: qstring
  payloadPort :: qint64
  payloadPcId :: qstring
  payloadKey :: qstring
  payloadCode :: qstring

text \<open>\<open>value == 1\<close>, which also holds for the double 1.0.\<close>

definition equalsOne :: "json \<Rightarrow> bool" where
  "equalsOne v \<longleftrightarrow> v = JInteger 1 \<or> v = JDouble 0x3FF0000000000000"

definition fromRaw :: "dart \<Rightarrow> qstring \<Rightarrow> phone_error + pairing_payload" where
  "fromRaw D raw = (case jsonDecode D raw of
     None \<Rightarrow> Inl FormatException
   | Some (JObject value) \<Rightarrow>
       (case (jvalue value ''host'', jvalue value ''port'', jvalue value ''x25519_public_key'',
              jvalue value ''pc_id'', jvalue value ''pairing_code'') of
          (JString host, JInteger portNumber, JString key, JString pc, JString code) \<Rightarrow>
            if \<not> equalsOne (jvalue value ''version'') \<or> sint portNumber < 1 \<or> sint portNumber > 65535 \<or> pc = [] \<or>
               length key \<noteq> 64 \<or> code = []
            then Inl FormatException
            else Inr \<lparr>payloadHost = host, payloadPort = portNumber, payloadPcId = pc, payloadKey = key, payloadCode = code\<rparr>
        | _ \<Rightarrow> Inl FormatException)
   | Some _ \<Rightarrow> Inl CastError)"

text \<open>
  \<open>_readLine\<close>: the chunks up to the first newline; what follows it in the last chunk is lost. The
  stream of a socket can be listened to once: a second \<open>await for\<close> throws.
\<close>

fun gather :: "bytes \<Rightarrow> bytes list \<Rightarrow> (bytes \<times> bytes list) option" where
  "gather buffered [] = None"
| "gather buffered (chunk # chunks) =
     (if 10 \<in> set (buffered @ chunk) then Some (takeWhile (\<lambda>b. b \<noteq> 10) (buffered @ chunk), chunks)
      else gather (buffered @ chunk) chunks)"

definition readLine :: "dart \<Rightarrow> qstring action" where
  "readLine D p =
     (if listened p then (Inl (StateError ''Stream has already been listened to.''), p)
      else let p = p\<lparr>listened := True\<rparr> in
      case gather [] (incoming p) of
        None \<Rightarrow> (Inl (ending p), p)
      | Some (line, rest) \<Rightarrow> orThrow FormatException (utf8Decode D line) (p\<lparr>incoming := rest\<rparr>))"

definition sendObject :: "dart \<Rightarrow> json_object \<Rightarrow> unit action" where
  "sendObject D ob p = (Inr (), p\<lparr>written := written p @ utf8Encode D (jsonEncode D (JObject ob)) @ [10]\<rparr>)"

definition pairRequest :: "bytes \<Rightarrow> bytes \<Rightarrow> qstring \<Rightarrow> json_object" where
  "pairRequest key exchangeKey code =
     [(qs ''type'', JString (qs ''pair'')), (qs ''device_id'', JString (hexOf key)),
      (qs ''public_key'', JString (hexOf key)), (qs ''x25519_public_key'', JString (hexOf exchangeKey)),
      (qs ''pairing_code'', JString code)]"

text \<open>The answer to a challenge.\<close>

definition verifyRequest :: "dart \<Rightarrow> qstring \<Rightarrow> bool \<Rightarrow> json_object \<Rightarrow> json_object action" where
  "verifyRequest D deviceId approved challenge =
     andThen (hexField D challenge ''nonce'') (\<lambda>nonce.
     andThen (asInt (jvalue challenge ''timestamp'')) (\<lambda>timestamp.
     andThen (signChallenge D approved nonce timestamp) (\<lambda>signature.
       encryptEnvelope D deviceId
         [(qs ''type'', JString (qs ''verify'')), (qs ''nonce'', jvalue challenge ''nonce''),
          (qs ''timestamp'', JInteger timestamp), (qs ''signature'', JString (hexOf signature))])))"

text \<open>Read a line, decode it, open it.\<close>

definition readEnvelope :: "dart \<Rightarrow> qstring \<Rightarrow> json_object action" where
  "readEnvelope D deviceId =
     andThen (readLine D) (\<lambda>line.
     andThen (asObject (if jsonDecode D line = None then FormatException else CastError) (jsonDecode D line)) (\<lambda>ob.
       decryptEnvelope D deviceId ob))"

definition verifyCeremony :: "dart \<Rightarrow> qstring \<Rightarrow> bool \<Rightarrow> qstring action" where
  "verifyCeremony D deviceId approved =
     andThen (encryptEnvelope D deviceId [(qs ''type'', JString (qs ''challenge''))]) (\<lambda>request.
     andThen (sendObject D request) (\<lambda>_.
     andThen (readEnvelope D deviceId) (\<lambda>challenge.
     andThen (verifyRequest D deviceId approved challenge) (\<lambda>request.
     andThen (sendObject D request) (\<lambda>_.
     andThen (readEnvelope D deviceId) (\<lambda>authorized.
       returns (if jvalue authorized ''authorized'' = JBool True then qs ''PC paired and challenge verified''
                else qs ''PC paired, challenge rejected'')))))))"

definition pairCeremony :: "dart \<Rightarrow> bool \<Rightarrow> phone_error option \<Rightarrow> pairing_payload \<Rightarrow> qstring action" where
  "pairCeremony D approved connectError payload =
     andThen (phonePublicKey D) (\<lambda>key.
     andThen (exchangePublicKey D) (\<lambda>exchangeKey.
     andThen (establishSession D (payloadKey payload)) (\<lambda>_.
     andThen (case connectError of Some err \<Rightarrow> throws err | None \<Rightarrow> returns ()) (\<lambda>_.
     andThen (sendObject D (pairRequest key exchangeKey (payloadCode payload))) (\<lambda>_.
     andThen (readLine D) (\<lambda>response.
     andThen (asObject (if jsonDecode D response = None then FormatException else CastError) (jsonDecode D response)) (\<lambda>ob.
       if jvalue ob ''accepted'' = JBool True then verifyCeremony D (hexOf key) approved
       else returns (qs ''Pairing rejected''))))))))"

text \<open>\<open>mounted\<close> says whether the page is still shown when the ceremony ends.\<close>

definition pairFromQr :: "dart \<Rightarrow> bool \<Rightarrow> bool \<Rightarrow> phone_error option \<Rightarrow> pairing_payload \<Rightarrow> phone \<Rightarrow> phone" where
  "pairFromQr D mounted approved connectError payload p =
     (case pairCeremony D approved connectError payload (p\<lparr>listened := False, written := []\<rparr>) of
        (Inr s, p) \<Rightarrow> if mounted then p\<lparr>statusText := s\<rparr> else p
      | (Inl err, p) \<Rightarrow> if mounted then p\<lparr>statusText := qs ''Pairing failed: '' @ describe D err\<rparr> else p)"

text \<open>The button \<open>Test\<close>; \<open>now\<close> is the time in seconds.\<close>

definition testBiometric :: "dart \<Rightarrow> bool \<Rightarrow> qint64 \<Rightarrow> phone \<Rightarrow> phone" where
  "testBiometric D approved now p =
     (case signChallenge D approved (replicate 32 0) now p of
        (Inr signature, p) \<Rightarrow> p\<lparr>statusText := qs ''Signed '' @ showInt D (length signature) @ qs ''-byte challenge''\<rparr>
      | (Inl err, p) \<Rightarrow> p\<lparr>statusText := describe D err\<rparr>)"

text \<open>
  A code that the camera sees (\<open>None\<close> for one without text): whether one was handled before, and the
  payload the scanner has returned, which it can while its page is \<open>mounted\<close>.
\<close>

fun onScan :: "dart \<Rightarrow> bool \<Rightarrow> qstring option \<Rightarrow> bool \<times> pairing_payload option \<Rightarrow> bool \<times> pairing_payload option" where
  "onScan D mounted code (handled, result) =
     (case code of None \<Rightarrow> (handled, result)
      | Some raw \<Rightarrow> if handled then (handled, result)
          else case fromRaw D raw of Inr payload \<Rightarrow> (True, if mounted then Some payload else result)
             | Inl _ \<Rightarrow> (handled, result))"

section \<open>Proximity\<close>

text \<open>
  \<open>BleService\<close> with its subscription to scan results and its last verdicts, the events it has sent
  (\<open>ProximityEvent\<close>: the device, its signal strength and whether it is nearby) until their stream is
  closed, and the switch of the page with its subscription to the events and the text it shows.
\<close>

record proximity =
  subscribed :: bool
  nearbyDevices :: "nat \<rightharpoonup> bool"
  proximityEvents :: "(nat \<times> int \<times> bool) list"
  eventsClosed :: bool
  switchOn :: bool
  watching :: bool
  pageText :: qstring

text \<open>The listener of the page; \<open>names\<close> are the names or identifiers of the devices.\<close>

definition onProximityEvent :: "(nat \<Rightarrow> qstring) \<Rightarrow> nat \<times> int \<times> bool \<Rightarrow> proximity \<Rightarrow> proximity" where
  "onProximityEvent names ev b =
     (let b = b\<lparr>proximityEvents := proximityEvents b @ [ev]\<rparr>
      in if watching b
         then b\<lparr>pageText := names (fst ev) @ qs '': '' @ (if snd (snd ev) then qs ''nearby'' else qs ''away'')\<rparr>
         else b)"

fun onScanResult :: "int \<Rightarrow> int \<Rightarrow> (nat \<Rightarrow> qstring) \<Rightarrow> nat \<times> int \<times> bool \<Rightarrow> proximity \<Rightarrow> proximity" where
  "onScanResult nearThreshold farThreshold names (device, rssi, offersService) b =
     (if \<not> offersService then b
      else let previous = (case nearbyDevices b device of Some n \<Rightarrow> n | None \<Rightarrow> False);
               nearby = (if previous then rssi \<ge> farThreshold else rssi \<ge> nearThreshold)
           in onProximityEvent names (device, rssi, nearby)
                (b\<lparr>nearbyDevices := (nearbyDevices b)(device \<mapsto> nearby)\<rparr>))"

definition onScanResults ::
  "int \<Rightarrow> int \<Rightarrow> (nat \<Rightarrow> qstring) \<Rightarrow> (nat \<times> int \<times> bool) list \<Rightarrow> proximity \<Rightarrow> proximity" where
  "onScanResults nearThreshold farThreshold names results b =
     (if subscribed b then fold (onScanResult nearThreshold farThreshold names) results b else b)"

definition startProximityScan :: "proximity \<Rightarrow> proximity" where
  "startProximityScan b = b\<lparr>subscribed := True\<rparr>"

definition stopScan :: "proximity \<Rightarrow> proximity" where
  "stopScan b = b\<lparr>subscribed := False, nearbyDevices := Map.empty\<rparr>"

definition toggleProximity :: "bool \<Rightarrow> proximity \<Rightarrow> proximity" where
  "toggleProximity value b =
     (let b = b\<lparr>switchOn := value\<rparr>
      in if value then startProximityScan (b\<lparr>watching := True\<rparr>) else stopScan (b\<lparr>watching := False\<rparr>))"

text \<open>The two \<open>dispose\<close> methods, of \<open>BleService\<close> and of the page.\<close>

definition disposeBle :: "proximity \<Rightarrow> proximity" where
  "disposeBle b = (let b = stopScan b in b\<lparr>eventsClosed := True\<rparr>)"

definition disposePage :: "proximity \<Rightarrow> proximity" where
  "disposePage b = disposeBle (b\<lparr>watching := False\<rparr>)"

section \<open>Connections to a workstation over Bluetooth\<close>

fun containsText :: "qstring \<Rightarrow> qstring \<Rightarrow> bool" where
  "containsText part [] \<longleftrightarrow> part = []"
| "containsText part (c # cs) \<longleftrightarrow> take (length part) (c # cs) = part \<or> containsText part cs"

text \<open>
  \<open>failure\<close> is the text of the error of \<open>device.connect\<close>, if it fails. A result \<open>Inl\<close> is the text of
  the error that is thrown on.
\<close>

definition connectDevice :: "bool \<Rightarrow> qstring option \<Rightarrow> qstring + unit" where
  "connectDevice isConnected failure =
     (if isConnected then Inr ()
      else case failure of None \<Rightarrow> Inr ()
         | Some err \<Rightarrow> if \<not> containsText (qs ''already_connected'') err then Inl err else Inr ())"

text \<open>Services are given by their identifier and those of their characteristics.\<close>

definition connectAndDiscover ::
  "nat \<Rightarrow> nat \<Rightarrow> bool \<Rightarrow> qstring option \<Rightarrow> (nat \<times> nat list) list \<Rightarrow> qstring + (nat \<times> nat list) list" where
  "connectAndDiscover openBioUnlockService openBioUnlockControl isConnected failure services =
     (case connectDevice isConnected failure of Inl err \<Rightarrow> Inl err
      | Inr _ \<Rightarrow>
          if \<not> list_ex (\<lambda>(uuid, characteristics). uuid = openBioUnlockService \<and>
                 openBioUnlockControl \<in> set characteristics) services
          then Inl (qs ''device does not expose the OpenBioUnlock GATT service'') else Inr services)"

end
