(* ===== verification/PhoneProofs.thy ===== *)
theory PhoneProofs
  imports Phone
begin

text \<open>
  The lemmas on the phone: results of its actions, the laws that relate the libraries of the two
  ends, what each end makes of the messages of the other, the keys in the storage, and the filter of
  the proximity scan as a fold over the readings of one device.
\<close>

section \<open>Actions\<close>

lemma returns_simps [simp]: "returns x p = (Inr x, p)" "throws err p = (Inl err, p)"
  by (simp_all add: returns_def throws_def)

lemma orThrow_simps [simp]: "orThrow err (Some x) = returns x" "orThrow err None = throws err"
  by (simp_all add: orThrow_def)

lemma require_simps [simp]: "require True err = returns ()" "require False err = throws err"
  by (simp_all add: require_def)

lemma andThen_Inr [simp]: "m p = (Inr x, p') \<Longrightarrow> andThen m f p = f x p'"
  and andThen_Inl [simp]: "m p = (Inl err, p') \<Longrightarrow> andThen m f p = (Inl err, p')"
  by (simp_all add: andThen_def)

lemma andThen_result:
  assumes "andThen m f p = (Inr y, q)"
  obtains x p' where "m p = (Inr x, p')" "f x p' = (Inr y, q)"
  using assms by (auto simp: andThen_def split: prod.splits sum.splits)

lemma orThrow_result: "orThrow err x p = (Inr y, q) \<longleftrightarrow> x = Some y \<and> q = p"
  by (cases x) auto

lemma require_result: "require b err p = (Inr y, q) \<longleftrightarrow> b \<and> q = p"
  by (cases b) auto

lemma initialize_done: "signingSeed p \<noteq> None \<Longrightarrow> initialize D p = (Inr (), p)"
  by (simp add: initialize_def)

section \<open>The libraries of both ends\<close>

text \<open>
  What the phone and the server rely on to understand each other: JSON texts are read by the other
  side, hexadecimal texts have lower-case digits, and the cipher and the signatures are the same
  functions on both sides.
\<close>

definition same_json :: "dart \<Rightarrow> qt \<Rightarrow> bool" where
  "same_json D Q \<longleftrightarrow> (\<forall>ob. flat_object ob \<longrightarrow>
     utf8Encode D (jsonEncode D (JObject ob)) \<noteq> [] \<and>
     (\<exists>ob'. fromJson Q (utf8Encode D (jsonEncode D (JObject ob))) = Some (JObject ob') \<and> map_of ob' = map_of ob) \<and>
     (\<exists>t ob'. utf8Decode D (toJson Q (JObject ob)) = Some t \<and> jsonDecode D t = Some (JObject ob') \<and>
        map_of ob' = map_of ob))"

definition same_texts :: "dart \<Rightarrow> qt \<Rightarrow> bool" where
  "same_texts D Q \<longleftrightarrow> (\<forall>b. hexText Q b = hexOf b) \<and>
     (\<forall>b :: byte. tryParse16 D [hexDigit (unat b div 16), hexDigit (unat b mod 16)] = Some (uint b))"

definition same_crypto :: "dart \<Rightarrow> gcm \<Rightarrow> (bytes \<Rightarrow> bytes \<Rightarrow> bytes \<Rightarrow> bool) \<Rightarrow> bool" where
  "same_crypto D G valid \<longleftrightarrow>
     (\<forall>key iv a m. length key = 32 \<longrightarrow> length iv = 12 \<longrightarrow>
        aesSeal D key iv a m = (ctr G key iv m, gtag G key iv a (ctr G key iv m))) \<and>
     (\<forall>key iv a c t. length key = 32 \<longrightarrow> length iv = 12 \<longrightarrow>
        aesOpen D key iv a c t = (if gtag G key iv a c = t then Some (ctr G key iv c) else None)) \<and>
     (\<forall>seed m. length seed = 32 \<longrightarrow> length (edPublic D seed) = 32 \<and> length (edSign D seed m) = 64 \<and>
        valid (edPublic D seed) m (edSign D seed m))"

lemma jvalue_eqI: "map_of ob' = map_of ob \<Longrightarrow> (\<And>name. jvalue ob' name = jvalue ob name)"
  by (rule jvalue_cong)

lemma server_reads:
  assumes "same_json D Q" and "flat_object ob"
  obtains parsed where "fromJson Q (utf8Encode D (jsonEncode D (JObject ob))) = Some (JObject parsed)"
    "\<And>name. jvalue parsed name = jvalue ob name" "utf8Encode D (jsonEncode D (JObject ob)) \<noteq> []"
  using assms unfolding same_json_def by (metis jvalue_cong)

lemma phone_reads:
  assumes "same_json D Q" and "flat_object ob"
  obtains t received where "utf8Decode D (toJson Q (JObject ob)) = Some t"
    "jsonDecode D t = Some (JObject received)" "\<And>name. jvalue received name = jvalue ob name"
  using assms unfolding same_json_def by (metis jvalue_cong)

lemma length_hexOf [simp]: "length (hexOf b) = 2 * length b"
  by (induction b) (simp_all add: hexOf_def)

lemma fromHexPairs_hexOf: "same_texts D Q \<Longrightarrow> fromHexPairs D (hexOf b) = Some b"
proof (induction b)
  case (Cons x b)
  then show ?case by (simp add: hexOf_def same_texts_def)
qed (simp add: hexOf_def)

lemma fromHexText_hexOf: "same_texts D Q \<Longrightarrow> fromHexText D (hexOf b) = Some b"
  using fromHexPairs_hexOf by (simp add: fromHexText_def)

lemma hexField_hexOf:
  "same_texts D Q \<Longrightarrow> jvalue ob name = JString (hexOf b) \<Longrightarrow> hexField D ob name p = (Inr b, p)"
  by (simp add: hexField_def fromHexText_hexOf)

lemma u64be_eq: "u64be t = timestampBytes t"
  by (simp add: u64be_def timestampBytes_eq)

section \<open>Envelopes between the two\<close>

text \<open>The phone opens what the server seals.\<close>

lemma phone_opens:
  assumes Q: "qt_laws Q" and L: "gcm_laws L G" and J: "same_json D Q" and T: "same_texts D Q"
    and C: "same_crypto D G valid" and U: "toUtf8 Q d = utf8Encode D d"
    and key: "sessionKeys s d = Some key" "length key = 32" "sessionKey p = Some key" and flat: "flat_object m"
    and same: "\<And>name. jvalue ob name = jvalue (fst (encryptedResponse Q L d m s e)) name"
  obtains reply where "decryptEnvelope D d ob p = (Inr reply, p)" "\<And>name. jvalue reply name = jvalue m name"
proof -
  have laws: "number_laws Q" "hex_laws Q" using Q by (simp_all add: qt_laws_def)
  define iv where "iv = fst (fillRandom Q 12 e)"
  have iv: "length iv = 12" by (simp add: iv_def length_fillRandom [OF laws(1)])
  define c where "c = ctr G key iv (toJson Q (JObject m))"
  define t where "t = gtag G key iv (utf8Encode D d) c"
  have "seals L key iv (toUtf8 Q d) (toJson Q (JObject m)) = \<lparr>ciphertext = c, tag = t\<rparr>"
    using seals_eq [of L G key iv] L key(2) iv by (simp add: gcm_ready_def U c_def t_def Let_def)
  then have env: "fst (encryptedResponse Q L d m s e) = secureEnvelope Q d iv \<lparr>ciphertext = c, tag = t\<rparr>"
    by (simp add: encryptedResponse_eq [OF L laws(1) key(1,2)] iv_def Let_def)
  have fields: "jvalue ob ''type'' = JString (qs ''secure'')" "jvalue ob ''device_id'' = JString d"
      "jvalue ob ''nonce'' = JString (hexOf iv)" "jvalue ob ''ciphertext'' = JString (hexOf c)"
      "jvalue ob ''tag'' = JString (hexOf t)"
    using T by (simp_all add: same env secureEnvelope_def same_texts_def)
  have "ctr G key iv c = toJson Q (JObject m)" unfolding c_def using L by (rule gcm_ctr)
  then have opens: "aesOpen D key iv (utf8Encode D d) c t = Some (toJson Q (JObject m))"
    using C key(2) iv by (simp add: same_crypto_def t_def)
  obtain text1 reply where reply: "utf8Decode D (toJson Q (JObject m)) = Some text1"
      "jsonDecode D text1 = Some (JObject reply)" "\<And>name. jvalue reply name = jvalue m name"
    using phone_reads [OF J flat] by blast
  have "decryptEnvelope D d ob p = (Inr reply, p)"
    by (simp add: decryptEnvelope_def key(3) fields hexField_hexOf [OF T fields(3)] hexField_hexOf [OF T fields(4)]
        hexField_hexOf [OF T fields(5)] opens reply(1,2))
  with reply(3) that show thesis by blast
qed

lemma flat_envelopeObject: "flat_object (envelopeObject d iv box)"
  by (simp add: flat_object_def envelopeObject_def)

text \<open>The server opens what the phone seals.\<close>

lemma server_opens:
  assumes Q: "qt_laws Q" and L: "gcm_laws L G" and J: "same_json D Q" and T: "same_texts D Q"
    and C: "same_crypto D G valid" and U: "toUtf8 Q d = utf8Encode D d"
    and key: "sessionKeys s d = Some key" "length key = 32" "sessionKey p = Some key" and flat: "flat_object m"
  obtains request parsed opened where "encryptEnvelope D d m p = (Inr request, p\<lparr>thrown := thrown p + 12\<rparr>)"
    "fromJson Q (utf8Encode D (jsonEncode D (JObject request))) = Some (JObject parsed)"
    "\<not> isPairRequest parsed" "decryptRequest Q L parsed s = Inr (d, opened)"
    "\<And>name. jvalue opened name = jvalue m name"
proof -
  have laws: "hex_laws Q" using Q by (simp add: qt_laws_def)
  define iv where "iv = map (\<lambda>i. dice p (thrown p + i)) [0..<12]"
  have iv: "length iv = 12" by (simp add: iv_def)
  define clear where "clear = utf8Encode D (jsonEncode D (JObject m))"
  define c where "c = ctr G key iv clear"
  define t where "t = gtag G key iv (utf8Encode D d) c"
  define request where "request = envelopeObject d iv (c, t)"
  have seal: "aesSeal D key iv (utf8Encode D d) clear = (c, t)"
    using C key(2) iv by (simp add: same_crypto_def c_def t_def)
  then have enc: "encryptEnvelope D d m p = (Inr request, p\<lparr>thrown := thrown p + 12\<rparr>)"
    by (simp add: encryptEnvelope_def key(3) drawNonce_def iv_def [symmetric] clear_def [symmetric] request_def)
  have "flat_object request" by (simp add: request_def flat_envelopeObject)
  then obtain parsed where parsed: "fromJson Q (utf8Encode D (jsonEncode D (JObject request))) = Some (JObject parsed)"
      "\<And>name. jvalue parsed name = jvalue request name"
    using server_reads [OF J] by blast
  obtain opened where raw: "fromJson Q (utf8Encode D (jsonEncode D (JObject m))) = Some (JObject opened)"
      "\<And>name. jvalue opened name = jvalue m name" "utf8Encode D (jsonEncode D (JObject m)) \<noteq> []"
    using server_reads [OF J flat] by blast
  note opened = raw [folded clear_def]
  have "seals L key iv (toUtf8 Q d) clear = \<lparr>ciphertext = c, tag = t\<rparr>"
    using seals_eq [of L G key iv] L key(2) iv by (simp add: gcm_ready_def U c_def t_def Let_def)
  moreover have "unhexText Q (hexOf b) = b" for b
    using hex_field.dec_enc [OF laws, of b] T by (simp add: same_texts_def)
  ultimately have "envelopeFields Q parsed d iv (seals L key iv (toUtf8 Q d) clear)"
    by (simp add: envelopeFields_def parsed(2) request_def envelopeObject_def)
  from sealed_text_opens [OF L key(1,2) _ opened(3,1) this] iv
  have dec: "decryptRequest Q L parsed s = Inr (d, opened)" by simp
  have "\<not> isPairRequest parsed" by (simp add: parsed(2) request_def envelopeObject_def)
  with enc parsed(1) dec opened(2) that show thesis by blast
qed

section \<open>A login with the phone\<close>

lemma signChallenge_approved:
  assumes "signingSeed p = Some seed" and "length n = 32"
  shows "signChallenge D True n t p = (Inr (edSign D seed (n @ timestampBytes t)), p)"
proof -
  have "initialize D p = (Inr (), p)" using assms(1) by (intro initialize_done) simp
  then show ?thesis by (simp add: signChallenge_def assms u64be_eq)
qed

definition challengeObject :: "qt \<Rightarrow> bytes \<Rightarrow> qint64 \<Rightarrow> json_object" where
  "challengeObject Q n t = [(qs ''type'', JString (qs ''challenge'')), (qs ''challenge_id'', JString (hexText Q n)),
     (qs ''nonce'', JString (hexText Q n)), (qs ''timestamp'', JInteger t)]"

lemma challengeResponse_eq:
  "fst (challengeResponse Q L d s e) = fst (encryptedResponse Q L d
     (challengeObject Q (fst (fillRandom Q 32 e)) (clock e (ticks e))) s (snd (currentSecs (snd (fillRandom Q 32 e)))))"
proof -
  obtain n e1 where fill: "fillRandom Q 32 e = (n, e1)" by fastforce
  then have "clock e1 = clock e" "ticks e1 = ticks e"
    using fillRandom_env [of Q 32 e] by simp_all
  then show ?thesis
    by (simp add: challengeResponse_def challengeObject_def currentSecs_def fill Let_def)
qed

lemma encryptedResponse_flat: "flat_object (fst (encryptedResponse Q L d m s e))"
  by (simp add: encryptedResponse_def Let_def flat_secureEnvelope flat_payloads split: prod.split)

text \<open>What the phone makes of the bytes of a line.\<close>

definition phoneParses :: "dart \<Rightarrow> bytes \<Rightarrow> json option" where
  "phoneParses D line = (case utf8Decode D line of None \<Rightarrow> None | Some t \<Rightarrow> jsonDecode D t)"

lemma phone_opens_response:
  assumes "qt_laws Q" and "gcm_laws L G" and "same_json D Q" and "same_texts D Q" and "same_crypto D G valid" and "toUtf8 Q d = utf8Encode D d"
    and "sessionKeys s d = Some key" "length key = 32" "sessionKey p = Some key" and "flat_object m"
  obtains received reply where
    "phoneParses D (toJson Q (JObject (fst (encryptedResponse Q L d m s e)))) = Some (JObject received)"
    "decryptEnvelope D d received p = (Inr reply, p)" "\<And>name. jvalue reply name = jvalue m name"
proof -
  obtain t received where r: "utf8Decode D (toJson Q (JObject (fst (encryptedResponse Q L d m s e)))) = Some t"
      "jsonDecode D t = Some (JObject received)"
      "\<And>name. jvalue received name = jvalue (fst (encryptedResponse Q L d m s e)) name"
    using phone_reads [OF assms(3) encryptedResponse_flat] by blast
  obtain reply where "decryptEnvelope D d received p = (Inr reply, p)" "\<And>name. jvalue reply name = jvalue m name"
    using phone_opens [OF assms r(3)] by blast
  with r(1,2) that show thesis by (simp add: phoneParses_def)
qed

text \<open>The phone's answer to a challenge, as the server opens it.\<close>

lemma verifyRequest_opens:
  assumes "qt_laws Q" and "gcm_laws L G" and "same_json D Q" and "same_texts D Q" and "same_crypto D G valid" and "toUtf8 Q d = utf8Encode D d"
    and "sessionKeys s d = Some key" "length key = 32" "sessionKey p = Some key"
    and "signingSeed p = Some seed" and "length n = 32"
    and "jvalue challenge ''nonce'' = JString (hexOf n)" and "jvalue challenge ''timestamp'' = JInteger t"
  obtains request parsed opened where
    "verifyRequest D d True challenge p = (Inr request, p\<lparr>thrown := thrown p + 12\<rparr>)"
    "fromJson Q (utf8Encode D (jsonEncode D (JObject request))) = Some (JObject parsed)"
    "\<not> isPairRequest parsed" "decryptRequest Q L parsed s = Inr (d, opened)"
    "toString (jvalue opened ''type'') = qs ''verify''" "toString (jvalue opened ''nonce'') = hexOf n"
    "jvalue opened ''timestamp'' = JInteger t"
    "toString (jvalue opened ''signature'') = hexOf (edSign D seed (n @ timestampBytes t))"
proof -
  define m where "m = [(qs ''type'', JString (qs ''verify'')), (qs ''nonce'', JString (hexOf n)),
     (qs ''timestamp'', JInteger t), (qs ''signature'', JString (hexOf (edSign D seed (n @ timestampBytes t))))]"
  have flat: "flat_object m" by (simp add: flat_object_def m_def)
  obtain request parsed opened where o: "encryptEnvelope D d m p = (Inr request, p\<lparr>thrown := thrown p + 12\<rparr>)"
      "fromJson Q (utf8Encode D (jsonEncode D (JObject request))) = Some (JObject parsed)"
      "\<not> isPairRequest parsed" "decryptRequest Q L parsed s = Inr (d, opened)"
      "\<And>name. jvalue opened name = jvalue m name"
    using server_opens [OF assms(1-9) flat] by blast
  have "verifyRequest D d True challenge p = encryptEnvelope D d m p"
    by (simp add: verifyRequest_def hexField_hexOf [OF assms(4,12)] assms(12,13) m_def
        signChallenge_approved [OF assms(10,11)])
  with o(1-4) that show thesis by (simp add: o(5) m_def)
qed

section \<open>Scanning the payload\<close>

text \<open>
  X25519 is one function on both sides, agreement is symmetric, and it succeeds with a public key
  that was made from a private key: such a key is not of small order.
\<close>

definition same_agreement :: "dart \<Rightarrow> (bytes \<Rightarrow> bytes \<Rightarrow> bytes option) \<Rightarrow> bool" where
  "same_agreement D dh \<longleftrightarrow> (\<forall>a b. length a = 32 \<longrightarrow> length b = 32 \<longrightarrow>
     length (xPublic D b) = 32 \<and> dh a (xPublic D b) = Some (xShared D b (xPublic D a)))"

lemma sint_port: "sint (ucast (w :: 16 word) :: 64 word) = uint w"
proof -
  have "uint w < 2 ^ 16" using uint_bounded [of w] by simp
  then have "uint (ucast w :: 64 word) = uint w" "uint w < 2 ^ 63" by (simp_all add: unsigned_ucast_eq take_bit_int_eq_self)
  moreover have "- (2 ^ 63) \<le> uint w" by (rule order_trans [OF _ uint_ge_0]) simp
  ultimately have "signed_take_bit 63 (uint w) = uint w" by (intro signed_take_bit_int_eq_self) simp_all
  then show ?thesis using \<open>uint (ucast w :: 64 word) = uint w\<close> by (simp add: sint_uint)
qed

section \<open>Where the ceremony ends\<close>

lemma sessionKey_envelope:
  "sessionKey p = Some key \<Longrightarrow> \<exists>ob. encryptEnvelope D d m p = (Inr ob, p\<lparr>thrown := thrown p + 12\<rparr>)"
  by (simp add: encryptEnvelope_def drawNonce_def)

definition challengeRequest :: json_object where
  "challengeRequest = [(qs ''type'', JString (qs ''challenge''))]"

text \<open>The second line of a connection cannot be read.\<close>

lemma verifyCeremony_fails:
  assumes "listened p" and "sessionKey p = Some key"
  shows "\<exists>p'. verifyCeremony D d approved p = (Inl (StateError ''Stream has already been listened to.''), p')"
proof -
  obtain ob where "encryptEnvelope D d [(qs ''type'', JString (qs ''challenge''))] p = (Inr ob, p\<lparr>thrown := thrown p + 12\<rparr>)"
    using sessionKey_envelope [OF assms(2)] by blast
  with assms(1) show ?thesis
    by (simp add: verifyCeremony_def sendObject_def readEnvelope_def readLine_def)
qed

section \<open>The keys of the phone\<close>

text \<open>A new process of the app has the storage of the old one.\<close>

definition restarted :: "phone \<Rightarrow> phone" where
  "restarted p = p\<lparr>signingSeed := None, exchangeSeed := None, sessionKey := None\<rparr>"

lemma loadSigningKey_result:
  assumes "same_texts D Q" and "\<forall>n. length (newSeeds p n) = 32" and "loadSigningKey D p = (Inr x, q)"
  shows "\<exists>encoded seed. storedSeed q = Some encoded \<and> fromHexText D encoded = Some seed \<and> length seed = 32 \<and>
    signingSeed q = Some seed \<and> newSeeds q = newSeeds p"
  using assms(2,3) by (auto simp: loadSigningKey_def Let_def fromHexText_hexOf [OF assms(1)] split: option.splits if_splits)

lemma loadExchangeKey_result:
  assumes "same_texts D Q" and "\<forall>n. length (newSeeds p n) = 32" and "loadExchangeKey D p = (Inr x, q)"
  shows "\<exists>encoded seed. storedExchangeSeed q = Some encoded \<and> fromHexText D encoded = Some seed \<and> length seed = 32 \<and>
    exchangeSeed q = Some seed \<and> storedSeed q = storedSeed p \<and> signingSeed q = signingSeed p"
  using assms(2,3) by (auto simp: loadExchangeKey_def Let_def fromHexText_hexOf [OF assms(1)] split: option.splits if_splits)

text \<open>Keys that are stored are loaded.\<close>

lemma initialize_stored:
  assumes "storedSeed p = Some a" "fromHexText D a = Some seed" "length seed = 32"
    and "storedExchangeSeed p = Some b" "fromHexText D b = Some xseed" "length xseed = 32"
  shows "initialize D (restarted p) = (Inr (), p\<lparr>signingSeed := Some seed, exchangeSeed := Some xseed, sessionKey := None\<rparr>)"
  using assms by (simp add: initialize_def restarted_def loadSigningKey_def loadExchangeKey_def andThen_def)

section \<open>Proximity\<close>

text \<open>The filter of one device: its state after some readings.\<close>

definition nearAfter :: "int \<Rightarrow> int \<Rightarrow> int list \<Rightarrow> bool" where
  "nearAfter near far = foldl (\<lambda>previous rssi. if previous then far \<le> rssi else near \<le> rssi) False"

definition readingsOf :: "nat \<Rightarrow> (nat \<times> int \<times> bool) list \<Rightarrow> int list" where
  "readingsOf device results = [r. (d, r, offers) \<leftarrow> results, d = device \<and> offers]"

lemma nearAfter_snoc:
  "nearAfter near far (rs @ [r]) = (if nearAfter near far rs then far \<le> r else near \<le> r)"
  by (simp add: nearAfter_def)

lemma nearAfter_iff:
  assumes "far \<le> near"
  shows "nearAfter near far rs \<longleftrightarrow> (\<exists>before r after. rs = before @ r # after \<and> near \<le> r \<and> (\<forall>x \<in> set after. far \<le> x))"
proof (induction rs rule: rev_induct)
  case Nil
  show ?case by (simp add: nearAfter_def)
next
  case (snoc x rs)
  show ?case (is "?L \<longleftrightarrow> (\<exists>before r after. ?P before r after)")
  proof
    assume L: ?L
    show "\<exists>before r after. ?P before r after"
    proof (cases "near \<le> x")
      case True
      then have "?P rs x []" by simp
      then show ?thesis by blast
    next
      case False
      with L have "nearAfter near far rs" "far \<le> x" by (auto simp: nearAfter_snoc split: if_splits)
      then obtain before r after where "rs = before @ r # after" "near \<le> r" "\<forall>x \<in> set after. far \<le> x"
        using snoc.IH by blast
      with \<open>far \<le> x\<close> have "?P before r (after @ [x])" by simp
      then show ?thesis by blast
    qed
  next
    assume "\<exists>before r after. ?P before r after"
    then obtain before r after where p: "?P before r after" by blast
    show ?L
    proof (cases after rule: rev_cases)
      case Nil
      with p assms show ?thesis by (auto simp: nearAfter_snoc)
    next
      case (snoc ys y)
      with p have "rs = before @ r # ys" "x = y" "near \<le> r" "\<forall>x \<in> set ys. far \<le> x" "far \<le> y" by auto
      then have "nearAfter near far rs" using snoc.IH by blast
      then show ?thesis using \<open>x = y\<close> \<open>far \<le> y\<close> by (simp add: nearAfter_snoc)
    qed
  qed
qed

lemma subscribed_start [simp]: "subscribed (startProximityScan b)"
  by (simp add: startProximityScan_def)

lemma onScanResult_device:
  "nearbyDevices (onScanResult near far names (d, r, offers) b) =
   (if offers then (nearbyDevices b)(d \<mapsto> case nearbyDevices b d of Some True \<Rightarrow> far \<le> r | _ \<Rightarrow> near \<le> r)
    else nearbyDevices b)"
  by (auto simp: onProximityEvent_def Let_def split: option.split bool.split)

lemma onScanResults_device:
  "nearbyDevices (fold (onScanResult near far names) results (startProximityScan (stopScan b))) device =
   (if readingsOf device results = [] then None else Some (nearAfter near far (readingsOf device results)))"
proof (induction results rule: rev_induct)
  case Nil
  show ?case by (simp add: startProximityScan_def stopScan_def readingsOf_def)
next
  case (snoc x results)
  obtain d r offers where x: "x = (d, r, offers)" by (cases x)
  have rs: "readingsOf device (results @ [x]) = readingsOf device results @ (if d = device \<and> offers then [r] else [])"
    by (simp add: readingsOf_def x)
  show ?case
  proof (cases "d = device \<and> offers")
    case True
    then show ?thesis unfolding rs using snoc.IH
      by (simp add: x onScanResult_device nearAfter_snoc del: onScanResult.simps split: bool.split) (simp add: nearAfter_def)
  next
    case False
    then show ?thesis unfolding rs using snoc.IH by (auto simp: x onScanResult_device simp del: onScanResult.simps)
  qed
qed

text \<open>After the page is gone no scan result is looked at.\<close>

lemma disposed_page_is_silent: "onScanResults near far names results (disposePage b) = disposePage b"
  by (simp add: onScanResults_def disposePage_def disposeBle_def stopScan_def)

section \<open>The scanner\<close>

definition scannedPayload :: "dart \<Rightarrow> qstring option \<Rightarrow> pairing_payload option" where
  "scannedPayload D code = Option.bind code (\<lambda>raw. case fromRaw D raw of Inr payload \<Rightarrow> Some payload | Inl _ \<Rightarrow> None)"

lemma scan_handled: "fold (onScan D mounted) codes (True, result) = (True, result)"
  by (induction codes) (simp_all split: option.split)

text \<open>The scanner returns the first valid payload it sees, whatever comes before and after it.\<close>

lemma scanner_returns_first_valid:
  "fold (onScan D True) codes (False, None) =
     (case List.map_filter (scannedPayload D) codes of [] \<Rightarrow> (False, None) | payload # _ \<Rightarrow> (True, Some payload))"
proof (induction codes)
  case (Cons code codes)
  then show ?case
    by (cases code) (auto simp: map_filter_simps scannedPayload_def scan_handled split: sum.split)
qed (simp add: map_filter_simps)

end
