(* ===== verification/PhoneProperties.thy ===== *)
theory PhoneProperties
  imports PhoneProofs
begin

text \<open>
  The phone and the server together: what the phone makes of the pairing payload, and a login whose
  messages the phone writes and the server answers. The phone alone: where its pairing ceremony
  ends, how long it keeps its keys, and the filter of the proximity scan.
\<close>

section \<open>A reference phone\<close>

text \<open>
  Libraries that satisfy the laws, for the witnesses; the Qt record differs from \<open>ref_qt\<close> in its
  hexadecimal texts.
\<close>

definition ref_unhex :: "16 word \<Rightarrow> nat" where
  "ref_unhex c = (if c < 58 then unat c - 48 else unat c - 87)"

definition ref_dart :: dart where
  "ref_dart = \<lparr>jsonEncode = (\<lambda>v. map ucast (ref_toJson v)), jsonDecode = (\<lambda>t. ref_fromJson (map ucast t)),
     utf8Encode = map ucast, utf8Decode = (\<lambda>b. Some (map ucast b)),
     tryParse16 = (\<lambda>t. case t of [c, d] \<Rightarrow> Some (int (16 * ref_unhex c + ref_unhex d)) | _ \<Rightarrow> None),
     edPublic = (\<lambda>seed. seed), edSign = (\<lambda>seed m. seed @ sum_list m # replicate 31 0),
     xPublic = ref_clamp, xShared = (\<lambda>seed remote. map2 (XOR) remote (ref_clamp seed)),
     aesSeal = (\<lambda>key iv a m. (ref_mask m, ref_gtag key iv a (ref_mask m))),
     aesOpen = (\<lambda>key iv a c t. if ref_gtag key iv a c = t then Some (ref_mask c) else None),
     describe = (\<lambda>err. case err of StateError m \<Rightarrow> qs ''Bad state: '' @ qs m | _ \<Rightarrow> qs ''error''), showInt = (\<lambda>n. replicate n 49)\<rparr>"

definition phone_qt :: qt where
  "phone_qt = ref_qt\<lparr>toHex := (\<lambda>b. map ucast (hexOf b)),
     fromHex := (\<lambda>t. case fromHexText ref_dart (map ucast t) of Some b \<Rightarrow> b | None \<Rightarrow> [])\<rparr>"

lemma below_16: "n < 16 \<Longrightarrow> n \<in> {0, 1, 2, 3, 4, 5, 6, 7, 8, 9, 10, 11, 12, 13, 14, 15 :: nat}"
  unfolding insert_iff empty_iff by arith

lemma nibbles: "unat (b :: byte) div 16 < 16" "unat b mod 16 < 16"
proof -
  have "unat b < 2 ^ LENGTH(8)" by (rule unsigned_less)
  then show "unat b div 16 < 16" by simp
qed simp

lemma hexDigit_facts:
  assumes "n < 16"
  shows "ref_unhex (hexDigit n) = n" and "ucast (ucast (hexDigit n) :: byte) = hexDigit n"
  using below_16 [OF assms] by (auto simp: hexDigit_def ref_unhex_def)

lemma hexOf_latin1: "map ucast (map ucast (hexOf b) :: bytes) = hexOf b"
proof (induction b)
  case (Cons x b)
  then show ?case by (simp add: hexOf_def hexDigit_facts nibbles)
qed (simp add: hexOf_def)

lemma ref_same_texts: "same_texts ref_dart phone_qt"
proof -
  have "tryParse16 ref_dart [hexDigit (unat b div 16), hexDigit (unat b mod 16)] = Some (uint b)" for b :: byte
  proof -
    have "tryParse16 ref_dart [hexDigit (unat b div 16), hexDigit (unat b mod 16)] = Some (int (unat b))"
      by (simp add: ref_dart_def hexDigit_facts(1) nibbles zdiv_int zmod_int del: of_nat_unat)
    then show ?thesis by simp
  qed
  then show ?thesis using hexOf_latin1
    by (simp add: same_texts_def phone_qt_def hexText_def) (simp add: ref_qt_def ref_dart_def)
qed

lemma phone_qt_laws: "qt_laws phone_qt"
proof -
  have "json_laws ref_qt" "number_laws ref_qt" "hex_laws ref_qt" using ref_qt_laws by (simp_all add: qt_laws_def)
  moreover have "fromHex phone_qt (toHex phone_qt b) = b" for b
    by (simp add: phone_qt_def hexOf_latin1 fromHexText_hexOf [OF ref_same_texts] del: map_map)
  ultimately show ?thesis
    by (simp add: qt_laws_def json_laws_def number_laws_def hex_laws_def) (simp add: phone_qt_def)
qed

lemma ref_same_json: "same_json ref_dart phone_qt"
proof -
  have "map ucast (map ucast (b :: bytes) :: qstring) = b" for b by (simp add: ucast_up_down comp_def)
  moreover have "ref_toJson (JObject ob) \<noteq> []" for ob by (simp add: ref_toJson_def)
  ultimately show ?thesis
    using ref_json_roundtrip by (simp add: same_json_def ref_dart_def phone_qt_def ref_qt_def del: map_map)
qed

lemma ref_same_crypto: "same_crypto ref_dart ref_gcm ref_valid"
  by (simp add: same_crypto_def ref_dart_def ref_gcm_def ref_valid_def)

lemma ref_same_agreement: "same_agreement ref_dart ref_agree"
proof -
  have "ref_clamp b \<noteq> replicate 32 0" and "length b = 32 \<Longrightarrow> length (ref_clamp b) = 32" for b
    by (simp_all add: ref_clamp_def)
  then show ?thesis by (simp add: same_agreement_def ref_dart_def ref_agree_def ref_dh_def)
qed

definition demoPhone :: phone where
  "demoPhone = \<lparr>storedSeed = None, storedExchangeSeed = None, signingSeed = Some (replicate 32 1),
     exchangeSeed = Some (replicate 32 2), sessionKey = Some (replicate 32 5), listened = False,
     incoming = [ref_toJson (JObject [(qs ''accepted'', JBool True)]) @ [10]], ending = SocketException,
     written = [], statusText = [], newSeeds = (\<lambda>_. replicate 32 4), seedsUsed = 0, dice = (\<lambda>_. 6), thrown = 0\<rparr>"

section \<open>The phone and the server\<close>

text \<open>C10: the phone understands what the workstation shows. From the text of the pairing payload it reads
  the workstation's key and a code, if the port is not 0; with them it derives a session key, and its
  pair request, processed within 300 seconds of the code, makes the server store the phone's signing
  key and the same session key. The agreement cannot fail here: both public keys were made from
  private ones.\<close>

theorem phone_pairs_by_payload:
  assumes "qt_laws Q" and "x25519_laws L dh" and "same_json D Q" and "same_texts D Q"
    and "same_crypto D G valid" and "same_agreement D dh"
    and "length (privateKey (x25519KeyPair s)) = 32"
    and "publicKey (x25519KeyPair s) = xPublic D (privateKey (x25519KeyPair s))"
    and "port s \<noteq> 0" and "pcId s \<noteq> []"
    and "pairingPayload Q host addresses s e = (payload, s1, e1)"
    and "sint (clock e1 (ticks e1) - pairingCreatedAt s1) \<le> 300"
    and "signingSeed p = Some seed" "length seed = 32" "exchangeSeed p = Some xseed" "length xseed = 32"
  shows "\<exists>raw scanned shared. utf8Decode D payload = Some raw \<and> fromRaw D raw = Inr scanned \<and>
    payloadPort scanned = ucast (port s) \<and> payloadHost scanned = chooseEndpoint host addresses \<and>
    establishSession D (payloadKey scanned) p = (Inr (), p\<lparr>sessionKey := Some shared\<rparr>) \<and>
    (let line = utf8Encode D (jsonEncode D (JObject (pairRequest (edPublic D seed) (xPublic D xseed) (payloadCode scanned))));
         s2 = fst (processLine Q L k line s1 e1)
     in pairedKeys s2 (hexOf (edPublic D seed)) = Some (edPublic D seed) \<and>
        sessionKeys s2 (hexOf (edPublic D seed)) = Some shared)"
proof -
  define priv where "priv = privateKey (x25519KeyPair s)"
  have pub: "publicKey (x25519KeyPair s) = xPublic D priv" "length (xPublic D priv) = 32" "length (xPublic D xseed) = 32"
      "dh priv (xPublic D xseed) = Some (xShared D xseed (xPublic D priv))"
    using assms(6,7,8,16) by (simp_all add: priv_def same_agreement_def)
  define ob where "ob = payloadObject Q (chooseEndpoint host addresses) s1"
  have r: "refreshCode Q s e = (s1, e1)" and payload: "payload = toJson Q (JObject ob)"
    using assms(11) by (auto simp: pairingPayload_def ob_def Let_def split: prod.splits)
  have s1: "privateKey (x25519KeyPair s1) = priv" "publicKey (x25519KeyPair s1) = publicKey (x25519KeyPair s)"
      "port s1 = port s" "pcId s1 = pcId s" "pairingCode s1 \<noteq> []"
    using refreshCode_frame [of Q s e] refreshCode_not_empty [of Q s e] by (simp_all add: r priv_def)
  obtain raw received where raw: "utf8Decode D payload = Some raw" "jsonDecode D raw = Some (JObject received)"
      "\<And>name. jvalue received name = jvalue ob name"
    unfolding payload using phone_reads [OF assms(3) flat_payloadObject] unfolding ob_def by blast
  define scanned where "scanned = \<lparr>payloadHost = chooseEndpoint host addresses, payloadPort = ucast (port s),
      payloadPcId = hexOf (pcId s), payloadKey = hexOf (xPublic D priv), payloadCode = pairingCode s1\<rparr>"
  have "uint (port s) \<noteq> 0" using assms(9) by (simp add: uint_0_iff)
  moreover have "0 \<le> uint (port s)" "uint (port s) < 65536" using uint_bounded [of "port s"] by simp_all
  ultimately have port_ok: "1 \<le> uint (port s)" "uint (port s) \<le> 65535" by linarith+
  have "hexOf (pcId s) \<noteq> []" using assms(10) length_hexOf [of "pcId s"] by (metis length_0_conv mult_eq_0_iff zero_neq_numeral)
  then have scan: "fromRaw D raw = Inr scanned"
    using assms(4) port_ok s1(5) pub(1,2)
    by (simp add: fromRaw_def raw(2,3) ob_def payloadObject_def s1 same_texts_def equalsOne_def sint_port scanned_def)
  define shared where "shared = xShared D xseed (xPublic D priv)"
  have "initialize D p = (Inr (), p)" using assms(13) by (intro initialize_done) simp
  then have session: "establishSession D (payloadKey scanned) p = (Inr (), p\<lparr>sessionKey := Some shared\<rparr>)"
    by (simp add: establishSession_def scanned_def fromHexText_hexOf [OF assms(4)] pub(2) assms(15) shared_def)
  define request where "request = pairRequest (edPublic D seed) (xPublic D xseed) (pairingCode s1)"
  have "flat_object request" by (simp add: request_def pairRequest_def flat_object_def)
  then obtain parsed where parsed: "fromJson Q (utf8Encode D (jsonEncode D (JObject request))) = Some (JObject parsed)"
      "\<And>name. jvalue parsed name = jvalue request name"
    using server_reads [OF assms(3)] by blast
  have hl: "hex_laws Q" using assms(1) by (simp add: qt_laws_def)
  have unhex: "unhexText Q (hexOf b) = b" for b
    using hex_field.dec_enc [OF hl, of b] assms(4) by (simp add: same_texts_def)
  have len: "length (edPublic D seed) = 32" using assms(5,14) by (simp add: same_crypto_def)
  have "hexOf (edPublic D seed) \<noteq> []"
    using length_hexOf [of "edPublic D seed"] len by (metis list.size(3) mult_eq_0_iff zero_neq_numeral)
  with len have "isPairRequest parsed" "pairable Q parsed s1 (clock e1 (ticks e1))"
    using assms(12) pub(3) len by (simp_all add: parsed(2) request_def pairRequest_def pairable_def unhex)
  moreover have "dh (privateKey (x25519KeyPair s1)) (deviceKeyOf Q parsed) = Some shared"
    by (simp add: s1(1) parsed(2) request_def pairRequest_def unhex pub(4) shared_def)
  ultimately have "fst (processLine Q L k (utf8Encode D (jsonEncode D (JObject request))) s1 e1) = writeLine Q k (pairedReply Q s1)
      (pairedState (hexOf (edPublic D seed)) (edPublic D seed) shared s1)"
    using pair_line_accepted [OF assms(2) _ parsed(1), of s1 e1 shared k] assms(7)
    by (simp add: s1(1) priv_def [symmetric] parsed(2) request_def pairRequest_def unhex)
  then show ?thesis
    using raw(1) scan session by (auto simp: scanned_def request_def Let_def)
qed

lemma desk_key_not_zero: "readBuf 32 (of_nat :: nat \<Rightarrow> byte) \<noteq> replicate 32 0"
proof
  assume "readBuf 32 (of_nat :: nat \<Rightarrow> byte) = replicate 32 0"
  then have "readBuf 32 (of_nat :: nat \<Rightarrow> byte) ! 1 = replicate 32 0 ! 1" by (rule arg_cong)
  then show False by (simp add: readBuf_def)
qed

lemma desk_agreement:
  "publicKey (x25519KeyPair desk) = xPublic ref_dart (privateKey (x25519KeyPair desk))" "port desk \<noteq> 0" "pcId desk \<noteq> []"
  by (simp_all add: desk_def newServer_def Let_def generateX25519KeyPair_def evp_step_def ref_ssl_def ref_evp_def
      ref_evp_raw_def ref_dart_def ref_clamp_def desk_key_not_zero ref_qt_def ref_toHex_def ref_hostBytes_def upt_rec digits_def generate64_def split: prod.split)

lemma demoPublic: "edPublic ref_dart seed = seed"
  by (simp add: ref_dart_def)

theorem phone_pairs_by_payload_witness:
  "\<exists>(s2 :: server) shared. pairedKeys s2 (hexOf (replicate 32 1)) = Some (replicate 32 1) \<and>
     sessionKeys s2 (hexOf (replicate 32 1)) = Some shared \<and>
     (\<exists>text1. establishSession ref_dart text1 demoPhone = (Inr (), demoPhone\<lparr>sessionKey := Some shared\<rparr>))"
proof -
  obtain payload s1 e1 where p: "pairingPayload phone_qt [] [] desk quietEnv = (payload, s1, e1)"
    by (metis prod_cases3)
  have "clock e1 = (\<lambda>_. 1000)" "pairingCreatedAt s1 = 1000"
    using p by (auto simp: pairingPayload_def refreshCode_def desk_facts newPairingCode_def generate64_def
        currentSecs_def quietEnv_def Let_def)
  then have "sint (clock e1 (ticks e1) - pairingCreatedAt s1) \<le> 300" by simp
  from phone_pairs_by_payload [where L = ref_ssl and p = demoPhone, OF phone_qt_laws ref_x25519_laws ref_same_json
      ref_same_texts ref_same_crypto ref_same_agreement desk_facts(1) desk_agreement p this, of "replicate 32 1" "replicate 32 2"]
  have "\<exists>raw scanned shared. utf8Decode ref_dart payload = Some raw \<and> fromRaw ref_dart raw = Inr scanned \<and>
    payloadPort scanned = ucast (port desk) \<and> payloadHost scanned = chooseEndpoint [] [] \<and>
    establishSession ref_dart (payloadKey scanned) demoPhone = (Inr (), demoPhone\<lparr>sessionKey := Some shared\<rparr>) \<and>
    (let line = utf8Encode ref_dart (jsonEncode ref_dart (JObject (pairRequest (edPublic ref_dart (replicate 32 1)) (xPublic ref_dart (replicate 32 2)) (payloadCode scanned))));
         s2 = fst (processLine phone_qt ref_ssl 7 line s1 e1)
     in pairedKeys s2 (hexOf (edPublic ref_dart (replicate 32 1))) = Some (edPublic ref_dart (replicate 32 1)) \<and>
        sessionKeys s2 (hexOf (edPublic ref_dart (replicate 32 1))) = Some shared)"
    by (simp add: demoPhone_def)
  then show ?thesis unfolding Let_def demoPublic by (elim exE conjE) (intro exI conjI; assumption)
qed

text \<open>C11: a login with the phone works. The phone opens the server's challenge, signs its nonce and
  time once the fingerprint was approved, and the server, whatever happened to it since, opens the
  phone's answer; the phone opens what the server says to it, and that is \<open>authorized\<close> exactly if the
  challenge is still fresh and was not used before. Both sides must encode the device id alike, as they
  do every text without unpaired surrogates; the app's id is a hexadecimal text.\<close>

theorem phone_login:
  assumes "qt_laws Q" and "gcm_laws L G" and "ed25519_laws L valid"
    and "same_json D Q" and "same_texts D Q" and "same_crypto D G valid"
    and "signingSeed p = Some seed" "length seed = 32" "sessionKey p = Some key" "length key = 32"
    and "sessionKeys s d = Some key"
    and "sessionKeys s' d = Some key" "pairedKeys s' d = Some (edPublic D seed)"
    and "toUtf8 Q d = utf8Encode D d"
  shows "\<exists>received challenge request p' parsed answer reply.
    phoneParses D (toJson Q (JObject (fst (challengeResponse Q L d s e)))) = Some (JObject received) \<and>
    decryptEnvelope D d received p = (Inr challenge, p) \<and>
    verifyRequest D d True challenge p = (Inr request, p') \<and>
    fromJson Q (utf8Encode D (jsonEncode D (JObject request))) = Some (JObject parsed) \<and>
    phoneParses D (toJson Q (JObject (fst (respond Q L parsed s' e')))) = Some (JObject answer) \<and>
    decryptEnvelope D d answer p' = (Inr reply, p') \<and>
    jvalue reply ''authorized'' = JBool (isFreshTimestamp (clock e (ticks e)) (clock e' (ticks e')) \<and>
      (replayToken Q (fst (fillRandom Q 32 e)) (clock e (ticks e)) \<in> seen (replayGuard s') \<longrightarrow>
       sint (clock e' (Suc (ticks e')) - lastCleanup (replayGuard s')) > 60))"
proof -
  define n where "n = fst (fillRandom Q 32 e)"
  define t where "t = clock e (ticks e)"
  have laws: "number_laws Q" "hex_laws Q" using assms(1) by (simp_all add: qt_laws_def)
  have n: "length n = 32" by (simp add: n_def length_fillRandom [OF laws(1)])
  have flat: "flat_object (challengeObject Q n t)" by (simp add: challengeObject_def flat_object_def)
  obtain received challenge where c:
      "phoneParses D (toJson Q (JObject (fst (challengeResponse Q L d s e)))) = Some (JObject received)"
      "decryptEnvelope D d received p = (Inr challenge, p)"
      "\<And>name. jvalue challenge name = jvalue (challengeObject Q n t) name"
    unfolding challengeResponse_eq n_def t_def
    using phone_opens_response [OF assms(1,2,4,5,6,14,11,10,9) flat [unfolded n_def t_def]] by blast
  have "jvalue challenge ''nonce'' = JString (hexOf n)" "jvalue challenge ''timestamp'' = JInteger t"
    using assms(5) by (simp_all add: c(3) challengeObject_def same_texts_def)
  then obtain request parsed opened where v:
      "verifyRequest D d True challenge p = (Inr request, p\<lparr>thrown := thrown p + 12\<rparr>)"
      "fromJson Q (utf8Encode D (jsonEncode D (JObject request))) = Some (JObject parsed)"
      "\<not> isPairRequest parsed" "decryptRequest Q L parsed s' = Inr (d, opened)"
      "toString (jvalue opened ''type'') = qs ''verify''" "toString (jvalue opened ''nonce'') = hexOf n"
      "jvalue opened ''timestamp'' = JInteger t"
      "toString (jvalue opened ''signature'') = hexOf (edSign D seed (n @ timestampBytes t))"
    using verifyRequest_opens [OF assms(1,2,4,5,6,14,12,10,9,7) n] by blast
  have unhex: "unhexText Q (hexOf b) = b" for b
    using hex_field.dec_enc [OF laws(2), of b] assms(5) by (simp add: same_texts_def)
  define ok where "ok = (isFreshTimestamp t (clock e' (ticks e')) \<and> (replayToken Q n t \<in> seen (replayGuard s') \<longrightarrow>
      sint (clock e' (Suc (ticks e')) - lastCleanup (replayGuard s')) > 60))"
  have "n \<noteq> []" using n by auto
  moreover have "toLongLong Q (JInteger t) = t" using laws(1) by (simp add: number_laws_def)
  ultimately have sign: "maySign valid Q s' e' d (unhexText Q (toString (jvalue opened ''nonce'')))
      (toLongLong Q (jvalue opened ''timestamp'')) (unhexText Q (toString (jvalue opened ''signature''))) = ok"
    using assms(6,8,13) by (simp add: v(6-8) unhex maySign_def ok_def same_crypto_def)
  obtain response s2 e2 where r: "respond Q L parsed s' e' = (response, s2, e2)" by (metis prod_cases3)
  obtain e1 where "response = fst (encryptedResponse Q L d (verdict ok) s' e1)"
    by (rule verify_response [OF assms(3) v(4,3,5) r]) (simp add: sign)
  moreover have "sessionKey (p\<lparr>thrown := thrown p + 12\<rparr>) = Some key" using assms(9) by simp
  ultimately obtain answer reply where "phoneParses D (toJson Q (JObject response)) = Some (JObject answer)"
      "decryptEnvelope D d answer (p\<lparr>thrown := thrown p + 12\<rparr>) = (Inr reply, p\<lparr>thrown := thrown p + 12\<rparr>)"
      "\<And>name. jvalue reply name = jvalue (verdict ok) name"
    using phone_opens_response [OF assms(1,2,4,5,6,14,12,10) _ flat_payloads(1)] by blast
  then show ?thesis
    using c(1,2) v(1,2) by (simp add: r verdict_def ok_def n_def t_def)
qed

theorem phone_login_witness:
  "\<exists>reply answer p'. decryptEnvelope ref_dart (qs ''phone'') answer p' = (Inr reply, p') \<and>
     jvalue reply ''authorized'' = JBool True"
proof -
  have "edPublic ref_dart (replicate 32 1) = replicate 32 1" by (simp add: ref_dart_def)
  moreover have "isFreshTimestamp (clock quietEnv (ticks quietEnv)) (clock quietEnv (ticks quietEnv))"
    by (simp add: quietEnv_def isFreshTimestamp_def qAbs_def)
  moreover have "toUtf8 phone_qt d = utf8Encode ref_dart d" for d
    by (simp add: phone_qt_def ref_qt_def ref_dart_def)
  moreover have "seen (replayGuard pairedDesk) = {}" by (simp add: pairedDesk_keys newReplayGuard_def)
  ultimately show ?thesis
    using phone_login [OF phone_qt_laws ref_gcm_laws ref_ed25519_laws ref_same_json ref_same_texts ref_same_crypto
        _ _ _ _ pairedDesk_keys(1) pairedDesk_keys(1), where p = demoPhone and seed = "replicate 32 1"
          and e = quietEnv and e' = quietEnv]
    by (simp add: demoPhone_def pairedDesk_keys) blast
qed

section \<open>The phone\<close>

text \<open>C29: no pairing of the phone ends well. When the server accepts the pair request, the phone goes on
  to ask for a challenge on the same connection, listens to its socket a second time, and shows that
  pairing failed, although from then on the server has its keys.\<close>

theorem accepted_pairing_shown_as_failed:
  assumes "signingSeed p = Some seed" and "exchangeSeed p = Some xseed"
    and "fromHexText D (payloadKey payload) = Some remote" "length remote = 32"
    and "gather [] (incoming p) = Some (line, rest)" and "utf8Decode D line = Some text1"
    and "jsonDecode D text1 = Some (JObject answer)" and "jvalue answer ''accepted'' = JBool True"
  shows "statusText (pairFromQr D True approved None payload p) =
    qs ''Pairing failed: '' @ describe D (StateError ''Stream has already been listened to.'')"
proof -
  define p0 where "p0 = p\<lparr>listened := False, written := []\<rparr>"
  have keys: "signingSeed p0 = Some seed" "exchangeSeed p0 = Some xseed" "incoming p0 = incoming p" "\<not> listened p0"
    using assms(1,2) by (simp_all add: p0_def)
  have init: "initialize D p0 = (Inr (), p0)" by (rule initialize_done) (simp add: keys)
  define p1 where "p1 = p0\<lparr>sessionKey := Some (xShared D xseed remote)\<rparr>"
  have session: "establishSession D (payloadKey payload) p0 = (Inr (), p1)"
    by (simp add: establishSession_def init assms(3,4) keys p1_def)
  define ob where "ob = pairRequest (edPublic D seed) (xPublic D xseed) (payloadCode payload)"
  define p2 where "p2 = p1\<lparr>written := written p1 @ utf8Encode D (jsonEncode D (JObject ob)) @ [10]\<rparr>"
  have send: "sendObject D ob p1 = (Inr (), p2)" by (simp add: sendObject_def p2_def)
  define p3 where "p3 = p2\<lparr>listened := True, incoming := rest\<rparr>"
  have read: "readLine D p2 = (Inr text1, p3)"
    using keys(3,4) assms(5,6) by (simp add: readLine_def p2_def p1_def p3_def)
  have "listened p3" "sessionKey p3 = Some (xShared D xseed remote)" by (simp_all add: p3_def p2_def p1_def)
  from verifyCeremony_fails [OF this, of D "hexOf (edPublic D seed)" approved] obtain p4 where
      fails: "verifyCeremony D (hexOf (edPublic D seed)) approved p3 =
        (Inl (StateError ''Stream has already been listened to.''), p4)" by blast
  have "pairCeremony D approved None payload p0 = (Inl (StateError ''Stream has already been listened to.''), p4)"
    by (simp add: pairCeremony_def phonePublicKey_def exchangePublicKey_def signingKeyPair_def exchangeKeyPair_def
        init keys session ob_def [symmetric] send read assms(7,8) fails)
  then show ?thesis by (simp add: pairFromQr_def p0_def)
qed

theorem accepted_pairing_shown_as_failed_witness:
  "statusText (pairFromQr ref_dart True True None \<lparr>payloadHost = [49], payloadPort = 7, payloadPcId = [49],
     payloadKey = hexOf (replicate 32 3), payloadCode = [50]\<rparr> demoPhone) =
   qs ''Pairing failed: '' @ qs ''Bad state: '' @ qs ''Stream has already been listened to.''"
proof -
  define m where "m = ref_toJson (JObject [(qs ''accepted'', JBool True)])"
  have "10 \<notin> set m" unfolding m_def by (rule no_newline_json)
  then have "\<forall>b \<in> set m. b \<noteq> 10" by blast
  then have "takeWhile (\<lambda>b. b \<noteq> 10) (m @ [10]) = m" by simp
  then have "gather [] (incoming demoPhone) = Some (m, [])" by (simp add: demoPhone_def m_def [symmetric])
  moreover have "jsonDecode ref_dart (map ucast m) = Some (JObject [(qs ''accepted'', JBool True)])"
    by (simp add: ref_dart_def comp_def ucast_up_down m_def ref_json_roundtrip flat_object_def)
  moreover have "utf8Decode ref_dart m = Some (map ucast m)" by (simp add: ref_dart_def)
  ultimately show ?thesis
    using accepted_pairing_shown_as_failed [of demoPhone "replicate 32 1" "replicate 32 2" ref_dart
        "\<lparr>payloadHost = [49], payloadPort = 7, payloadPcId = [49], payloadKey = hexOf (replicate 32 3), payloadCode = [50]\<rparr>"
        "replicate 32 3" m "[]" "map ucast m" "[(qs ''accepted'', JBool True)]" True]
    by (simp add: fromHexText_hexOf [OF ref_same_texts]) (simp add: demoPhone_def ref_dart_def)
qed

text \<open>C30: the phone keeps its identity. Whether its keys are stored or drawn when the app starts, every
  later start of the app loads the same two keys.\<close>

theorem identity_survives_restart:
  assumes "same_texts D Q" and "\<forall>n. length (newSeeds p n) = 32"
    and "initialize D (restarted p) = (Inr (), p1)"
  shows "initialize D (restarted p1) = (Inr (), p1\<lparr>sessionKey := None\<rparr>) \<and> signingSeed p1 \<noteq> None \<and> exchangeSeed p1 \<noteq> None"
proof -
  have "andThen (loadSigningKey D) (\<lambda>_. loadExchangeKey D) (restarted p) = (Inr (), p1)"
    using assms(3) by (simp add: initialize_def restarted_def)
  then obtain x p2 where 1: "loadSigningKey D (restarted p) = (Inr x, p2)" and 2: "loadExchangeKey D p2 = (Inr (), p1)"
    by (rule andThen_result)
  have "\<forall>n. length (newSeeds (restarted p) n) = 32" using assms(2) by (simp add: restarted_def)
  from loadSigningKey_result [OF assms(1) this 1] obtain a seed where s: "storedSeed p2 = Some a"
      "fromHexText D a = Some seed" "length seed = 32" "signingSeed p2 = Some seed"
      "newSeeds p2 = newSeeds (restarted p)" by blast
  then have "\<forall>n. length (newSeeds p2 n) = 32" using assms(2) by (simp add: restarted_def)
  from loadExchangeKey_result [OF assms(1) this 2] obtain b xseed where x: "storedExchangeSeed p1 = Some b"
      "fromHexText D b = Some xseed" "length xseed = 32" "exchangeSeed p1 = Some xseed"
      "storedSeed p1 = storedSeed p2" "signingSeed p1 = signingSeed p2" by blast
  have "p1\<lparr>signingSeed := Some seed, exchangeSeed := Some xseed, sessionKey := None\<rparr> = p1\<lparr>sessionKey := None\<rparr>"
    using s(4) x(4,6) by (cases p1) simp
  with initialize_stored [of p1 a D seed b xseed] s x show ?thesis by simp
qed

theorem identity_survives_restart_witness:
  "\<exists>p1. initialize ref_dart (restarted demoPhone) = (Inr (), p1) \<and> signingSeed p1 = Some (replicate 32 4) \<and>
     initialize ref_dart (restarted p1) = (Inr (), p1\<lparr>sessionKey := None\<rparr>)"
proof -
  have "\<forall>n. length (newSeeds demoPhone n) = 32" by (simp add: demoPhone_def)
  moreover obtain p1 where p1: "initialize ref_dart (restarted demoPhone) = (Inr (), p1)" "signingSeed p1 = Some (replicate 32 4)"
    by (simp add: initialize_def restarted_def loadSigningKey_def loadExchangeKey_def demoPhone_def Let_def)
  ultimately show ?thesis using identity_survives_restart [OF ref_same_texts] by blast
qed

text \<open>C31: the proximity filter has hysteresis. After any scan results since the scan was started anew, in
  any mixture of devices, a device counts as nearby exactly if one of its readings reached the near
  threshold and none since fell below the far threshold; readings of devices that do not offer the
  service do not count.\<close>

theorem proximity_has_hysteresis:
  assumes "far \<le> near"
  shows "nearbyDevices (onScanResults near far names results (startProximityScan (stopScan b))) device = Some True \<longleftrightarrow>
    (\<exists>before r after. readingsOf device results = before @ r # after \<and> near \<le> r \<and> (\<forall>x \<in> set after. far \<le> x))"
  using nearAfter_iff [OF assms] by (auto simp: onScanResults_def onScanResults_device)

theorem proximity_has_hysteresis_witness:
  "nearbyDevices (onScanResults (- 70) (- 82) (\<lambda>_. []) [(1, - 69, True), (2, - 90, True), (1, - 81, True)]
     (startProximityScan (stopScan \<lparr>subscribed = False, nearbyDevices = Map.empty, proximityEvents = [], eventsClosed = False,
        switchOn = True, watching = True, pageText = []\<rparr>))) 1 = Some True"
  by (subst proximity_has_hysteresis) (auto simp: readingsOf_def intro!: exI [of _ "[]"])

end
