(* ===== verification/Spec2Isabelle.thy ===== *)
theory Spec2Isabelle
  imports Traces DaemonProperties ComProperties Credential Program PhoneProperties
begin

text \<open>
  OpenBioUnlock: unlocking a workstation with a phone. The repository holds a Qt desktop program
  (\<open>src/\<close>) that pairs phones and checks their signatures over an encrypted line protocol, a PAM
  module (\<open>linux-pam/\<close>) and a Windows credential provider (\<open>windows-cp/\<close>) that ask a daemon
  whether a user may log in, that daemon (\<open>daemon/\<close>, Rust) and a phone app (\<open>mobile/\<close>, Dart). This
  development models their code and proves what it promises.

  \<^bold>\<open>Parts and theories.\<close>
  \<^item> \<open>Prelude\<close>: bytes, Qt texts, the environment (successive readings of the clock and of the random
    generator), facts on words. \<open>Platform\<close>: Qt and OpenSSL as records of functions with their
    documented behaviour as named laws. \<open>Reference\<close>: concrete records that satisfy the laws, for the
    witnesses. \<open>Contracts\<close>: the contracts between components as locales.
  \<^item> \<open>Crypto\<close> models \<open>src/core/crypto.cpp\<close>: key generation and agreement, AES-256-GCM, Ed25519 and
    the freshness test, each as its sequence of EVP calls. \<open>Replay\<close> models \<open>ReplayGuard\<close>.
  \<^item> \<open>Envelope\<close>, \<open>Framing\<close>, \<open>Server\<close> model \<open>src/core/server.cpp\<close>: the record \<open>server\<close> has the
    members of \<open>class Server\<close>, one definition stands for each method and slot, and signals and socket
    writes are appended to \<open>outbox\<close>. \<open>ServerFraming\<close>, \<open>Pairing\<close>, \<open>Authorization\<close>, \<open>Clients\<close>,
    \<open>Lifecycle\<close> and \<open>Traces\<close> hold its theorems: the receive loop, the pairing code, who is
    authorized, what clients can do, the invariant of all reachable states, and agreement of
    authorizations with pairings in every run.
  \<^item> \<open>Pam\<close> models \<open>linux-pam/pam_openbiounlock.c\<close> over a kernel that answers every \<open>poll\<close>, \<open>write\<close>
    and \<open>read\<close>, with the daemon's replies as \<open>serde_json\<close> writes them.
  \<^item> \<open>Daemon\<close> models \<open>daemon/src/\<close>: the key store (\<open>store.rs\<close>), the signature check (\<open>crypto.rs\<close>) and
    the connections (\<open>handle_stream\<close> in \<open>server.rs\<close>) as tasks that share the table of pending
    authorizations, the vault and the system clock, whose steps interleave in any order with changes
    of the clock (\<open>daemon_step\<close>, \<open>daemon_run\<close>); \<open>clock_at\<close> and \<open>happened_at\<close> read off a trace what the
    clock showed when an event happened.
    \<open>DaemonProofs\<close> has the invariant, \<open>DaemonProperties\<close> the results, alone and together with
    the PAM module.
  \<^item> \<open>Com\<close> models \<open>windows-cp/\<close>: a heap of COM objects with reference counts, the class factory, the
    exported functions, and all methods of the two interfaces. \<open>ComProofs\<close> has the reference
    counting contract and the runs of a client that keeps the rules of COM, \<open>ComProperties\<close> the
    results.
  \<^item> \<open>Credential\<close> models \<open>src/core/credential.cpp\<close> in its three builds over an operating system that is
    a parameter.
  \<^item> \<open>Dashboard\<close> models \<open>src/ui/main_window.cpp\<close>, \<open>src/core/ble_discovery.cpp\<close>,
    \<open>src/ui/pairing_dialog.cpp\<close> and the start in \<open>src/main.cpp\<close>: the window is the contents of its
    widgets and is fed by the signals of the server. \<open>Window\<close> has the results. \<open>Program\<close> models the run
    of \<open>main\<close> from the start of the server to the exit code.
  \<^item> \<open>Phone\<close> models \<open>mobile/lib/\<close>: \<open>CryptoService\<close> and the pairing ceremony as actions on the state of
    the app that return a value or throw an error, the scanner, and the proximity filter.
    \<open>PhoneProofs\<close> relates the libraries of the two ends, \<open>PhoneProperties\<close> has the results.

  \<^bold>\<open>How the parts interact.\<close> \<open>main\<close> starts the server and connects the window to its signals
  (\<open>application\<close>); the window asks the server for the pairing payload (\<open>showPairing\<close>). The server
  calls \<open>Crypto\<close> and \<open>Replay\<close>, through the contracts \<open>sealed_channel\<close> and \<open>codec\<close>, and frames its
  input by the contract \<open>line_reader\<close>. The credential store keeps the contract \<open>vault\<close>, the COM objects
  the contract \<open>ref_counted\<close>. The phone and the server meet in the lines they write: the laws
  \<open>same_json\<close>, \<open>same_texts\<close>, \<open>same_crypto\<close> and \<open>same_agreement\<close> say that their libraries do the same.
  The PAM module and the credential provider reach the daemon at the addresses it listens on. Every
  contract is interpreted on the model of the code that provides it.

  \<^bold>\<open>What the theorems show.\<close> The server: authorization needs the signature of a paired key over a fresh
  nonce that was not accepted before (with the exact limits of the guard), keys change only by pairing
  with the current code, the receive loop is independent of how the stream is cut, the encrypted
  channel opens exactly what was sealed, the invariant of all reachable states, starting and stopping. The PAM
  module: success needs the daemon's authorized line, it returns once interruptions end, and of all the
  daemon's replies it accepts the right one. The daemon: in every interleaving, from any content
  of the vault, a login needs a signature of what was drawn for it, checked within 30 seconds of the
  drawing by the daemon's clock, by a key stored at the start or enrolled since; who can enrol a key,
  and which key is lost; which verification grants its login and which one is lost. Both together: what
  stands behind a login that the PAM module grants. The credential provider: exact counts and no use after
  free, and what leaks. The vault: a map from names to secrets with libsecret; on Windows no secret
  can be read back. The window: its invariant, its log and device list, that its Bluetooth scan is never
  restarted, and that it never shows the server as running; the program serves as long as it runs. The phone: with the server, pairing and
  login work message by message, but its own ceremony stops after the first answer; it keeps its keys,
  and its proximity filter has hysteresis.

  \<^bold>\<open>Bounds and termination.\<close> Machine integers keep their width: clock values and timestamps are 64-bit
  words read as signed, COM counts and \<open>DWORD\<close>s 32-bit words, ports 16-bit words. Results on freshness
  and replay assume a clock that does not run backwards and stays below \<open>2^61\<close>. No definition uses
  fuel: the receive loop, the log loop and the threshold recursion end by a measure; the loops of the PAM
  module, which may run for ever, are partial functions whose value \<open>None\<close> is not returning, and
  \<open>pam_returns\<close> says when they return. COM counts are exact below \<open>2^31\<close> references.

  \<^bold>\<open>Idealisations.\<close> A slot runs to its end before the next one (the event loop has one thread); the mutex
  of the replay guard and the interlocked operations make a call one step. In the daemon a step is one
  access to the shared state or the clock, and the timeout may come at any time of a wait. X25519 agreement
  may fail, as it does in OpenSSL for a peer key of small order; between the phone and the server, whose
  public keys are made from private ones, it does not. Qt's JSON and number
  conversions are parameters with laws; the phone runs one ceremony at a time and its storage answers; list and byte-array operations, hash tables and
  \<open>QString::arg\<close> are modelled as documented. The discovery packet is modelled with the brace its
  initializer list lacks.

  \<^bold>\<open>Not modelled.\<close> The accept loops and the log of the daemon; the protobuf schema, which no code uses; the
  QR encoder, layout, painting and scaling of the windows, icons and titles, the widgets of the phone;
  installers, build scripts and CI. They hold no logic of the program's own.
\<close>

text \<open>The credential provider opens the pipe on which the daemon listens on Windows.\<close>

lemma provider_opens_the_daemons_pipe:
  "hd (snd (PipeApproval p)) = CreateFileW kPipe \<and> NamedPipe kPipe \<in> set (listeners False)"
  by (simp add: PipeApproval_def listeners_def kPipe_def split: option.split)

end
